(* ===== verification/Ordered_Map.thy ===== *)
theory Ordered_Map
  imports Calm_Prelude
begin

text \<open>
  Rust's \<open>BTreeMap\<close> as the sources use it: a finite map that is iterated in ascending key order.
  The interface is the locale \<open>ordered_map\<close>: lookup, insertion, retention and the ordered entries,
  with the laws a client relies on. The model's maps are association lists with strictly ascending
  keys (\<open>bt_wf\<close>); the interpretation \<open>bt\<close> at the end discharges the laws for them.
\<close>

section \<open>The interface\<close>

locale ordered_map =
  fixes wf :: "'m \<Rightarrow> bool"
    and empty :: "'m"
    and get :: "'m \<Rightarrow> 'k::linorder \<Rightarrow> 'v option"
    and put :: "'k \<Rightarrow> 'v \<Rightarrow> 'm \<Rightarrow> 'm"
    and retain :: "('k \<Rightarrow> 'v \<Rightarrow> bool) \<Rightarrow> 'm \<Rightarrow> 'm"
    and entries :: "'m \<Rightarrow> ('k \<times> 'v) list"
  assumes wf_empty: "wf empty"
    and wf_put: "wf m \<Longrightarrow> wf (put k v m)"
    and wf_retain: "wf m \<Longrightarrow> wf (retain f m)"
    and get_empty: "get empty k = None"
    and get_put: "wf m \<Longrightarrow> get (put k v m) j = (if j = k then Some v else get m j)"
    and get_retain: "wf m \<Longrightarrow> get (retain f m) k =
        (case get m k of None \<Rightarrow> None | Some v \<Rightarrow> if f k v then Some v else None)"
    and entries_ascending: "wf m \<Longrightarrow> sorted_wrt (<) (map fst (entries m))"
    and entries_get: "wf m \<Longrightarrow> (k, v) \<in> set (entries m) \<longleftrightarrow> get m k = Some v"
begin

text \<open>What iteration yields is determined by what lookup returns.\<close>

lemma entries_eqI:
  assumes "wf m" "wf n" and eq: "\<And>k. get m k = get n k"
  shows "entries m = entries n"
proof -
  have s: "set (entries m) = set (entries n)"
    using entries_get [OF assms(1)] entries_get [OF assms(2)] eq by auto
  have "map fst (entries m) = map fst (entries n)"
    by (rule strict_sorted_equal)
      (use entries_ascending [OF assms(1)] entries_ascending [OF assms(2)] s in simp_all)
  moreover have "inj_on fst (set (entries m) \<union> set (entries n))"
    unfolding s inj_on_def using entries_get [OF assms(2)] by force
  ultimately show ?thesis by (rule map_inj_on)
qed

lemma entries_distinct: "wf m \<Longrightarrow> distinct (map fst (entries m))"
  using entries_ascending [of m] by (simp add: strict_sorted_iff)

lemma retain_subset: "wf m \<Longrightarrow> get (retain f m) k = Some v \<Longrightarrow> get m k = Some v \<and> f k v"
  by (auto simp: get_retain split: option.splits if_splits)

lemma get_put_same: "wf m \<Longrightarrow> get (put k v m) k = Some v"
  by (simp add: get_put)

lemma get_put_other: "wf m \<Longrightarrow> j \<noteq> k \<Longrightarrow> get (put k v m) j = get m j"
  by (simp add: get_put)

end

section \<open>Association lists with ascending keys\<close>

type_synonym ('k, 'v) btree = "('k \<times> 'v) list"

definition bt_wf :: "('k::linorder, 'v) btree \<Rightarrow> bool" where
  "bt_wf m = sorted_wrt (<) (map fst m)"

definition bt_get :: "('k, 'v) btree \<Rightarrow> 'k \<Rightarrow> 'v option" where
  "bt_get m k = map_of m k"

fun bt_insert :: "'k::linorder \<Rightarrow> 'v \<Rightarrow> ('k, 'v) btree \<Rightarrow> ('k, 'v) btree" where
  "bt_insert k v [] = [(k, v)]"
| "bt_insert k v (e # m) =
     (if fst e < k then e # bt_insert k v m
      else if fst e = k then (k, v) # m
      else (k, v) # e # m)"

definition bt_retain :: "('k \<Rightarrow> 'v \<Rightarrow> bool) \<Rightarrow> ('k, 'v) btree \<Rightarrow> ('k, 'v) btree" where
  "bt_retain f m = filter (\<lambda>e. f (fst e) (snd e)) m"

definition bt_values :: "('k, 'v) btree \<Rightarrow> 'v list" where
  "bt_values m = map snd m"

text \<open>\<open>values_mut()\<close> with an in-place change of every value, and \<open>get_mut(k)\<close> followed by one.\<close>

definition bt_map :: "('k \<Rightarrow> 'v \<Rightarrow> 'w) \<Rightarrow> ('k, 'v) btree \<Rightarrow> ('k, 'w) btree" where
  "bt_map f m = map (\<lambda>e. (fst e, f (fst e) (snd e))) m"

text \<open>\<open>collect()\<close> from pairs: a later pair replaces an earlier one with the same key.\<close>

definition bt_collect :: "('k::linorder \<times> 'v) list \<Rightarrow> ('k, 'v) btree" where
  "bt_collect ps = fold (\<lambda>p m. bt_insert (fst p) (snd p) m) ps []"

lemma bt_get_Nil [simp]: "bt_get [] k = None"
  by (simp add: bt_get_def)

lemma fst_set_bt_insert [simp]: "fst ` set (bt_insert k v m) = insert k (fst ` set m)"
  by (induction m) (auto split: if_splits)

lemma bt_wf_Nil [simp]: "bt_wf []"
  by (simp add: bt_wf_def)

lemma bt_wf_insert [simp]: "bt_wf m \<Longrightarrow> bt_wf (bt_insert k v m)"
proof (induction m)
  case (Cons e m)
  then have IH: "sorted_wrt (<) (map fst (bt_insert k v m))"
    and head: "\<forall>j \<in> fst ` set m. fst e < j"
    by (auto simp: bt_wf_def)
  show ?case
  proof (cases "fst e < k")
    case True
    then have "\<forall>j \<in> fst ` set (bt_insert k v m). fst e < j" using head by simp
    with True IH show ?thesis by (simp add: bt_wf_def)
  next
    case False
    with Cons.prems show ?thesis by (auto simp: bt_wf_def)
  qed
qed (simp add: bt_wf_def)

lemma bt_get_insert [simp]:
  "bt_get (bt_insert k v m) j = (if j = k then Some v else bt_get m j)"
  by (induction m) (auto simp: bt_get_def)

lemma bt_wf_retain [simp]: "bt_wf m \<Longrightarrow> bt_wf (bt_retain f m)"
proof -
  have "sorted_wrt (<) (map fst m) \<Longrightarrow> sorted_wrt (<) (map fst (filter P m))" for P
    by (induction m) auto
  then show "bt_wf m \<Longrightarrow> bt_wf (bt_retain f m)" by (simp add: bt_wf_def bt_retain_def)
qed

lemma bt_wf_distinct: "bt_wf m \<Longrightarrow> distinct (map fst m)"
  by (simp add: bt_wf_def strict_sorted_iff)

lemma bt_get_entries: "bt_wf m \<Longrightarrow> (k, v) \<in> set m \<longleftrightarrow> bt_get m k = Some v"
  by (simp add: bt_get_def bt_wf_distinct)

lemma bt_get_retain:
  assumes "bt_wf m"
  shows "bt_get (bt_retain f m) k =
    (case bt_get m k of None \<Rightarrow> None | Some v \<Rightarrow> if f k v then Some v else None)"
proof -
  have r: "bt_get (bt_retain f m) k = Some v \<longleftrightarrow> bt_get m k = Some v \<and> f k v" for v
    using bt_get_entries [OF assms, of k v] bt_get_entries [OF bt_wf_retain [OF assms], of k v f]
    by (auto simp: bt_retain_def)
  then have "bt_get (bt_retain f m) k = None \<longleftrightarrow> (\<forall>v. bt_get m k = Some v \<longrightarrow> \<not> f k v)"
    by (metis not_Some_eq)
  with r show ?thesis by (cases "bt_get m k") auto
qed

lemma bt_map_keys [simp]: "map fst (bt_map f m) = map fst m"
  by (simp add: bt_map_def)

lemma bt_wf_map [simp]: "bt_wf (bt_map f m) \<longleftrightarrow> bt_wf m"
  by (simp add: bt_wf_def)

lemma bt_get_map [simp]: "bt_get (bt_map f m) k = map_option (f k) (bt_get m k)"
  by (induction m) (auto simp: bt_map_def bt_get_def)

lemma bt_wf_collect_fold: "bt_wf m \<Longrightarrow> bt_wf (fold (\<lambda>p m. bt_insert (fst p) (snd p) m) ps m)"
  by (induction ps arbitrary: m) auto

lemma bt_wf_collect [simp]: "bt_wf (bt_collect ps)"
  by (simp add: bt_collect_def bt_wf_collect_fold)

lemma bt_get_collect_fold:
  "bt_get (fold (\<lambda>p m. bt_insert (fst p) (snd p) m) ps m) k =
     (case map_of (rev ps) k of None \<Rightarrow> bt_get m k | Some v \<Rightarrow> Some v)"
  by (induction ps arbitrary: m) (auto simp: map_add_def split: option.splits)

lemma bt_get_collect: "bt_get (bt_collect ps) k = map_of (rev ps) k"
  by (simp add: bt_collect_def bt_get_collect_fold split: option.splits)

lemma bt_get_collect_distinct:
  "distinct (map fst ps) \<Longrightarrow> bt_get (bt_collect ps) k = map_of ps k"
proof -
  assume d: "distinct (map fst ps)"
  then have "map_of (rev ps) k = Some v \<longleftrightarrow> map_of ps k = Some v" for v
    by (simp add: rev_map [symmetric])
  then show ?thesis by (metis bt_get_collect not_Some_eq)
qed

interpretation bt: ordered_map bt_wf "[]" bt_get bt_insert bt_retain "\<lambda>m. m"
  by unfold_locales (simp_all add: bt_get_retain bt_get_entries, simp add: bt_wf_def)

text \<open>Inserting twice under one key is inserting once, and insertions under different keys commute.\<close>

lemma bt_insert_insert_same: "bt_wf m \<Longrightarrow> bt_insert k v (bt_insert k w m) = bt_insert k v m"
  by (rule bt.entries_eqI) auto

lemma bt_insert_commute:
  "bt_wf m \<Longrightarrow> j \<noteq> k \<Longrightarrow> bt_insert j u (bt_insert k v m) = bt_insert k v (bt_insert j u m)"
  by (rule bt.entries_eqI) auto

lemma bt_insert_present: "bt_wf m \<Longrightarrow> bt_get m k = Some v \<Longrightarrow> bt_insert k v m = m"
  by (rule bt.entries_eqI) auto

lemma bt_keys_insert_present:
  assumes "bt_wf m" and "bt_get m k = Some w"
  shows "map fst (bt_insert k v m) = map fst m"
proof -
  have "k \<in> fst ` set m" using assms(2) by (force simp: bt_get_def dest: map_of_SomeD)
  then show ?thesis
    by (intro strict_sorted_equal)
      (use bt_wf_insert [OF assms(1), of k v] assms(1) in \<open>auto simp: bt_wf_def insert_absorb\<close>)
qed

end
