(* ===== verification/F64.thy ===== *)
theory F64
  imports Calm_Prelude "HOL-Library.Log_Nat"
begin

text \<open>
  Rust's \<open>f64\<close> as the metric checks use it: subtraction, negation, \<open><\<close>, \<open>>\<close>, \<open>==\<close> and
  \<open>is_finite\<close>. Every finite IEEE 754 binary64 number is an integer multiple of the least positive
  one, \<open>2 ^ (- 1074)\<close>, so a finite value is kept as that multiple: the exact difference of two
  finite values is an integer, and rounding to nearest, ties to even, keeps the 53 leading bits of
  its magnitude. A magnitude of \<open>2 ^ 1024\<close>, that is \<open>2 ^ 2098\<close> units, or more overflows to an
  infinity. The two zeros are different values that compare as equal; NaN compares with nothing.
\<close>

datatype f64 = NaN | Inf bool | NegZero | Fin int

text \<open>\<open>Inf True\<close> is the negative infinity, \<open>Fin 0\<close> the positive zero.\<close>

definition round53 :: "nat \<Rightarrow> nat" where
  "round53 n = (let s = floorlog 2 n - 53; q = n div 2 ^ s; r = n mod 2 ^ s
     in (if 2 * r > 2 ^ s \<or> 2 * r = 2 ^ s \<and> odd q then q + 1 else q) * 2 ^ s)"

definition f64_overflow :: nat where
  "f64_overflow = 2 ^ 2098"

definition f64_of_exact :: "int \<Rightarrow> f64" where
  "f64_of_exact k = (let m = round53 (nat \<bar>k\<bar>)
     in if f64_overflow \<le> m then Inf (k < 0) else Fin (sgn k * int m))"

definition f64_representable :: "f64 \<Rightarrow> bool" where
  "f64_representable x = (case x of Fin k \<Rightarrow> f64_of_exact k = Fin k | _ \<Rightarrow> True)"

fun f64_is_finite :: "f64 \<Rightarrow> bool" where
  "f64_is_finite NaN = False"
| "f64_is_finite (Inf _) = False"
| "f64_is_finite NegZero = True"
| "f64_is_finite (Fin _) = True"

fun f64_units :: "f64 \<Rightarrow> int" where
  "f64_units (Fin k) = k"
| "f64_units _ = 0"

fun f64_neg :: "f64 \<Rightarrow> f64" where
  "f64_neg NaN = NaN"
| "f64_neg (Inf s) = Inf (\<not> s)"
| "f64_neg NegZero = Fin 0"
| "f64_neg (Fin k) = (if k = 0 then NegZero else Fin (- k))"

fun f64_sub :: "f64 \<Rightarrow> f64 \<Rightarrow> f64" where
  "f64_sub NaN y = NaN"
| "f64_sub x NaN = NaN"
| "f64_sub (Inf s) (Inf t) = (if s = t then NaN else Inf s)"
| "f64_sub (Inf s) y = Inf s"
| "f64_sub x (Inf t) = Inf (\<not> t)"
| "f64_sub NegZero (Fin k) = (if k = 0 then NegZero else f64_of_exact (- k))"
| "f64_sub x y = f64_of_exact (f64_units x - f64_units y)"

fun f64_lt :: "f64 \<Rightarrow> f64 \<Rightarrow> bool" where
  "f64_lt NaN y = False"
| "f64_lt x NaN = False"
| "f64_lt (Inf s) (Inf t) = (s \<and> \<not> t)"
| "f64_lt (Inf s) y = s"
| "f64_lt x (Inf t) = (\<not> t)"
| "f64_lt x y = (f64_units x < f64_units y)"

definition f64_gt :: "f64 \<Rightarrow> f64 \<Rightarrow> bool" where
  "f64_gt x y = f64_lt y x"

text \<open>\<open>PartialEq\<close>.\<close>

fun f64_eq :: "f64 \<Rightarrow> f64 \<Rightarrow> bool" where
  "f64_eq NaN y = False"
| "f64_eq x NaN = False"
| "f64_eq (Inf s) y = (y = Inf s)"
| "f64_eq x (Inf t) = False"
| "f64_eq x y = (f64_units x = f64_units y)"

abbreviation f64_zero :: f64 where
  "f64_zero \<equiv> Fin 0"

section \<open>Rounding\<close>

lemma round53_small: "floorlog 2 n \<le> 53 \<Longrightarrow> round53 n = n"
  by (simp add: round53_def)

lemma round53_0 [simp]: "round53 0 = 0"
  by (simp add: round53_def)

text \<open>Rounding never turns a nonzero magnitude into zero: there is no underflow in a difference.\<close>

lemma round53_pos: "0 < n \<Longrightarrow> 0 < round53 n"
proof -
  assume n: "0 < n"
  let ?s = "floorlog 2 n - 53"
  have "2 ^ ?s \<le> n"
  proof (cases "floorlog 2 n \<le> 53")
    case False
    have "2 ^ (floorlog 2 n - 1) \<le> n"
      using floorlog_bounds [of n 2] n by simp
    moreover have "(2::nat) ^ ?s \<le> 2 ^ (floorlog 2 n - 1)"
      by (rule power_increasing) simp_all
    ultimately show ?thesis by linarith
  qed (use n in simp)
  then have "0 < n div 2 ^ ?s" by (simp add: div_greater_zero_iff)
  then show ?thesis by (simp add: round53_def Let_def)
qed

lemma round53_eq_0 [simp]: "round53 n = 0 \<longleftrightarrow> n = 0"
  using round53_pos [of n] by (cases "n = 0") auto

lemma f64_of_exact_finite_sign:
  "f64_lt f64_zero (f64_of_exact k) \<longleftrightarrow> 0 < k"
  "f64_lt (f64_of_exact k) f64_zero \<longleftrightarrow> k < 0"
  by (auto simp: f64_of_exact_def Let_def zero_less_mult_iff mult_less_0_iff sgn_if f64_overflow_def
      intro: round53_pos)

lemma f64_of_exact_0 [simp]: "f64_of_exact 0 = Fin 0"
  by (simp add: f64_of_exact_def f64_overflow_def)

lemma f64_neg_of_exact: "k \<noteq> 0 \<Longrightarrow> f64_of_exact (- k) = f64_neg (f64_of_exact k)"
  by (auto simp: f64_of_exact_def Let_def sgn_if)

section \<open>Comparison\<close>

lemma f64_lt_irrefl [simp]: "\<not> f64_lt x x"
  by (cases x) auto

lemma f64_lt_trans: "f64_lt x y \<Longrightarrow> f64_lt y z \<Longrightarrow> f64_lt x z"
  by (cases x; cases y; cases z) auto

lemma f64_lt_neg [simp]: "f64_lt (f64_neg x) (f64_neg y) \<longleftrightarrow> f64_lt y x"
  by (cases x; cases y) auto

lemma f64_lt_neg_left: "f64_lt (f64_neg x) y \<longleftrightarrow> f64_lt (f64_neg y) x"
  by (cases x; cases y) auto

lemma f64_lt_neg_right: "f64_lt x (f64_neg y) \<longleftrightarrow> f64_lt y (f64_neg x)"
  by (cases x; cases y) auto

lemma f64_lt_NaN [simp]: "\<not> f64_lt x NaN" "\<not> f64_lt NaN x"
  by (cases x; simp)+

section \<open>Subtraction\<close>

text \<open>Swapping the operands negates the difference, up to the sign of a zero no comparison sees.\<close>

lemma f64_lt_sub_swap: "f64_lt t (f64_sub x y) \<longleftrightarrow> f64_lt t (f64_neg (f64_sub y x))"
proof -
  have swap: "f64_lt t (f64_of_exact (a - b)) = f64_lt t (f64_neg (f64_of_exact (b - a)))" for a b
  proof (cases "a = b")
    case True
    then show ?thesis by (cases t) auto
  next
    case False
    then show ?thesis using f64_neg_of_exact [of "b - a"] by simp
  qed
  show ?thesis
    using swap [of "f64_units x" "f64_units y"] swap [of 0 0]
    by (cases x; cases y) (auto simp: f64_neg_of_exact)
qed

lemma f64_sub_sign:
  assumes "f64_is_finite x" "f64_is_finite y"
  shows "f64_lt f64_zero (f64_sub x y) \<longleftrightarrow> f64_lt y x"
  using assms by (cases x; cases y) (auto simp: f64_of_exact_finite_sign)

lemma f64_sub_self: "\<not> f64_lt f64_zero (f64_sub x x)" "\<not> f64_lt (f64_sub x x) f64_zero"
  by (cases x; simp)+

lemma f64_neg_neg [simp]: "f64_neg (f64_neg x) = x"
  by (cases x) auto

lemma f64_is_finite_neg [simp]: "f64_is_finite (f64_neg x) = f64_is_finite x"
  by (cases x) auto

end
