(* ===== verification/Objective_Check.thy ===== *)
theory Objective_Check
  imports Ordered_Map F64
begin

text \<open>
  The check kinds of the objective engine (crates/objective/src/check, diagnostic.rs): parameters,
  sample outputs, validation and the comparison of a candidate output with a baseline output, and
  the registry \<open>CheckConfig\<close> that dispatches on the kind.

  The trait \<open>CheckKind\<close> is the locale \<open>check_kind\<close>: comparing an output with itself is neither
  better nor worse, and swapping baseline and candidate reverses the trend. The pass/fail kinds
  satisfy the stronger contract \<open>outcome_kind\<close>. Command, fact and metric checks interpret them.
  An evaluator's judgements are already pairwise against a baseline, so it satisfies neither and
  is specified by its own lemmas.
\<close>

section \<open>Diagnostics\<close>

datatype budget_limit = Turns | Tokens | WallSecs

datatype problem =
    EmptyKey | EmptyTitle | NoChecks | EmptyCheckId | DuplicateCheckId
  | ConvergeWithoutGoal | LoopWithoutRatchet | ZeroPlateau | ZeroBudget budget_limit
  | EmptyConstraint | EmptyCommand | InvalidTolerance | ZeroSamples | EmptyRubric
  | EmptyRubricItem | DuplicateRubricItem string | EmptyFactSubject

record diagnostic =
  diag_path :: string
  diag_problem :: problem

definition new_diagnostic :: "string \<Rightarrow> problem \<Rightarrow> diagnostic" where
  "new_diagnostic p q = \<lparr>diag_path = p, diag_problem = q\<rparr>"

section \<open>Trends and comparisons\<close>

datatype trend = Worse | Same | Better

text \<open>The derived order: worst first.\<close>

fun trend_rank :: "trend \<Rightarrow> nat" where
  "trend_rank Worse = 0"
| "trend_rank Same = 1"
| "trend_rank Better = 2"

instantiation trend :: linorder
begin
definition less_eq_trend :: "trend \<Rightarrow> trend \<Rightarrow> bool" where
  "less_eq_trend a b \<longleftrightarrow> trend_rank a \<le> trend_rank b"
definition less_trend :: "trend \<Rightarrow> trend \<Rightarrow> bool" where
  "less_trend a b \<longleftrightarrow> trend_rank a < trend_rank b"
instance
proof
  fix x y :: trend
  show "x \<le> y \<Longrightarrow> y \<le> x \<Longrightarrow> x = y"
    by (cases x; cases y) (simp_all add: less_eq_trend_def)
qed (auto simp: less_eq_trend_def less_trend_def)
end

fun trend_between :: "bool \<Rightarrow> bool \<Rightarrow> trend" where
  "trend_between False True = Better"
| "trend_between True False = Worse"
| "trend_between _ _ = Same"

text \<open>\<open>From<Ordering>\<close> on the comparison of two values: greater means ahead of the baseline.\<close>

definition trend_of_cmp :: "'a::linorder \<Rightarrow> 'a \<Rightarrow> trend" where
  "trend_of_cmp a b = (if a < b then Worse else if a = b then Same else Better)"

record comparison =
  cmp_trend :: trend
  cmp_passed :: bool

datatype kind_mismatch = KindMismatch

section \<open>Command checks\<close>

record command_params =
  cmd_command :: string

record command_output =
  exit_code :: i32

definition command_passed :: "command_output \<Rightarrow> bool" where
  "command_passed r \<longleftrightarrow> exit_code r = 0"

definition command_validate :: "command_params \<Rightarrow> problem list" where
  "command_validate p = (if trim_is_empty (cmd_command p) then [EmptyCommand] else [])"

definition command_compare :: "command_params \<Rightarrow> command_output \<Rightarrow> command_output \<Rightarrow> comparison" where
  "command_compare p b c =
     \<lparr>cmp_trend = trend_between (command_passed b) (command_passed c), cmp_passed = command_passed c\<rparr>"

section \<open>Fact checks\<close>

datatype fact = TaskAccepted | PrMerged | AskAnswered

record fact_params =
  fact_kind :: fact
  fact_subject :: string

record fact_output =
  holds :: bool

definition fact_validate :: "fact_params \<Rightarrow> problem list" where
  "fact_validate p = (if trim_is_empty (fact_subject p) then [EmptyFactSubject] else [])"

definition fact_compare :: "fact_params \<Rightarrow> fact_output \<Rightarrow> fact_output \<Rightarrow> comparison" where
  "fact_compare p b c = \<lparr>cmp_trend = trend_between (holds b) (holds c), cmp_passed = holds c\<rparr>"

section \<open>Metric checks\<close>

datatype direction = Higher | Lower

record metric_params =
  metric_command :: string
  metric_direction :: direction
  metric_tolerance :: "f64 option"

record metric_output =
  metric_value :: f64

definition metric_validate :: "metric_params \<Rightarrow> problem list" where
  "metric_validate p =
     (if trim_is_empty (metric_command p) then [EmptyCommand] else [])
     @ (case metric_tolerance p of
          None \<Rightarrow> []
        | Some t \<Rightarrow> if \<not> f64_is_finite t \<or> f64_lt t f64_zero then [InvalidTolerance] else [])"

definition metric_gain :: "metric_params \<Rightarrow> metric_output \<Rightarrow> metric_output \<Rightarrow> f64" where
  "metric_gain p b c =
     (case metric_direction p of
        Higher \<Rightarrow> f64_sub (metric_value c) (metric_value b)
      | Lower \<Rightarrow> f64_sub (metric_value b) (metric_value c))"

definition metric_tol :: "metric_params \<Rightarrow> f64" where
  "metric_tol p = (case metric_tolerance p of None \<Rightarrow> f64_zero | Some t \<Rightarrow> t)"

definition metric_compare :: "metric_params \<Rightarrow> metric_output \<Rightarrow> metric_output \<Rightarrow> comparison" where
  "metric_compare p b c =
     (let gain = metric_gain p b c;
          tol = metric_tol p;
          tr = (if f64_gt gain tol then Better
                else if f64_lt gain (f64_neg tol) then Worse
                else Same)
      in \<lparr>cmp_trend = tr, cmp_passed = (tr \<noteq> Worse)\<rparr>)"

section \<open>Evaluator checks\<close>

record rubric_item =
  item_id :: string
  item_criterion :: string

datatype aggregate = Majority | Median

record evaluator_params =
  rubric :: "rubric_item list"
  eval_samples :: u32
  eval_aggregate :: aggregate

record evidence =
  evidence_path :: string
  evidence_line :: u32

record judgement =
  judged_item :: string
  judged_trend :: trend
  judged_evidence :: "evidence list"

record findings =
  blocking :: u32
  major :: u32
  minor :: u32

record evaluator_sample =
  judgements :: "judgement list"
  sample_findings :: findings

record evaluator_output =
  runs :: "evaluator_sample list"

definition sample_trend_for :: "evaluator_sample \<Rightarrow> string \<Rightarrow> trend" where
  "sample_trend_for s item =
     (case find (\<lambda>j. judged_item j = item) (judgements s) of
        None \<Rightarrow> Same
      | Some j \<Rightarrow> if judged_trend j = Same \<or> judged_evidence j \<noteq> [] then judged_trend j else Same)"

definition lower_median :: "'a::linorder list \<Rightarrow> 'a option" where
  "lower_median vs =
     (let i = (length vs - 1) div 2 in if i < length vs then Some (sort vs ! i) else None)"

definition output_findings :: "evaluator_output \<Rightarrow> findings" where
  "output_findings r =
     (let median_of = (\<lambda>severity. case lower_median (map (\<lambda>s. severity (sample_findings s)) (runs r)) of
                          None \<Rightarrow> 0 | Some n \<Rightarrow> n)
      in \<lparr>blocking = median_of blocking, major = median_of major, minor = median_of minor\<rparr>)"

definition majority :: "trend list \<Rightarrow> trend" where
  "majority ts =
     (let worse = length (filter (\<lambda>t. t = Worse) ts);
          same = length (filter (\<lambda>t. t = Same) ts);
          better = length (filter (\<lambda>t. t = Better) ts)
      in if worse < better \<and> same < better then Better
         else if better < worse \<and> same < worse then Worse
         else Same)"

definition output_trend_for :: "evaluator_output \<Rightarrow> string \<Rightarrow> aggregate \<Rightarrow> trend" where
  "output_trend_for r item agg =
     (let ts = map (\<lambda>s. sample_trend_for s item) (runs r)
      in case agg of
           Majority \<Rightarrow> majority ts
         | Median \<Rightarrow> (case lower_median ts of None \<Rightarrow> Same | Some t \<Rightarrow> t))"

fun rubric_problems :: "string set \<Rightarrow> rubric_item list \<Rightarrow> problem list" where
  "rubric_problems seen [] = []"
| "rubric_problems seen (i # is) =
     (if trim_is_empty (item_id i) \<or> trim_is_empty (item_criterion i) then [EmptyRubricItem] else [])
     @ (if item_id i \<in> seen then [DuplicateRubricItem (item_id i)] else [])
     @ rubric_problems (insert (item_id i) seen) is"

definition evaluator_validate :: "evaluator_params \<Rightarrow> problem list" where
  "evaluator_validate p =
     (if eval_samples p = 0 then [ZeroSamples] else [])
     @ (if rubric p = [] then [EmptyRubric] else [])
     @ rubric_problems {} (rubric p)"

definition evaluator_compare ::
  "evaluator_params \<Rightarrow> evaluator_output \<Rightarrow> evaluator_output \<Rightarrow> comparison" where
  "evaluator_compare p b c =
     (if runs c = [] then \<lparr>cmp_trend = Same, cmp_passed = False\<rparr>
      else let before = output_findings b;
               after = output_findings c;
               ts = map (\<lambda>i. output_trend_for c (item_id i) (eval_aggregate p)) (rubric p)
                    @ [trend_of_cmp (blocking before) (blocking after)];
               tr = (if Worse \<in> set ts then Worse else if Better \<in> set ts then Better else Same)
           in \<lparr>cmp_trend = tr, cmp_passed = (blocking after = 0)\<rparr>)"

section \<open>The kind registry\<close>

datatype check_config =
    CommandCfg command_params | MetricCfg metric_params
  | EvaluatorCfg evaluator_params | FactCfg fact_params

datatype sample_output =
    CommandSmp command_output | MetricSmp metric_output
  | EvaluatorSmp evaluator_sample | FactSmp fact_output

datatype check_output =
    CommandOut command_output | MetricOut metric_output
  | EvaluatorOut evaluator_output | FactOut fact_output

fun kind_name :: "check_config \<Rightarrow> string" where
  "kind_name (CommandCfg _) = ''command''"
| "kind_name (MetricCfg _) = ''metric''"
| "kind_name (EvaluatorCfg _) = ''evaluator''"
| "kind_name (FactCfg _) = ''fact''"

fun config_samples :: "check_config \<Rightarrow> u32" where
  "config_samples (EvaluatorCfg p) = eval_samples p"
| "config_samples (CommandCfg _) = 1"
| "config_samples (MetricCfg _) = 1"
| "config_samples (FactCfg _) = 1"

fun config_validate :: "check_config \<Rightarrow> problem list" where
  "config_validate (CommandCfg p) = command_validate p"
| "config_validate (MetricCfg p) = metric_validate p"
| "config_validate (EvaluatorCfg p) = evaluator_validate p"
| "config_validate (FactCfg p) = fact_validate p"

fun config_accepts :: "check_config \<Rightarrow> sample_output \<Rightarrow> bool" where
  "config_accepts (CommandCfg _) (CommandSmp _) = True"
| "config_accepts (MetricCfg _) (MetricSmp _) = True"
| "config_accepts (EvaluatorCfg _) (EvaluatorSmp _) = True"
| "config_accepts (FactCfg _) (FactSmp _) = True"
| "config_accepts _ _ = False"

fun config_compare ::
  "check_config \<Rightarrow> check_output \<Rightarrow> check_output \<Rightarrow> (comparison, kind_mismatch) result" where
  "config_compare (CommandCfg p) (CommandOut b) (CommandOut c) = Inr (command_compare p b c)"
| "config_compare (MetricCfg p) (MetricOut b) (MetricOut c) = Inr (metric_compare p b c)"
| "config_compare (EvaluatorCfg p) (EvaluatorOut b) (EvaluatorOut c) = Inr (evaluator_compare p b c)"
| "config_compare (FactCfg p) (FactOut b) (FactOut c) = Inr (fact_compare p b c)"
| "config_compare _ _ _ = Inl KindMismatch"

fun as_evaluator_run :: "sample_output \<Rightarrow> (evaluator_sample, kind_mismatch) result" where
  "as_evaluator_run (EvaluatorSmp r) = Inr r"
| "as_evaluator_run _ = Inl KindMismatch"

fun combine_single ::
  "check_config \<Rightarrow> sample_output \<Rightarrow> (check_output, kind_mismatch) result" where
  "combine_single (CommandCfg _) (CommandSmp r) = Inr (CommandOut r)"
| "combine_single (MetricCfg _) (MetricSmp r) = Inr (MetricOut r)"
| "combine_single (FactCfg _) (FactSmp r) = Inr (FactOut r)"
| "combine_single _ _ = Inl KindMismatch"

definition config_combine ::
  "check_config \<Rightarrow> sample_output list \<Rightarrow> (check_output, kind_mismatch) result" where
  "config_combine cfg smps =
     (if length smps \<noteq> unat (config_samples cfg) then Inl KindMismatch
      else case cfg of
        EvaluatorCfg _ \<Rightarrow>
          and_then (collect_results (map as_evaluator_run smps)) (\<lambda>rs. Inr (EvaluatorOut \<lparr>runs = rs\<rparr>))
      | _ \<Rightarrow> (case smps of [smp] \<Rightarrow> combine_single cfg smp | _ \<Rightarrow> Inl KindMismatch))"

text \<open>
  The derived \<open>PartialEq\<close>: equality of the fields, where a tolerance is compared as \<open>f64\<close> compares
  (the two zeros are equal, NaN is unequal to itself).
\<close>

definition metric_params_eq :: "metric_params \<Rightarrow> metric_params \<Rightarrow> bool" where
  "metric_params_eq p q \<longleftrightarrow>
     metric_command p = metric_command q \<and> metric_direction p = metric_direction q \<and>
     (case (metric_tolerance p, metric_tolerance q) of
        (None, None) \<Rightarrow> True | (Some s, Some t) \<Rightarrow> f64_eq s t | _ \<Rightarrow> False)"

fun config_eq :: "check_config \<Rightarrow> check_config \<Rightarrow> bool" where
  "config_eq (CommandCfg p) (CommandCfg q) = (p = q)"
| "config_eq (MetricCfg p) (MetricCfg q) = metric_params_eq p q"
| "config_eq (EvaluatorCfg p) (EvaluatorCfg q) = (p = q)"
| "config_eq (FactCfg p) (FactCfg q) = (p = q)"
| "config_eq _ _ = False"

text \<open>Whether a combined output has the kind of a configuration.\<close>

fun config_produces :: "check_config \<Rightarrow> check_output \<Rightarrow> bool" where
  "config_produces (CommandCfg _) (CommandOut _) = True"
| "config_produces (MetricCfg _) (MetricOut _) = True"
| "config_produces (EvaluatorCfg p) (EvaluatorOut r) = (length (runs r) = unat (eval_samples p))"
| "config_produces (FactCfg _) (FactOut _) = True"
| "config_produces _ _ = False"

section \<open>The contract of a check kind\<close>

locale check_kind =
  fixes validate :: "'p \<Rightarrow> problem list"
    and compare :: "'p \<Rightarrow> 'o \<Rightarrow> 'o \<Rightarrow> comparison"
  assumes trend_refl: "validate p = [] \<Longrightarrow> cmp_trend (compare p x x) = Same"
    and trend_swap: "validate p = [] \<Longrightarrow>
        cmp_trend (compare p b c) = Worse \<longleftrightarrow> cmp_trend (compare p c b) = Better"
begin

lemma trend_same_sym:
  "validate p = [] \<Longrightarrow> cmp_trend (compare p b c) = Same \<longleftrightarrow> cmp_trend (compare p c b) = Same"
  using trend_swap [of p b c] trend_swap [of p c b]
  by (cases "cmp_trend (compare p b c)"; cases "cmp_trend (compare p c b)") auto

end

text \<open>A kind decided by one pass/fail outcome of the output.\<close>

locale outcome_kind =
  fixes validate :: "'p \<Rightarrow> problem list"
    and compare :: "'p \<Rightarrow> 'o \<Rightarrow> 'o \<Rightarrow> comparison"
    and ok :: "'o \<Rightarrow> bool"
  assumes outcome: "compare p b c = \<lparr>cmp_trend = trend_between (ok b) (ok c), cmp_passed = ok c\<rparr>"
begin

lemma passing_is_kept: "cmp_trend (compare p b c) \<noteq> Worse \<Longrightarrow> ok b \<Longrightarrow> ok c"
  by (cases "ok b"; cases "ok c") (simp_all add: outcome)

lemma not_worse_iff: "cmp_trend (compare p b c) \<noteq> Worse \<longleftrightarrow> (ok b \<longrightarrow> ok c)"
  by (cases "ok b"; cases "ok c") (simp_all add: outcome)

end

sublocale outcome_kind \<subseteq> check_kind validate compare
proof
  fix p b c x
  show "cmp_trend (compare p x x) = Same"
    by (cases "ok x") (simp_all add: outcome)
  show "cmp_trend (compare p b c) = Worse \<longleftrightarrow> cmp_trend (compare p c b) = Better"
    by (cases "ok b"; cases "ok c") (simp_all add: outcome)
qed

interpretation command_check: outcome_kind command_validate command_compare command_passed
  by unfold_locales (simp add: command_compare_def)

interpretation fact_check: outcome_kind fact_validate fact_compare holds
  by unfold_locales (simp add: fact_compare_def)

lemma metric_gain_swap:
  "f64_lt t (metric_gain p b c) \<longleftrightarrow> f64_lt t (f64_neg (metric_gain p c b))"
  by (cases "metric_direction p") (simp_all add: metric_gain_def f64_lt_sub_swap)

lemma metric_gain_swap':
  "f64_lt (metric_gain p b c) t \<longleftrightarrow> f64_lt (f64_neg (metric_gain p c b)) t"
proof -
  have "f64_lt (metric_gain p b c) t \<longleftrightarrow> f64_lt (f64_neg t) (f64_neg (metric_gain p b c))" by simp
  also have "\<dots> \<longleftrightarrow> f64_lt (f64_neg t) (metric_gain p c b)"
    using metric_gain_swap [of "f64_neg t" p c b] by simp
  also have "\<dots> \<longleftrightarrow> f64_lt (f64_neg (metric_gain p c b)) t" by (rule f64_lt_neg_left)
  finally show ?thesis .
qed

lemma metric_tol_nonneg: "metric_validate p = [] \<Longrightarrow> \<not> f64_lt (metric_tol p) f64_zero"
  by (auto simp: metric_validate_def metric_tol_def split: option.splits if_splits)

lemma metric_gain_refl: "\<not> f64_lt f64_zero (metric_gain p x x)" "\<not> f64_lt (metric_gain p x x) f64_zero"
  by (cases "metric_direction p"; simp add: metric_gain_def f64_sub_self)+

lemma metric_trend:
  "cmp_trend (metric_compare p b c) =
     (if f64_lt (metric_tol p) (metric_gain p b c) then Better
      else if f64_lt (metric_gain p b c) (f64_neg (metric_tol p)) then Worse else Same)"
  "cmp_passed (metric_compare p b c) \<longleftrightarrow> cmp_trend (metric_compare p b c) \<noteq> Worse"
  by (simp_all add: metric_compare_def Let_def f64_gt_def)

interpretation metric_check: check_kind metric_validate metric_compare
proof
  fix p b c x
  assume v: "metric_validate p = []"
  have neg: "f64_lt f64_zero (f64_neg (metric_tol p)) \<longleftrightarrow> f64_lt (metric_tol p) f64_zero"
    by (cases "metric_tol p") auto
  show "cmp_trend (metric_compare p x x) = Same"
  proof (cases "metric_gain p x x")
    case (Fin k)
    with metric_gain_refl [of p x] have "metric_gain p x x = f64_zero" by simp
    then show ?thesis using metric_tol_nonneg [OF v] neg by (simp add: metric_trend)
  next
    case (Inf s)
    with metric_gain_refl [of p x] show ?thesis by simp
  next
    case NegZero
    then show ?thesis using metric_tol_nonneg [OF v] neg
      by (cases "metric_tol p") (auto simp: metric_trend)
  qed (simp add: metric_trend)
  have disj: "\<not> (f64_lt (metric_tol p) g \<and> f64_lt g (f64_neg (metric_tol p)))" for g
    using metric_tol_nonneg [OF v] by (cases "metric_tol p"; cases g) auto
  show "cmp_trend (metric_compare p b c) = Worse \<longleftrightarrow> cmp_trend (metric_compare p c b) = Better"
    using disj [of "metric_gain p b c"] metric_gain_swap' [of p b c "f64_neg (metric_tol p)"]
    by (auto simp: metric_trend)
qed

section \<open>Combining samples\<close>

lemma collect_evaluator_runs:
  "\<forall>smp \<in> set smps. config_accepts (EvaluatorCfg p) smp \<Longrightarrow>
     \<exists>rs. collect_results (map as_evaluator_run smps) = Inr rs \<and> length rs = length smps"
proof (induction smps)
  case (Cons smp smps)
  then show ?case by (cases smp) auto
qed simp

text \<open>
  Samples that were accepted on arrival, in the right number, always combine, and into an output
  of the check's own kind.
\<close>

lemma config_combine_accepts:
  assumes n: "length smps = unat (config_samples cfg)"
    and acc: "\<forall>smp \<in> set smps. config_accepts cfg smp"
  shows "\<exists>out. config_combine cfg smps = Inr out \<and> config_produces cfg out"
proof (cases cfg)
  case (EvaluatorCfg p)
  then show ?thesis
    using collect_evaluator_runs [of smps p] acc n by (auto simp: config_combine_def)
next
  case (CommandCfg p)
  then obtain smp where "smps = [smp]" using n by (auto simp: length_Suc_conv)
  then show ?thesis using CommandCfg acc by (cases smp) (auto simp: config_combine_def)
next
  case (MetricCfg p)
  then obtain smp where "smps = [smp]" using n by (auto simp: length_Suc_conv)
  then show ?thesis using MetricCfg acc by (cases smp) (auto simp: config_combine_def)
next
  case (FactCfg p)
  then obtain smp where "smps = [smp]" using n by (auto simp: length_Suc_conv)
  then show ?thesis using FactCfg acc by (cases smp) (auto simp: config_combine_def)
qed

lemma config_compare_produces:
  "config_produces cfg b \<Longrightarrow> config_produces cfg c \<Longrightarrow> \<exists>r. config_compare cfg b c = Inr r"
  by (cases cfg; cases b; cases c) auto

text \<open>A retained result stays a result of the redefined check, since its configuration is equal.\<close>

lemma config_eq_produces: "config_eq cfg cfg' \<Longrightarrow> config_produces cfg out \<longleftrightarrow> config_produces cfg' out"
  by (cases cfg; cases cfg'; cases out) auto

section \<open>Medians and majorities\<close>

lemma lower_median_None [simp]: "lower_median vs = None \<longleftrightarrow> vs = []"
  by (cases vs) (auto simp: lower_median_def Let_def)

lemma lower_median_in: "lower_median vs = Some v \<Longrightarrow> v \<in> set vs"
  by (auto simp: lower_median_def Let_def split: if_splits)
    (metis length_sort nth_mem set_sort)

text \<open>At least half of the samples, rounded up, are at most the lower median, and at least half are at least it.\<close>

lemma lower_median_splits:
  assumes "lower_median vs = Some v"
  shows "length vs \<le> 2 * length (filter (\<lambda>x. x \<le> v) vs)"
    and "length vs \<le> 2 * length (filter (\<lambda>x. v \<le> x) vs)"
proof -
  let ?i = "(length vs - 1) div 2"
  from assms have i: "?i < length vs" and v: "v = sort vs ! ?i"
    by (auto simp: lower_median_def Let_def split: if_splits)
  have perm: "length (filter P (sort vs)) = length (filter P vs)" for P
    by (simp add: filter_sort)
  have "set (take (Suc ?i) (sort vs)) \<subseteq> {x. x \<le> v}"
    using i v by (auto simp: in_set_conv_nth less_Suc_eq_le intro!: sorted_nth_mono)
  then have "filter (\<lambda>x. x \<le> v) (take (Suc ?i) (sort vs)) = take (Suc ?i) (sort vs)"
    by (auto simp: filter_id_conv)
  then have "Suc ?i \<le> length (filter (\<lambda>x. x \<le> v) (take (Suc ?i) (sort vs) @ drop (Suc ?i) (sort vs)))"
    using i by (simp del: append_take_drop_id)
  then show "length vs \<le> 2 * length (filter (\<lambda>x. x \<le> v) vs)"
    using perm by simp
  have "set (drop ?i (sort vs)) \<subseteq> {x. v \<le> x}"
    using i v by (auto simp: in_set_conv_nth less_Suc_eq_le intro!: sorted_nth_mono)
  then have "filter (\<lambda>x. v \<le> x) (drop ?i (sort vs)) = drop ?i (sort vs)"
    by (auto simp: filter_id_conv)
  then have "length vs - ?i \<le> length (filter (\<lambda>x. v \<le> x) (take ?i (sort vs) @ drop ?i (sort vs)))"
    using i by (simp del: append_take_drop_id) linarith
  then show "length vs \<le> 2 * length (filter (\<lambda>x. v \<le> x) vs)"
    using perm i by simp
qed

end
