(* ===== verification/Objective_Definition.thy ===== *)
theory Objective_Definition
  imports Objective_Check
begin

text \<open>
  Objective definitions and their validation (crates/objective/src/definition.rs), the standard a
  human approves, its hash and approvals (standard.rs).

  Serialising the canonical standard and hashing the bytes is code of the packages serde\_json and
  sha2: the function from a canonical standard to the digest's bytes is the parameter \<open>digest\<close> of
  every definition that hashes. The lowercase hexadecimal rendering is modelled.
\<close>

section \<open>Definitions\<close>

datatype mode = Converge | Loop u32

datatype role = Invariant | Ratchet | Goal

record check_definition =
  check_id :: string
  check_role :: role
  check_cfg :: check_config

record budget =
  budget_turns :: u32
  budget_tokens :: u64
  budget_wall_secs :: u64

record usage =
  turns :: u32
  context_tokens :: u64
  elapsed_secs :: u64

definition zero_usage :: usage where
  "zero_usage = \<lparr>turns = 0, context_tokens = 0, elapsed_secs = 0\<rparr>"

datatype compact_policy = EverySettle | OnClose | NoCompact

record objective_definition =
  obj_key :: string
  obj_title :: string
  obj_mode :: mode
  obj_checks :: "check_definition list"
  obj_constraints :: "string list"
  obj_budget :: budget
  obj_compact :: compact_policy

definition exhausted :: "budget \<Rightarrow> usage \<Rightarrow> budget_limit list" where
  "exhausted b u =
     (if (ucast (budget_turns b) :: u64) \<le> ucast (turns u) then [Turns] else [])
     @ (if budget_tokens b \<le> context_tokens u then [Tokens] else [])
     @ (if budget_wall_secs b \<le> elapsed_secs u then [WallSecs] else [])"

definition usage_since :: "usage \<Rightarrow> usage \<Rightarrow> usage" where
  "usage_since u start =
     \<lparr>turns = saturating_sub (turns u) (turns start),
      context_tokens = saturating_sub (context_tokens u) (context_tokens start),
      elapsed_secs = saturating_sub (elapsed_secs u) (elapsed_secs start)\<rparr>"

definition definition_check :: "objective_definition \<Rightarrow> string \<Rightarrow> check_definition option" where
  "definition_check d i = find (\<lambda>c. check_id c = i) (obj_checks d)"

section \<open>Validation\<close>

fun check_diagnostics :: "string set \<Rightarrow> check_definition list \<Rightarrow> diagnostic list" where
  "check_diagnostics seen [] = []"
| "check_diagnostics seen (c # cs) =
     (let path = ''checks.'' @ check_id c in
        (if trim_is_empty (check_id c) then [new_diagnostic path EmptyCheckId] else [])
        @ (if check_id c \<in> seen then [new_diagnostic path DuplicateCheckId] else [])
        @ map (new_diagnostic path) (config_validate (check_cfg c))
        @ check_diagnostics (insert (check_id c) seen) cs)"

definition has_role :: "objective_definition \<Rightarrow> role \<Rightarrow> bool" where
  "has_role d r = (\<exists>c \<in> set (obj_checks d). check_role c = r)"

definition mode_diagnostics :: "objective_definition \<Rightarrow> diagnostic list" where
  "mode_diagnostics d =
     (case obj_mode d of
        Converge \<Rightarrow> if \<not> has_role d Goal then [new_diagnostic ''mode'' ConvergeWithoutGoal] else []
      | Loop plateau \<Rightarrow>
          (if \<not> has_role d Ratchet then [new_diagnostic ''mode'' LoopWithoutRatchet] else [])
          @ (if plateau = 0 then [new_diagnostic ''mode.plateau'' ZeroPlateau] else []))"

fun constraint_diagnostics :: "nat \<Rightarrow> string list \<Rightarrow> diagnostic list" where
  "constraint_diagnostics i [] = []"
| "constraint_diagnostics i (s # ss) =
     (if trim_is_empty s then [new_diagnostic (''constraints.'' @ show_nat i) EmptyConstraint] else [])
     @ constraint_diagnostics (Suc i) ss"

definition budget_diagnostics :: "budget \<Rightarrow> diagnostic list" where
  "budget_diagnostics b =
     (if budget_turns b = 0 then [new_diagnostic ''budget.turns'' (ZeroBudget Turns)] else [])
     @ (if budget_tokens b = 0 then [new_diagnostic ''budget.tokens'' (ZeroBudget Tokens)] else [])
     @ (if budget_wall_secs b = 0 then [new_diagnostic ''budget.wall_secs'' (ZeroBudget WallSecs)] else [])"

definition definition_validate :: "objective_definition \<Rightarrow> diagnostic list" where
  "definition_validate d =
     (if trim_is_empty (obj_key d) then [new_diagnostic ''key'' EmptyKey] else [])
     @ (if trim_is_empty (obj_title d) then [new_diagnostic ''title'' EmptyTitle] else [])
     @ (if obj_checks d = [] then [new_diagnostic ''checks'' NoChecks] else [])
     @ check_diagnostics {} (obj_checks d)
     @ mode_diagnostics d
     @ constraint_diagnostics 0 (obj_constraints d)
     @ budget_diagnostics (obj_budget d)"

section \<open>The standard\<close>

type_synonym byte = "8 word"

record canonical =
  canon_version :: u32
  canon_key :: string
  canon_mode :: mode
  canon_checks :: "check_definition list"
  canon_constraints :: "string list"

definition canonical_of :: "objective_definition \<Rightarrow> canonical" where
  "canonical_of d =
     \<lparr>canon_version = 1, canon_key = obj_key d, canon_mode = obj_mode d,
      canon_checks = obj_checks d, canon_constraints = obj_constraints d\<rparr>"

definition hex_digit :: "nat \<Rightarrow> char" where
  "hex_digit n = (if n < 10 then char_of (48 + n) else char_of (87 + n))"

definition hex_byte :: "byte \<Rightarrow> string" where
  "hex_byte b = [hex_digit (unat b div 16), hex_digit (unat b mod 16)]"

type_synonym digest = "canonical \<Rightarrow> byte list"

definition standard_hash :: "digest \<Rightarrow> objective_definition \<Rightarrow> string" where
  "standard_hash digest d = ''sha256:'' @ concat (map hex_byte (digest (canonical_of d)))"

record approval =
  approved_hash :: string
  approver :: string

definition is_valid_for :: "digest \<Rightarrow> approval \<Rightarrow> objective_definition \<Rightarrow> bool" where
  "is_valid_for digest a d \<longleftrightarrow> approved_hash a = standard_hash digest d"

section \<open>What validation establishes\<close>

lemma check_diagnostics_Nil:
  "check_diagnostics seen cs = [] \<longleftrightarrow>
     (\<forall>c \<in> set cs. \<not> trim_is_empty (check_id c) \<and> config_validate (check_cfg c) = []) \<and>
     distinct (map check_id cs) \<and> seen \<inter> check_id ` set cs = {}"
  by (induction cs arbitrary: seen) (auto simp: Let_def)

lemma constraint_diagnostics_Nil:
  "constraint_diagnostics i ss = [] \<longleftrightarrow> (\<forall>s \<in> set ss. \<not> trim_is_empty s)"
  by (induction ss arbitrary: i) auto

lemma valid_checks_distinct: "definition_validate d = [] \<Longrightarrow> distinct (map check_id (obj_checks d))"
  by (auto simp: definition_validate_def check_diagnostics_Nil)

lemma valid_check_config:
  "definition_validate d = [] \<Longrightarrow> c \<in> set (obj_checks d) \<Longrightarrow> config_validate (check_cfg c) = []"
  by (auto simp: definition_validate_def check_diagnostics_Nil)

lemma valid_checks_nonempty: "definition_validate d = [] \<Longrightarrow> obj_checks d \<noteq> []"
  by (auto simp: definition_validate_def)

lemma definition_check_mem:
  "definition_validate d = [] \<Longrightarrow> c \<in> set (obj_checks d) \<Longrightarrow> definition_check d (check_id c) = Some c"
  unfolding definition_check_def by (rule find_distinct_key) (rule valid_checks_distinct)

lemma definition_check_SomeD:
  "definition_check d i = Some c \<Longrightarrow> c \<in> set (obj_checks d) \<and> check_id c = i"
  by (auto simp: definition_check_def dest: find_SomeD)

text \<open>A valid check takes at least one sample: an evaluation never waits for nothing.\<close>

lemma valid_samples_pos:
  "definition_validate d = [] \<Longrightarrow> c \<in> set (obj_checks d) \<Longrightarrow> 0 < unat (config_samples (check_cfg c))"
  using valid_check_config [of d c]
  by (cases "check_cfg c") (auto simp: evaluator_validate_def unat_gt_0 split: if_splits)

section \<open>Hexadecimal text\<close>

lemma hex_digit_inj: "a < 16 \<Longrightarrow> b < 16 \<Longrightarrow> hex_digit a = hex_digit b \<longleftrightarrow> a = b"
  by (auto simp: hex_digit_def char_of_eq_iff take_bit_nat_eq_self split: if_splits)

lemma hex_byte_inj: "hex_byte a = hex_byte b \<longleftrightarrow> a = b"
proof
  assume eq: "hex_byte a = hex_byte b"
  have bound: "unat c < 256" for c :: byte
    using unsigned_less [where ?'a = nat, of c] by simp
  have "unat a div 16 < 16" "unat b div 16 < 16" using bound [of a] bound [of b] by simp_all
  with eq have "unat a div 16 = unat b div 16" and "unat a mod 16 = unat b mod 16"
    by (simp_all add: hex_byte_def hex_digit_inj)
  then have "unat a = unat b" by (metis div_mult_mod_eq)
  then show "a = b" by (rule unsigned_word_eqI)
qed simp

lemma hex_text_inj: "concat (map hex_byte as) = concat (map hex_byte bs) \<longleftrightarrow> as = bs"
proof (induction as arbitrary: bs)
  case Nil
  then show ?case by (cases bs) (auto simp: hex_byte_def)
next
  case (Cons a as)
  show ?case
  proof (cases bs)
    case (Cons b bs')
    have "length (hex_byte a) = length (hex_byte b)" by (simp add: hex_byte_def)
    then show ?thesis using Cons Cons.IH by (auto simp: hex_byte_inj)
  qed (simp add: hex_byte_def)
qed

lemma standard_hash_eq:
  "standard_hash digest d = standard_hash digest e \<longleftrightarrow> digest (canonical_of d) = digest (canonical_of e)"
  by (simp add: standard_hash_def hex_text_inj)

text \<open>Title, budget and compact policy are no part of the standard.\<close>

lemma standard_hash_frame [simp]:
  "standard_hash digest (d\<lparr>obj_title := t\<rparr>) = standard_hash digest d"
  "standard_hash digest (d\<lparr>obj_budget := b\<rparr>) = standard_hash digest d"
  "standard_hash digest (d\<lparr>obj_compact := p\<rparr>) = standard_hash digest d"
  by (simp_all add: standard_hash_def canonical_of_def)

end
