(* ===== verification/Objective_Verdict.thy ===== *)
theory Objective_Verdict
  imports Objective_Definition
begin

text \<open>
  Verdicts (crates/objective/src/verdict.rs): whether a candidate's results may be kept, judged
  against the results of the baseline, and the ledger of settled evaluations (ledger.rs).
\<close>

section \<open>Verdicts\<close>

type_synonym results = "(string, check_output) btree"

datatype verdict_kind = VRegression | VDiscard | VKeepable | VDone

datatype finding = Compared comparison | NoBaseline comparison | Missing | FKindMismatch

fun finding_comparison :: "finding \<Rightarrow> comparison option" where
  "finding_comparison (Compared c) = Some c"
| "finding_comparison (NoBaseline c) = Some c"
| "finding_comparison Missing = None"
| "finding_comparison FKindMismatch = None"

definition finding_passed :: "finding \<Rightarrow> bool" where
  "finding_passed f = (case finding_comparison f of None \<Rightarrow> False | Some c \<Rightarrow> cmp_passed c)"

fun finding_trend :: "finding \<Rightarrow> trend option" where
  "finding_trend (Compared c) = Some (cmp_trend c)"
| "finding_trend (NoBaseline _) = None"
| "finding_trend Missing = None"
| "finding_trend FKindMismatch = None"

record check_reason =
  reason_check :: string
  reason_role :: role
  reason_finding :: finding
  reason_regresses :: bool

definition is_open_blocker :: "check_reason \<Rightarrow> bool" where
  "is_open_blocker r \<longleftrightarrow>
     reason_regresses r \<or> (reason_role r = Goal \<and> \<not> finding_passed (reason_finding r))"

record verdict =
  verdict_kind :: verdict_kind
  verdict_reasons :: "check_reason list"

definition refuses_keep :: "verdict \<Rightarrow> bool" where
  "refuses_keep v \<longleftrightarrow> verdict_kind v = VRegression"

definition reasons_improve :: "check_reason list \<Rightarrow> bool" where
  "reasons_improve rs \<longleftrightarrow> (\<exists>r \<in> set rs. finding_trend (reason_finding r) = Some Better)"

definition verdict_improved :: "verdict \<Rightarrow> bool" where
  "verdict_improved v = reasons_improve (verdict_reasons v)"

definition open_blockers :: "verdict \<Rightarrow> check_reason list" where
  "open_blockers v = filter is_open_blocker (verdict_reasons v)"

definition check_finding :: "check_definition \<Rightarrow> results \<Rightarrow> results \<Rightarrow> finding" where
  "check_finding c base cand =
     (case bt_get cand (check_id c) of
        None \<Rightarrow> Missing
      | Some out \<Rightarrow>
          (let compared =
             (case bt_get base (check_id c) of
                Some b \<Rightarrow> map_sum id Compared (config_compare (check_cfg c) b out)
              | None \<Rightarrow> map_sum id NoBaseline (config_compare (check_cfg c) out out))
           in case compared of Inr f \<Rightarrow> f | Inl _ \<Rightarrow> FKindMismatch))"

fun regresses :: "role \<Rightarrow> finding \<Rightarrow> bool" where
  "regresses Invariant f = (\<not> finding_passed f)"
| "regresses Ratchet f =
     (case finding_comparison f of
        Some c \<Rightarrow> (case f of Compared _ \<Rightarrow> True | _ \<Rightarrow> False) \<and> cmp_trend c = Worse
      | None \<Rightarrow> True)"
| "regresses Goal f = False"

definition reason_of :: "check_definition \<Rightarrow> results \<Rightarrow> results \<Rightarrow> check_reason" where
  "reason_of c base cand =
     (let f = check_finding c base cand
      in \<lparr>reason_check = check_id c, reason_role = check_role c,
          reason_finding = f, reason_regresses = regresses (check_role c) f\<rparr>)"

definition goals_pass :: "check_reason list \<Rightarrow> bool" where
  "goals_pass rs =
     (let goals = filter (\<lambda>r. reason_role r = Goal) rs
      in goals \<noteq> [] \<and> list_all (\<lambda>r. finding_passed (reason_finding r)) goals)"

definition keepable :: "objective_definition \<Rightarrow> results \<Rightarrow> results \<Rightarrow> verdict" where
  "keepable d base cand =
     (let rs = map (\<lambda>c. reason_of c base cand) (obj_checks d);
          comparable = (\<exists>r \<in> set rs. finding_trend (reason_finding r) \<noteq> None);
          improved = reasons_improve rs;
          kind = (if \<exists>r \<in> set rs. reason_regresses r then VRegression
                  else case obj_mode d of
                         Converge \<Rightarrow> if goals_pass rs then VDone else VKeepable
                       | Loop _ \<Rightarrow> if comparable \<and> \<not> improved then VDiscard else VKeepable)
      in \<lparr>verdict_kind = kind, verdict_reasons = rs\<rparr>)"

section \<open>The ledger\<close>

record baseline =
  base_revision :: string
  base_results :: results

datatype decision = DKeep | DDiscard | DDone

record ledger_entry =
  entry_revision :: string
  entry_results :: results
  entry_decision :: decision
  entry_note :: string

datatype settle_error = RegressionRefused | NotDone

record ledger =
  ledger_baseline :: "baseline option"
  ledger_entries :: "ledger_entry list"
  ledger_plateau :: u32

definition empty_ledger :: ledger where
  "empty_ledger = \<lparr>ledger_baseline = None, ledger_entries = [], ledger_plateau = 0\<rparr>"

definition baseline_results :: "ledger \<Rightarrow> results option" where
  "baseline_results l = map_option base_results (ledger_baseline l)"

definition comparable_check :: "objective_definition \<Rightarrow> objective_definition \<Rightarrow> string \<Rightarrow> bool" where
  "comparable_check previous nxt i =
     (case (definition_check previous i, definition_check nxt i) of
        (Some before, Some after) \<Rightarrow> config_eq (check_cfg before) (check_cfg after)
      | _ \<Rightarrow> False)"

definition retain_comparable ::
  "objective_definition \<Rightarrow> objective_definition \<Rightarrow> ledger \<Rightarrow> ledger" where
  "retain_comparable previous nxt l =
     (case ledger_baseline l of
        None \<Rightarrow> l
      | Some b \<Rightarrow> l\<lparr>ledger_baseline := Some (b\<lparr>base_results :=
            bt_retain (\<lambda>i _. comparable_check previous nxt i) (base_results b)\<rparr>)\<rparr>)"

definition ledger_settle ::
  "ledger \<Rightarrow> ledger_entry \<Rightarrow> verdict \<Rightarrow> (ledger, settle_error) result" where
  "ledger_settle l e v =
     (if entry_decision e \<noteq> DDiscard \<and> refuses_keep v then Inl RegressionRefused
      else if entry_decision e = DDone \<and> verdict_kind v \<noteq> VDone then Inl NotDone
      else let adopts = (entry_decision e \<noteq> DDiscard);
               progressed = (adopts \<and> (ledger_baseline l = None \<or> verdict_improved v))
           in Inr \<lparr>ledger_baseline =
                     (if adopts
                      then Some \<lparr>base_revision = entry_revision e, base_results = entry_results e\<rparr>
                      else ledger_baseline l),
                   ledger_entries = ledger_entries l @ [e],
                   ledger_plateau = (if progressed then 0 else ledger_plateau l + 1)\<rparr>)"

definition plateau_reached :: "ledger \<Rightarrow> mode \<Rightarrow> bool" where
  "plateau_reached l m =
     (case m of Loop plateau \<Rightarrow> plateau \<le> ledger_plateau l | Converge \<Rightarrow> False)"

section \<open>What a verdict says\<close>

text \<open>A verdict depends on the checks and the mode only.\<close>

lemma keepable_cong:
  "obj_checks d = obj_checks e \<Longrightarrow> obj_mode d = obj_mode e \<Longrightarrow> keepable d = keepable e"
  by (intro ext) (simp only: keepable_def)

lemma keepable_reasons [simp]:
  "verdict_reasons (keepable d base cand) = map (\<lambda>c. reason_of c base cand) (obj_checks d)"
  by (simp add: keepable_def Let_def)

lemma reason_of_fields [simp]:
  "reason_check (reason_of c base cand) = check_id c"
  "reason_role (reason_of c base cand) = check_role c"
  "reason_finding (reason_of c base cand) = check_finding c base cand"
  "reason_regresses (reason_of c base cand) = regresses (check_role c) (check_finding c base cand)"
  by (simp_all add: reason_of_def Let_def)

lemma keepable_regression:
  "verdict_kind (keepable d base cand) = VRegression \<longleftrightarrow>
     (\<exists>c \<in> set (obj_checks d). regresses (check_role c) (check_finding c base cand))"
  by (auto simp: keepable_def Let_def split: mode.splits if_splits)

text \<open>Results that fit a definition: one output of the right kind for every check, and no other.\<close>

definition results_match :: "objective_definition \<Rightarrow> results \<Rightarrow> bool" where
  "results_match d res \<longleftrightarrow>
     bt_wf res \<and>
     list_all (\<lambda>c. case bt_get res (check_id c) of
                    None \<Rightarrow> False | Some out \<Rightarrow> config_produces (check_cfg c) out) (obj_checks d) \<and>
     list_all (\<lambda>e. definition_check d (fst e) \<noteq> None) res"

text \<open>Results a definition can be compared with: every output belongs to a check of the same kind.\<close>

definition results_fit :: "objective_definition \<Rightarrow> results \<Rightarrow> bool" where
  "results_fit d res \<longleftrightarrow>
     bt_wf res \<and>
     list_all (\<lambda>e. case definition_check d (fst e) of
                    None \<Rightarrow> False | Some c \<Rightarrow> config_produces (check_cfg c) (snd e)) res"

lemma results_fit_Nil [simp]: "results_fit d []"
  by (simp add: results_fit_def)

lemma results_fitD:
  "results_fit d res \<Longrightarrow> bt_get res i = Some out \<Longrightarrow>
     \<exists>c. definition_check d i = Some c \<and> config_produces (check_cfg c) out"
  by (auto simp: results_fit_def list_all_iff bt_get_entries [symmetric] split: option.splits)

lemma results_fitI:
  assumes "bt_wf res" and "\<And>i out. bt_get res i = Some out \<Longrightarrow>
      \<exists>c. definition_check d i = Some c \<and> config_produces (check_cfg c) out"
  shows "results_fit d res"
  using assms by (force simp: results_fit_def list_all_iff bt_get_entries [symmetric])

lemma results_match_get:
  "results_match d res \<Longrightarrow> c \<in> set (obj_checks d) \<Longrightarrow>
     \<exists>out. bt_get res (check_id c) = Some out \<and> config_produces (check_cfg c) out"
  by (force simp: results_match_def list_all_iff split: option.splits)

lemma results_match_fit:
  assumes "results_match d res" shows "results_fit d res"
proof (rule results_fitI)
  show "bt_wf res" using assms by (simp add: results_match_def)
  fix i out assume i: "bt_get res i = Some out"
  with assms obtain c where c: "definition_check d i = Some c"
    by (force simp: results_match_def list_all_iff bt_get_entries [symmetric])
  with results_match_get [OF assms] i definition_check_SomeD [OF c]
  show "\<exists>c. definition_check d i = Some c \<and> config_produces (check_cfg c) out" by force
qed

lemma results_cong:
  assumes "obj_checks d = obj_checks e"
  shows "results_match d = results_match e" and "results_fit d = results_fit e"
  using assms by (simp_all add: results_match_def results_fit_def definition_check_def fun_eq_iff)

text \<open>
  When the candidate's results match the definition and the baseline's fit it, every check is
  compared: with the baseline where it has a result, with itself otherwise.
\<close>

lemma check_finding_match:
  assumes "definition_validate d = []" "results_match d cand" "results_fit d base"
    and "c \<in> set (obj_checks d)"
  shows "(\<exists>r. check_finding c base cand = Compared r) \<and> bt_get base (check_id c) \<noteq> None \<or>
         (\<exists>r. check_finding c base cand = NoBaseline r) \<and> bt_get base (check_id c) = None"
proof -
  obtain out where out: "bt_get cand (check_id c) = Some out" "config_produces (check_cfg c) out"
    using results_match_get assms(2,4) by blast
  have self: "definition_check d (check_id c) = Some c"
    using assms(1,4) by (rule definition_check_mem)
  show ?thesis
  proof (cases "bt_get base (check_id c)")
    case None
    with out config_compare_produces [OF out(2) out(2)] show ?thesis by (auto simp: check_finding_def)
  next
    case (Some b)
    with results_fitD [OF assms(3)] self have "config_produces (check_cfg c) b" by force
    with Some out config_compare_produces show ?thesis by (force simp: check_finding_def)
  qed
qed

text \<open>Results retained through a redefinition fit the new definition.\<close>

lemma retain_comparable_fit:
  assumes "\<And>r. baseline_results l = Some r \<Longrightarrow> results_fit d r"
    and "baseline_results (retain_comparable d e l) = Some r"
  shows "results_fit e r"
proof -
  from assms(2) obtain b where b: "ledger_baseline l = Some b"
    and r: "r = bt_retain (\<lambda>i _. comparable_check d e i) (base_results b)"
    by (auto simp: retain_comparable_def baseline_results_def split: option.splits)
  then have fit: "results_fit d (base_results b)" using assms(1) by (simp add: baseline_results_def)
  then have wf: "bt_wf (base_results b)" by (simp add: results_fit_def)
  show ?thesis
  proof (rule results_fitI)
    show "bt_wf r" using wf r by simp
    fix i out assume "bt_get r i = Some out"
    with r wf have g: "bt_get (base_results b) i = Some out" and cc: "comparable_check d e i"
      by (auto simp: bt_get_retain split: option.splits if_splits)
    from results_fitD [OF fit g] cc config_eq_produces
    show "\<exists>c. definition_check e i = Some c \<and> config_produces (check_cfg c) out"
      by (fastforce simp: comparable_check_def split: option.splits)
  qed
qed

text \<open>Settling: when it succeeds, and what becomes the baseline.\<close>

lemma ledger_settle_Inr:
  "ledger_settle l e v = Inr l' \<longleftrightarrow>
     (entry_decision e = DDiscard \<or> \<not> refuses_keep v) \<and>
     (entry_decision e = DDone \<longrightarrow> verdict_kind v = VDone) \<and>
     l' = \<lparr>ledger_baseline = (if entry_decision e = DDiscard then ledger_baseline l
             else Some \<lparr>base_revision = entry_revision e, base_results = entry_results e\<rparr>),
           ledger_entries = ledger_entries l @ [e],
           ledger_plateau = (if entry_decision e \<noteq> DDiscard \<and>
                                (ledger_baseline l = None \<or> verdict_improved v)
                             then 0 else ledger_plateau l + 1)\<rparr>"
  by (auto simp: ledger_settle_def Let_def)

end
