(* ===== verification/Objective_Command.thy ===== *)
theory Objective_Command
  imports Objective_Verdict
begin

text \<open>
  Commands the engine asks its host to execute, when the host may execute them, and the brief that
  survives a compaction (crates/objective/src/command.rs). The trait \<open>Command\<close> is the locale
  \<open>session_command\<close>; \<open>Compact\<close>, the only command there is, interprets it.
\<close>

datatype authority = OwnSession | Workspace | External

definition requires_user_approval :: "authority \<Rightarrow> bool" where
  "requires_user_approval a \<longleftrightarrow> a = External"

record host_state =
  host_idle :: bool
  host_queue_len :: u32

datatype defer_reason = HostBusy | QueueNotEmpty

datatype refuse_reason = UserApprovalRequired

datatype admission = AReady | ADefer defer_reason | ARefuse refuse_reason

definition admit ::
  "authority \<Rightarrow> ('c \<Rightarrow> host_state \<Rightarrow> admission) \<Rightarrow> 'c \<Rightarrow> host_state \<Rightarrow> bool \<Rightarrow> admission" where
  "admit auth admission cmd host user_approved =
     (if requires_user_approval auth \<and> \<not> user_approved then ARefuse UserApprovalRequired
      else admission cmd host)"

record entry_brief =
  eb_revision :: string
  eb_decision :: decision
  eb_note :: string

record objective_brief =
  ob_key :: string
  ob_title :: string
  ob_standard_hash :: string
  ob_mode :: mode
  ob_checks :: "check_definition list"
  ob_constraints :: "string list"
  ob_baseline :: "string option"
  ob_ledger :: "entry_brief list"
  ob_open_blockers :: "string list"

definition objective_brief_new ::
  "digest \<Rightarrow> objective_definition \<Rightarrow> ledger \<Rightarrow> verdict option \<Rightarrow> objective_brief" where
  "objective_brief_new digest d l latest =
     \<lparr>ob_key = obj_key d, ob_title = obj_title d, ob_standard_hash = standard_hash digest d,
      ob_mode = obj_mode d, ob_checks = obj_checks d, ob_constraints = obj_constraints d,
      ob_baseline = map_option base_revision (ledger_baseline l),
      ob_ledger = map (\<lambda>e. \<lparr>eb_revision = entry_revision e, eb_decision = entry_decision e,
                             eb_note = entry_note e\<rparr>) (ledger_entries l),
      ob_open_blockers =
        (case latest of None \<Rightarrow> [] | Some v \<Rightarrow> map reason_check (open_blockers v))\<rparr>"

record compact_brief =
  brief_objectives :: "objective_brief list"

record compact =
  compact_sequence :: u64
  compact_payload :: compact_brief

definition compact_authority :: authority where
  "compact_authority = OwnSession"

definition compact_admission :: "compact \<Rightarrow> host_state \<Rightarrow> admission" where
  "compact_admission c host =
     (if \<not> host_idle host then ADefer HostBusy
      else if 0 < host_queue_len host then ADefer QueueNotEmpty
      else AReady)"

definition compact_idempotency_key :: "compact \<Rightarrow> string" where
  "compact_idempotency_key c = ''compact:'' @ show_nat (unat (compact_sequence c))"

datatype command_call = CompactCall compact

fun call_name :: "command_call \<Rightarrow> string" where
  "call_name (CompactCall _) = ''compact''"

fun call_authority :: "command_call \<Rightarrow> authority" where
  "call_authority (CompactCall _) = compact_authority"

fun call_idempotency_key :: "command_call \<Rightarrow> string" where
  "call_idempotency_key (CompactCall c) = compact_idempotency_key c"

section \<open>The contract of a command\<close>

text \<open>
  A command is admitted only on an idle host with an empty queue, and its idempotency key names its
  position: two commands with one key are the same position in the session.
\<close>

locale session_command =
  fixes auth :: authority
    and admission :: "'c \<Rightarrow> host_state \<Rightarrow> admission"
    and key :: "'c \<Rightarrow> string"
    and position :: "'c \<Rightarrow> u64"
  assumes ready_iff: "admission c host = AReady \<longleftrightarrow> host_idle host \<and> host_queue_len host = 0"
    and key_position: "key c = key d \<longleftrightarrow> position c = position d"
begin

lemma admit_ready_iff:
  "admit auth admission c host approved = AReady \<longleftrightarrow>
     (requires_user_approval auth \<longrightarrow> approved) \<and> host_idle host \<and> host_queue_len host = 0"
  by (auto simp: admit_def ready_iff)

lemma distinct_positions_distinct_keys: "distinct (map position cs) \<longleftrightarrow> distinct (map key cs)"
  by (induction cs) (auto simp: image_iff key_position)

end

interpretation compact_cmd: session_command compact_authority compact_admission
  compact_idempotency_key compact_sequence
proof
  fix c d :: compact and host
  show "compact_admission c host = AReady \<longleftrightarrow> host_idle host \<and> host_queue_len host = 0"
    by (auto simp: compact_admission_def word_gt_0)
  show "compact_idempotency_key c = compact_idempotency_key d \<longleftrightarrow> compact_sequence c = compact_sequence d"
    by (auto simp: compact_idempotency_key_def dest: show_nat_inj intro: unsigned_word_eqI)
qed

end
