(* ===== verification/Event_Machine.thy ===== *)
theory Event_Machine
  imports Calm_Prelude
begin

text \<open>
  Deterministic event machines: a component whose only input is a log of events and whose step
  returns the next state and a list of outputs. The locale \<open>event_machine\<close> is the contract of a
  step that keeps an invariant; \<open>evolving_machine\<close> adds a preorder every step follows;
  \<open>numbered_machine\<close> is a machine that numbers some of its outputs from a counter of its state.
  Their lemmas lift a fact about one step to every log.
\<close>

fun run_log :: "('s \<Rightarrow> 'e \<Rightarrow> 's \<times> 'o list) \<Rightarrow> 's \<Rightarrow> 'e list \<Rightarrow> 's \<times> 'o list" where
  "run_log step s [] = (s, [])"
| "run_log step s (e # es) =
     (case step s e of
        (s', os) \<Rightarrow> (case run_log step s' es of (s'', os') \<Rightarrow> (s'', os @ os')))"

lemma run_log_Cons:
  "fst (run_log step s (e # es)) = fst (run_log step (fst (step s e)) es)"
  "snd (run_log step s (e # es)) = snd (step s e) @ snd (run_log step (fst (step s e)) es)"
  by (simp_all split: prod.split)

lemma run_log_append:
  "fst (run_log step s (es @ fs)) = fst (run_log step (fst (run_log step s es)) fs)"
  "snd (run_log step s (es @ fs)) =
     snd (run_log step s es) @ snd (run_log step (fst (run_log step s es)) fs)"
  by (induction es arbitrary: s) (simp_all add: run_log_Cons del: run_log.simps(2))

locale event_machine =
  fixes step :: "'s \<Rightarrow> 'e \<Rightarrow> 's \<times> 'o list"
    and inv :: "'s \<Rightarrow> bool"
    and ok :: "'e \<Rightarrow> bool"
  assumes step_inv: "inv s \<Longrightarrow> ok e \<Longrightarrow> inv (fst (step s e))"
begin

lemma run_inv: "inv s \<Longrightarrow> list_all ok es \<Longrightarrow> inv (fst (run_log step s es))"
  by (induction es arbitrary: s) (simp_all add: run_log_Cons step_inv del: run_log.simps(2))

text \<open>Every output of a log is an output of one step from a state that satisfies the invariant.\<close>

lemma run_output:
  assumes "inv s" "list_all ok es" "out \<in> set (snd (run_log step s es))"
  shows "\<exists>xs e ys. es = xs @ e # ys \<and> inv (fst (run_log step s xs)) \<and>
           out \<in> set (snd (step (fst (run_log step s xs)) e))"
  using assms
proof (induction es arbitrary: s)
  case (Cons e es)
  show ?case
  proof (cases "out \<in> set (snd (step s e))")
    case True
    with Cons.prems show ?thesis by (intro exI [of _ "[]"] exI [of _ e] exI [of _ es]) simp
  next
    case False
    then obtain xs f ys where "es = xs @ f # ys" "inv (fst (run_log step (fst (step s e)) xs))"
      "out \<in> set (snd (step (fst (run_log step (fst (step s e)) xs)) f))"
      using Cons.IH [of "fst (step s e)"] Cons.prems
      by (auto simp: run_log_Cons step_inv simp del: run_log.simps(2))
    then show ?thesis
      by (intro exI [of _ "e # xs"] exI [of _ f] exI [of _ ys])
        (simp add: run_log_Cons del: run_log.simps(2))
  qed
qed simp

end

locale evolving_machine = event_machine +
  fixes rel :: "'s \<Rightarrow> 's \<Rightarrow> bool"
  assumes rel_refl: "rel s s"
    and rel_trans: "rel s t \<Longrightarrow> rel t u \<Longrightarrow> rel s u"
    and step_rel: "inv s \<Longrightarrow> ok e \<Longrightarrow> rel s (fst (step s e))"
begin

lemma run_rel: "inv s \<Longrightarrow> list_all ok es \<Longrightarrow> rel s (fst (run_log step s es))"
proof (induction es arbitrary: s)
  case (Cons e es)
  then have "rel (fst (step s e)) (fst (run_log step (fst (step s e)) es))"
    by (simp add: step_inv)
  with Cons.prems show ?case
    by (auto simp: run_log_Cons simp del: run_log.simps(2) intro: rel_trans step_rel)
qed (simp add: rel_refl)

end

lemma map_filter_append: "List.map_filter f (xs @ ys) = List.map_filter f xs @ List.map_filter f ys"
  by (induction xs) (simp_all add: map_filter_simps split: option.split)

locale numbered_machine =
  fixes step :: "'s \<Rightarrow> 'e \<Rightarrow> 's \<times> 'o list"
    and counter :: "'s \<Rightarrow> 'w::len word"
    and number :: "'o \<Rightarrow> 'w word option"
  assumes step_numbers: "\<exists>n. List.map_filter number (snd (step s e)) =
        map (\<lambda>i. counter s + word_of_nat i) [0..<n] \<and>
      counter (fst (step s e)) = counter s + word_of_nat n"
begin

lemma run_numbers:
  "\<exists>n. List.map_filter number (snd (run_log step s es)) =
        map (\<lambda>i. counter s + word_of_nat i) [0..<n] \<and>
      counter (fst (run_log step s es)) = counter s + word_of_nat n"
proof (induction es arbitrary: s)
  case (Cons e es)
  obtain m where m: "List.map_filter number (snd (step s e)) =
      map (\<lambda>i. counter s + word_of_nat i) [0..<m]"
    "counter (fst (step s e)) = counter s + word_of_nat m"
    using step_numbers by blast
  obtain n where n: "List.map_filter number (snd (run_log step (fst (step s e)) es)) =
      map (\<lambda>i. counter (fst (step s e)) + word_of_nat i) [0..<n]"
    "counter (fst (run_log step (fst (step s e)) es)) = counter (fst (step s e)) + word_of_nat n"
    using Cons.IH by blast
  have shift: "map (\<lambda>i. counter s + word_of_nat m + word_of_nat i) [0..<n] =
      map (\<lambda>i. counter s + word_of_nat i) [m..<m + n]"
    unfolding map_add_upt [of m n, symmetric, unfolded add.commute [of n m]]
    by (simp add: ac_simps)
  have "map f [0..<m + n] = map f [0..<m] @ map f [m..<m + n]" for f :: "nat \<Rightarrow> 'w word"
    by (simp add: upt_add_eq_append [of 0 m n])
  then show ?case using m n shift
    by (intro exI [of _ "m + n"])
      (simp add: run_log_Cons map_filter_append ac_simps del: run_log.simps(2))
qed (simp add: map_filter_simps)

text \<open>Numbers are consecutive, so they repeat only after the counter's whole range.\<close>

lemma run_numbers_distinct:
  assumes "length (List.map_filter number (snd (run_log step s es))) \<le> 2 ^ LENGTH('w)"
  shows "distinct (List.map_filter number (snd (run_log step s es)))"
proof -
  obtain n where eq: "List.map_filter number (snd (run_log step s es)) =
      map (\<lambda>i. counter s + word_of_nat i) [0..<n]"
    using run_numbers by blast
  with assms have "n \<le> 2 ^ LENGTH('w)" by simp
  then have "inj_on (\<lambda>i. counter s + word_of_nat i) {0..<n}"
    by (auto simp: inj_on_def word_of_nat_eq_iff take_bit_nat_eq_self)
  with eq show ?thesis by (simp add: distinct_map)
qed

end

end
