(* ===== verification/Objective_Engine.thy ===== *)
theory Objective_Engine
  imports Objective_Command Event_Machine
begin

text \<open>
  The objective engine (crates/objective/src/engine, trigger.rs): state, events, intents, the
  reducer \<open>apply_event\<close> (reduce.rs), the trigger rules \<open>fire\<close> (trigger.rs) and their composition
  \<open>react\<close> (engine/mod.rs). Every function of the reducer takes the state and returns the next one
  with the occurrences it reports; \<open>fire\<close> threads the state through the occurrences in order.
  Counters are machine words: \<open>+ 1\<close> wraps as it does in a release build.
\<close>

section \<open>State, events, intents\<close>

type_synonym evaluation_id = u64

datatype evaluation =
    Running evaluation_id string "(string, (u32, sample_output) btree) btree"
  | Ready evaluation_id string results verdict

fun evaluation_revision :: "evaluation \<Rightarrow> string" where
  "evaluation_revision (Running _ r _) = r"
| "evaluation_revision (Ready _ r _ _) = r"

fun evaluation_ident :: "evaluation \<Rightarrow> evaluation_id" where
  "evaluation_ident (Running i _ _) = i"
| "evaluation_ident (Ready i _ _ _) = i"

datatype status = StOpen | StDone usage | StClosed usage

record objective_state =
  os_definition :: objective_definition
  os_approval :: "approval option"
  os_ledger :: ledger
  os_evaluation :: "evaluation option"
  os_evaluations :: u64
  os_latest_verdict :: "verdict option"
  os_status :: status
  os_usage_at_start :: usage
  os_budget_notified :: "budget_limit set"

record engine_state =
  objectives :: "(string, objective_state) btree"
  st_usage :: usage
  pending_compact :: bool
  compactions :: u64

definition default_state :: engine_state where
  "default_state = \<lparr>objectives = [], st_usage = zero_usage, pending_compact = False, compactions = 0\<rparr>"

definition used :: "objective_state \<Rightarrow> usage \<Rightarrow> usage" where
  "used ob current =
     (case os_status ob of
        StOpen \<Rightarrow> usage_since current (os_usage_at_start ob)
      | StDone u \<Rightarrow> u
      | StClosed u \<Rightarrow> u)"

definition is_approved :: "digest \<Rightarrow> objective_state \<Rightarrow> bool" where
  "is_approved digest ob =
     (case os_approval ob of None \<Rightarrow> False | Some a \<Rightarrow> is_valid_for digest a (os_definition ob))"

datatype event =
    DefinitionChanged objective_definition
  | ApprovalGranted string approval
  | Requested string string
  | CheckFinished string evaluation_id string string u32 sample_output
  | RevisionDelivered string
  | EvSettled string evaluation_id decision string
  | EvClosed string
  | EvHostIdle u32
  | EvUsage usage

datatype ignore_reason =
    UnknownObjective | NotOpen | StaleApproval | UnknownCheck | StaleResult
  | SampleOutOfRange | DuplicateSample | IgnKindMismatch | NothingToSettle

datatype notice =
    DefinitionRejected string "diagnostic list"
  | ApprovalRequired string string
  | ApprovalInvalidated string
  | EvaluationReady string evaluation_id string verdict_kind
  | SettleRefused string settle_error
  | PlateauReached string
  | ObjectiveDone string
  | BudgetExhausted string budget_limit
  | EventIgnored ignore_reason

datatype intent =
    RunCheck string evaluation_id string string u32
  | Execute command_call
  | Notify notice

datatype occurrence =
    OcNotice notice
  | OcEvaluationStarted string
  | OcSettled string decision
  | OcClosed string
  | OcHostIdle u32
  | OcUsageReported

section \<open>The reducer\<close>

definition ignored :: "ignore_reason \<Rightarrow> occurrence list" where
  "ignored r = [OcNotice (EventIgnored r)]"

definition open_objective ::
  "engine_state \<Rightarrow> string \<Rightarrow> (objective_state, occurrence list) result" where
  "open_objective s k =
     (case bt_get (objectives s) k of
        None \<Rightarrow> Inl (ignored UnknownObjective)
      | Some ob \<Rightarrow> if os_status ob \<noteq> StOpen then Inl (ignored NotOpen) else Inr ob)"

definition put_objective :: "engine_state \<Rightarrow> string \<Rightarrow> objective_state \<Rightarrow> engine_state" where
  "put_objective s k ob = s\<lparr>objectives := bt_insert k ob (objectives s)\<rparr>"

definition approval_required :: "digest \<Rightarrow> objective_definition \<Rightarrow> occurrence" where
  "approval_required digest d = OcNotice (ApprovalRequired (obj_key d) (standard_hash digest d))"

definition new_objective :: "objective_definition \<Rightarrow> usage \<Rightarrow> objective_state" where
  "new_objective d u =
     \<lparr>os_definition = d, os_approval = None, os_ledger = empty_ledger, os_evaluation = None,
      os_evaluations = 0, os_latest_verdict = None, os_status = StOpen, os_usage_at_start = u,
      os_budget_notified = {}\<rparr>"

definition redefine ::
  "digest \<Rightarrow> usage \<Rightarrow> objective_state \<Rightarrow> objective_definition \<Rightarrow> objective_state \<times> occurrence list" where
  "redefine digest u ob d =
     (let standard_changed = (standard_hash digest (os_definition ob) \<noteq> standard_hash digest d);
          previous = os_definition ob;
          ob1 = ob\<lparr>os_definition := d\<rparr>;
          still_exhausted = exhausted (obj_budget d) (used ob1 u);
          ob2 = ob1\<lparr>os_budget_notified :=
                  Set.filter (\<lambda>l. l \<in> set still_exhausted) (os_budget_notified ob1)\<rparr>
      in if \<not> standard_changed then (ob2, [])
         else let was_approved = (os_approval ob2 \<noteq> None)
              in (ob2\<lparr>os_approval := None, os_evaluation := None, os_latest_verdict := None,
                      os_ledger := retain_comparable previous d (os_ledger ob2)\<rparr>,
                  (if was_approved then [OcNotice (ApprovalInvalidated (obj_key d))] else [])
                  @ [approval_required digest d]))"

definition define_objective ::
  "digest \<Rightarrow> engine_state \<Rightarrow> objective_definition \<Rightarrow> engine_state \<times> occurrence list" where
  "define_objective digest s d =
     (let key = obj_key d; diagnostics = definition_validate d
      in if diagnostics \<noteq> [] then (s, [OcNotice (DefinitionRejected key diagnostics)])
         else case bt_get (objectives s) key of
           None \<Rightarrow> (put_objective s key (new_objective d (st_usage s)), [approval_required digest d])
         | Some _ \<Rightarrow>
             (case open_objective s key of
                Inl ign \<Rightarrow> (s, ign)
              | Inr ob \<Rightarrow>
                  (case redefine digest (st_usage s) ob d of
                     (ob', occs) \<Rightarrow> (put_objective s key ob', occs))))"

definition approve ::
  "digest \<Rightarrow> engine_state \<Rightarrow> string \<Rightarrow> approval \<Rightarrow> engine_state \<times> occurrence list" where
  "approve digest s k a =
     (case open_objective s k of
        Inl ign \<Rightarrow> (s, ign)
      | Inr ob \<Rightarrow>
          if \<not> is_valid_for digest a (os_definition ob) then (s, ignored StaleApproval)
          else (put_objective s k (ob\<lparr>os_approval := Some a\<rparr>), []))"

definition start_evaluation :: "objective_state \<Rightarrow> string \<Rightarrow> objective_state \<times> occurrence list" where
  "start_evaluation ob revision =
     (if (case os_evaluation ob of None \<Rightarrow> False | Some e \<Rightarrow> evaluation_revision e = revision)
      then (ob, [])
      else (ob\<lparr>os_evaluations := os_evaluations ob + 1,
               os_evaluation := Some (Running (os_evaluations ob) revision [])\<rparr>,
            [OcEvaluationStarted (obj_key (os_definition ob))]))"

definition request ::
  "digest \<Rightarrow> engine_state \<Rightarrow> string \<Rightarrow> string \<Rightarrow> engine_state \<times> occurrence list" where
  "request digest s k revision =
     (case open_objective s k of
        Inl ign \<Rightarrow> (s, ign)
      | Inr ob \<Rightarrow>
          if \<not> is_approved digest ob then (s, [approval_required digest (os_definition ob)])
          else (case start_evaluation ob revision of
                  (ob', occs) \<Rightarrow> (put_objective s k ob', occs)))"

definition deliver ::
  "digest \<Rightarrow> engine_state \<Rightarrow> string \<Rightarrow> engine_state \<times> occurrence list" where
  "deliver digest s revision =
     (let reached = (\<lambda>ob. os_status ob = StOpen \<and> is_approved digest ob)
      in (s\<lparr>objectives :=
              bt_map (\<lambda>_ ob. if reached ob then fst (start_evaluation ob revision) else ob)
                (objectives s)\<rparr>,
          concat (map (\<lambda>ob. snd (start_evaluation ob revision))
            (filter reached (bt_values (objectives s))))))"

definition received :: "(string, (u32, sample_output) btree) btree \<Rightarrow> string \<Rightarrow> (u32, sample_output) btree" where
  "received smps i = (case bt_get smps i of None \<Rightarrow> [] | Some m \<Rightarrow> m)"

definition samples_complete ::
  "check_definition list \<Rightarrow> (string, (u32, sample_output) btree) btree \<Rightarrow> bool" where
  "samples_complete checks smps =
     list_all (\<lambda>c. length (received smps (check_id c)) = unat (config_samples (check_cfg c))) checks"

definition combined_results ::
  "check_definition list \<Rightarrow> (string, (u32, sample_output) btree) btree \<Rightarrow> results" where
  "combined_results checks smps =
     bt_collect (List.map_filter (\<lambda>c.
        case bt_get smps (check_id c) of
          None \<Rightarrow> None
        | Some m \<Rightarrow> (case config_combine (check_cfg c) (bt_values m) of
                       Inl _ \<Rightarrow> None | Inr out \<Rightarrow> Some (check_id c, out))) checks)"

definition finish ::
  "engine_state \<Rightarrow> string \<Rightarrow> evaluation_id \<Rightarrow> string \<Rightarrow> string \<Rightarrow> u32 \<Rightarrow> sample_output
     \<Rightarrow> engine_state \<times> occurrence list" where
  "finish s k evaluation check revision smp out =
     (case open_objective s k of
        Inl ign \<Rightarrow> (s, ign)
      | Inr ob \<Rightarrow>
         (case os_evaluation ob of
            Some (Running i running smps) \<Rightarrow>
              if i \<noteq> evaluation \<or> running \<noteq> revision then (s, ignored StaleResult)
              else (case definition_check (os_definition ob) check of
                 None \<Rightarrow> (s, ignored UnknownCheck)
               | Some c \<Rightarrow>
                   if config_samples (check_cfg c) \<le> smp then (s, ignored SampleOutOfRange)
                   else if \<not> config_accepts (check_cfg c) out then (s, ignored IgnKindMismatch)
                   else if bt_get (received smps check) smp \<noteq> None then (s, ignored DuplicateSample)
                   else let smps' = bt_insert check (bt_insert smp out (received smps check)) smps;
                            checks = obj_checks (os_definition ob)
                        in if \<not> samples_complete checks smps'
                           then (put_objective s k (ob\<lparr>os_evaluation := Some (Running i running smps')\<rparr>), [])
                           else let results = combined_results checks smps';
                                    base = (case baseline_results (os_ledger ob) of
                                              None \<Rightarrow> [] | Some r \<Rightarrow> r);
                                    v = keepable (os_definition ob) base results
                                in (put_objective s k
                                      (ob\<lparr>os_latest_verdict := Some v,
                                          os_evaluation := Some (Ready i revision results v)\<rparr>),
                                    [OcNotice (EvaluationReady k i revision (verdict_kind v))]))
          | _ \<Rightarrow> (s, ignored StaleResult)))"

definition settle ::
  "engine_state \<Rightarrow> string \<Rightarrow> evaluation_id \<Rightarrow> decision \<Rightarrow> string \<Rightarrow> engine_state \<times> occurrence list" where
  "settle s k evaluation dec note =
     (case open_objective s k of
        Inl ign \<Rightarrow> (s, ign)
      | Inr ob \<Rightarrow>
         (case os_evaluation ob of
            Some (Ready i revision results v) \<Rightarrow>
              if i \<noteq> evaluation then (s, ignored NothingToSettle)
              else (case ledger_settle (os_ledger ob)
                       \<lparr>entry_revision = revision, entry_results = results,
                        entry_decision = dec, entry_note = note\<rparr> v of
                 Inl err \<Rightarrow> (s, [OcNotice (SettleRefused k err)])
               | Inr l \<Rightarrow>
                   let ob1 = ob\<lparr>os_ledger := l, os_evaluation := None\<rparr>;
                       ob2 = (if dec = DDone then ob1\<lparr>os_status := StDone (used ob1 (st_usage s))\<rparr> else ob1)
                   in (put_objective s k ob2, [OcSettled k dec]))
          | _ \<Rightarrow> (s, ignored NothingToSettle)))"

definition close_objective :: "engine_state \<Rightarrow> string \<Rightarrow> engine_state \<times> occurrence list" where
  "close_objective s k =
     (case bt_get (objectives s) k of
        None \<Rightarrow> (s, ignored UnknownObjective)
      | Some ob \<Rightarrow>
         (case os_status ob of
            StClosed _ \<Rightarrow> (s, ignored NotOpen)
          | _ \<Rightarrow> (put_objective s k
                    (ob\<lparr>os_status := StClosed (used ob (st_usage s)), os_evaluation := None\<rparr>),
                  [OcClosed k])))"

fun apply_event :: "digest \<Rightarrow> engine_state \<Rightarrow> event \<Rightarrow> engine_state \<times> occurrence list" where
  "apply_event digest s (DefinitionChanged d) = define_objective digest s d"
| "apply_event digest s (ApprovalGranted k a) = approve digest s k a"
| "apply_event digest s (Requested k r) = request digest s k r"
| "apply_event digest s (CheckFinished k e c r smp out) = finish s k e c r smp out"
| "apply_event digest s (RevisionDelivered r) = deliver digest s r"
| "apply_event digest s (EvSettled k e dec note) = settle s k e dec note"
| "apply_event digest s (EvClosed k) = close_objective s k"
| "apply_event digest s (EvHostIdle n) = (s, [OcHostIdle n])"
| "apply_event digest s (EvUsage u) = (s\<lparr>st_usage := u\<rparr>, [OcUsageReported])"

section \<open>The trigger rules\<close>

definition policy_of :: "engine_state \<Rightarrow> string \<Rightarrow> compact_policy option" where
  "policy_of s k = map_option (\<lambda>ob. obj_compact (os_definition ob)) (bt_get (objectives s) k)"

definition run_checks :: "engine_state \<Rightarrow> string \<Rightarrow> intent list" where
  "run_checks s k =
     (case bt_get (objectives s) k of
        None \<Rightarrow> []
      | Some ob \<Rightarrow>
         (case os_evaluation ob of
            Some (Running i revision _) \<Rightarrow>
              concat (map (\<lambda>c. map (\<lambda>n. RunCheck k i (check_id c) revision (word_of_nat n))
                                 [0..<unat (config_samples (check_cfg c))])
                (obj_checks (os_definition ob)))
          | _ \<Rightarrow> []))"

definition after_settle ::
  "engine_state \<Rightarrow> string \<Rightarrow> decision \<Rightarrow> engine_state \<times> intent list" where
  "after_settle s k dec =
     (case bt_get (objectives s) k of
        None \<Rightarrow> (s, [])
      | Some ob \<Rightarrow>
          (if obj_compact (os_definition ob) = EverySettle then s\<lparr>pending_compact := True\<rparr> else s,
           (if plateau_reached (os_ledger ob) (obj_mode (os_definition ob))
            then [Notify (PlateauReached k)] else [])
           @ (if dec = DDone then [Notify (ObjectiveDone k)] else [])))"

definition compact_when_idle :: "digest \<Rightarrow> engine_state \<Rightarrow> u32 \<Rightarrow> engine_state \<times> intent list" where
  "compact_when_idle digest s n =
     (if \<not> pending_compact s then (s, [])
      else let c = \<lparr>compact_sequence = compactions s,
                    compact_payload = \<lparr>brief_objectives =
                      map (\<lambda>ob. objective_brief_new digest (os_definition ob) (os_ledger ob)
                             (os_latest_verdict ob)) (bt_values (objectives s))\<rparr>\<rparr>;
               host = \<lparr>host_idle = True, host_queue_len = n\<rparr>
           in case admit compact_authority compact_admission c host False of
                AReady \<Rightarrow> (s\<lparr>pending_compact := False, compactions := compactions s + 1\<rparr>,
                           [Execute (CompactCall c)])
              | _ \<Rightarrow> (s, []))"

fun notify_limits ::
  "string \<Rightarrow> budget_limit set \<Rightarrow> budget_limit list \<Rightarrow> budget_limit set \<times> intent list" where
  "notify_limits k notified [] = (notified, [])"
| "notify_limits k notified (l # ls) =
     (if l \<in> notified then notify_limits k notified ls
      else (case notify_limits k (insert l notified) ls of
              (n, is) \<Rightarrow> (n, Notify (BudgetExhausted k l) # is)))"

definition remind_objective :: "usage \<Rightarrow> string \<Rightarrow> objective_state \<Rightarrow> objective_state \<times> intent list" where
  "remind_objective u k ob =
     (if os_status ob \<noteq> StOpen then (ob, [])
      else (case notify_limits k (os_budget_notified ob)
                   (exhausted (obj_budget (os_definition ob)) (used ob u)) of
              (n, is) \<Rightarrow> (ob\<lparr>os_budget_notified := n\<rparr>, is)))"

definition remind_budgets :: "engine_state \<Rightarrow> engine_state \<times> intent list" where
  "remind_budgets s =
     (s\<lparr>objectives := bt_map (\<lambda>k ob. fst (remind_objective (st_usage s) k ob)) (objectives s)\<rparr>,
      concat (map (\<lambda>e. snd (remind_objective (st_usage s) (fst e) (snd e))) (objectives s)))"

fun fire_one :: "digest \<Rightarrow> engine_state \<Rightarrow> occurrence \<Rightarrow> engine_state \<times> intent list" where
  "fire_one digest s (OcNotice n) = (s, [Notify n])"
| "fire_one digest s (OcEvaluationStarted k) = (s, run_checks s k)"
| "fire_one digest s (OcSettled k dec) = after_settle s k dec"
| "fire_one digest s (OcClosed k) =
     (if policy_of s k = Some OnClose then s\<lparr>pending_compact := True\<rparr> else s, [])"
| "fire_one digest s (OcHostIdle n) = compact_when_idle digest s n"
| "fire_one digest s OcUsageReported = remind_budgets s"

fun fire :: "digest \<Rightarrow> engine_state \<Rightarrow> occurrence list \<Rightarrow> engine_state \<times> intent list" where
  "fire digest s [] = (s, [])"
| "fire digest s (oc # ocs) =
     (case fire_one digest s oc of
        (s', is) \<Rightarrow> (case fire digest s' ocs of (s'', is') \<Rightarrow> (s'', is @ is')))"

definition react :: "digest \<Rightarrow> engine_state \<Rightarrow> event \<Rightarrow> engine_state \<times> intent list" where
  "react digest s e = (case apply_event digest s e of (s', ocs) \<Rightarrow> fire digest s' ocs)"

text \<open>A log of events replays to a state and the intents of every reaction, in order.\<close>

definition replay :: "digest \<Rightarrow> engine_state \<Rightarrow> event list \<Rightarrow> engine_state \<times> intent list" where
  "replay digest = run_log (react digest)"

end
