(* ===== verification/Objective_Step.thy ===== *)
theory Objective_Step
  imports Objective_Engine
begin

text \<open>
  What one reaction of the engine can do to one objective, as an inductive relation with a rule
  per operation of the reducer (reduce.rs) and of the trigger rules that writes an objective
  (\<open>remind_budgets\<close>). The lemma \<open>react_evolves\<close> shows that every reaction moves every objective by
  at most one of these steps; facts about objectives are then proved by cases on the relation.

  The parameter \<open>D\<close> is the set of valid definitions in play: those the events of a log define.
\<close>

definition event_ok :: "objective_definition set \<Rightarrow> event \<Rightarrow> bool" where
  "event_ok D e =
     (case e of DefinitionChanged d \<Rightarrow> definition_validate d = [] \<longrightarrow> d \<in> D | _ \<Rightarrow> True)"

definition accepts_sample ::
  "objective_state \<Rightarrow> evaluation_id \<Rightarrow> string \<Rightarrow> (string, (u32, sample_output) btree) btree \<Rightarrow>
     check_definition \<Rightarrow> u32 \<Rightarrow> sample_output \<Rightarrow> bool" where
  "accepts_sample ob i r smps c n out \<longleftrightarrow>
     os_status ob = StOpen \<and> os_evaluation ob = Some (Running i r smps) \<and>
     definition_check (os_definition ob) (check_id c) = Some c \<and>
     n < config_samples (check_cfg c) \<and> config_accepts (check_cfg c) out \<and>
     bt_get (received smps (check_id c)) n = None"

definition add_sample ::
  "string \<Rightarrow> u32 \<Rightarrow> sample_output \<Rightarrow> (string, (u32, sample_output) btree) btree \<Rightarrow>
     (string, (u32, sample_output) btree) btree" where
  "add_sample i n out smps = bt_insert i (bt_insert n out (received smps i)) smps"

definition baseline_or_empty :: "ledger \<Rightarrow> results" where
  "baseline_or_empty l = (case baseline_results l of None \<Rightarrow> [] | Some r \<Rightarrow> r)"

inductive objective_step ::
  "digest \<Rightarrow> objective_definition set \<Rightarrow> usage \<Rightarrow> string \<Rightarrow> objective_state \<Rightarrow> objective_state \<Rightarrow> bool"
  for digest D u k where
  redefined: "os_status ob = StOpen \<Longrightarrow> definition_validate d = [] \<Longrightarrow> d \<in> D \<Longrightarrow> obj_key d = k \<Longrightarrow>
     objective_step digest D u k ob (fst (redefine digest u ob d))"
| approved: "os_status ob = StOpen \<Longrightarrow> is_valid_for digest a (os_definition ob) \<Longrightarrow>
     objective_step digest D u k ob (ob\<lparr>os_approval := Some a\<rparr>)"
| started: "os_status ob = StOpen \<Longrightarrow> is_approved digest ob \<Longrightarrow>
     objective_step digest D u k ob (fst (start_evaluation ob r))"
| sampled: "accepts_sample ob i r smps c n out \<Longrightarrow>
     smps' = add_sample (check_id c) n out smps \<Longrightarrow>
     \<not> samples_complete (obj_checks (os_definition ob)) smps' \<Longrightarrow>
     objective_step digest D u k ob (ob\<lparr>os_evaluation := Some (Running i r smps')\<rparr>)"
| judged: "accepts_sample ob i r smps c n out \<Longrightarrow>
     smps' = add_sample (check_id c) n out smps \<Longrightarrow>
     samples_complete (obj_checks (os_definition ob)) smps' \<Longrightarrow>
     res = combined_results (obj_checks (os_definition ob)) smps' \<Longrightarrow>
     v = keepable (os_definition ob) (baseline_or_empty (os_ledger ob)) res \<Longrightarrow>
     objective_step digest D u k ob
       (ob\<lparr>os_latest_verdict := Some v, os_evaluation := Some (Ready i r res v)\<rparr>)"
| settled: "os_status ob = StOpen \<Longrightarrow> os_evaluation ob = Some (Ready i r res v) \<Longrightarrow>
     ledger_settle (os_ledger ob) \<lparr>entry_revision = r, entry_results = res,
       entry_decision = dec, entry_note = note\<rparr> v = Inr l \<Longrightarrow>
     ob' = ob\<lparr>os_ledger := l, os_evaluation := None\<rparr> \<Longrightarrow>
     objective_step digest D u k ob
       (if dec = DDone then ob'\<lparr>os_status := StDone (used ob' u)\<rparr> else ob')"
| closed: "(\<forall>x. os_status ob \<noteq> StClosed x) \<Longrightarrow>
     objective_step digest D u k ob (ob\<lparr>os_status := StClosed (used ob u), os_evaluation := None\<rparr>)"
| reminded: "objective_step digest D u k ob (fst (remind_objective u k ob))"

text \<open>A reaction keeps every objective, moves each by at most one step, and creates at most new ones.\<close>

definition evolves :: "digest \<Rightarrow> objective_definition set \<Rightarrow> engine_state \<Rightarrow> engine_state \<Rightarrow> bool" where
  "evolves digest D s s' \<longleftrightarrow>
     (\<forall>k. case bt_get (objectives s) k of
            Some ob \<Rightarrow> \<exists>ob'. bt_get (objectives s') k = Some ob' \<and>
              (ob' = ob \<or> objective_step digest D (st_usage s') k ob ob')
          | None \<Rightarrow> bt_get (objectives s') k = None \<or>
              (\<exists>d \<in> D. obj_key d = k \<and> definition_validate d = [] \<and>
                 bt_get (objectives s') k = Some (new_objective d (st_usage s'))))"

lemma evolves_None:
  "evolves digest D s s' \<Longrightarrow> bt_get (objectives s) k = None \<Longrightarrow>
     bt_get (objectives s') k = None \<or>
     (\<exists>d \<in> D. obj_key d = k \<and> definition_validate d = [] \<and>
        bt_get (objectives s') k = Some (new_objective d (st_usage s')))"
  unfolding evolves_def by (drule spec [of _ k]) simp

lemma evolves_Some:
  "evolves digest D s s' \<Longrightarrow> bt_get (objectives s) k = Some ob \<Longrightarrow>
     \<exists>ob'. bt_get (objectives s') k = Some ob' \<and>
       (ob' = ob \<or> objective_step digest D (st_usage s') k ob ob')"
  unfolding evolves_def by (drule spec [of _ k]) simp

lemma evolves_same: "objectives s' = objectives s \<Longrightarrow> evolves digest D s s'"
  by (auto simp: evolves_def split: option.split)

lemma evolves_refl [simp]: "evolves digest D s s"
  by (simp add: evolves_same)

lemma put_objective_simps [simp]:
  "bt_get (objectives (put_objective s k ob)) j =
     (if j = k then Some ob else bt_get (objectives s) j)"
  "st_usage (put_objective s k ob) = st_usage s"
  "pending_compact (put_objective s k ob) = pending_compact s"
  "compactions (put_objective s k ob) = compactions s"
  "bt_wf (objectives s) \<Longrightarrow> bt_wf (objectives (put_objective s k ob))"
  by (simp_all add: put_objective_def)

lemma evolves_put:
  assumes "bt_get (objectives s) k = Some ob" "objective_step digest D (st_usage s) k ob ob'"
  shows "evolves digest D s (put_objective s k ob')"
  using assms by (auto simp: evolves_def split: option.split)

lemma open_objective_Inr:
  "open_objective s k = Inr ob \<longleftrightarrow> bt_get (objectives s) k = Some ob \<and> os_status ob = StOpen"
  by (auto simp: open_objective_def split: option.split)

lemma open_objective_InlD: "open_objective s k = Inl ocs \<Longrightarrow> \<exists>r. ocs = ignored r"
  by (auto simp: open_objective_def split: option.splits if_splits)

lemma define_evolves:
  "event_ok D (DefinitionChanged d) \<Longrightarrow> evolves digest D s (fst (define_objective digest s d))"
proof (cases "definition_validate d = []")
  case True
  assume "event_ok D (DefinitionChanged d)"
  with True have d: "d \<in> D" by (simp add: event_ok_def)
  show ?thesis
  proof (cases "bt_get (objectives s) (obj_key d)")
    case None
    with True d show ?thesis
      by (auto simp: define_objective_def evolves_def split: option.split)
  next
    case (Some ob0)
    show ?thesis
    proof (cases "open_objective s (obj_key d)")
      case (Inr ob)
      then have ob: "bt_get (objectives s) (obj_key d) = Some ob" "os_status ob = StOpen"
        by (simp_all add: open_objective_Inr)
      have "evolves digest D s
          (put_objective s (obj_key d) (fst (redefine digest (st_usage s) ob d)))"
        using ob True d by (auto intro!: evolves_put objective_step.redefined)
      with True Some Inr show ?thesis by (auto simp: define_objective_def split: prod.split)
    qed (use True Some in \<open>simp add: define_objective_def\<close>)
  qed
qed (simp add: define_objective_def)

lemma approve_evolves: "evolves digest D s (fst (approve digest s k a))"
proof (cases "open_objective s k")
  case (Inr ob)
  then have "is_valid_for digest a (os_definition ob) \<Longrightarrow>
      evolves digest D s (put_objective s k (ob\<lparr>os_approval := Some a\<rparr>))"
    by (auto simp: open_objective_Inr intro!: evolves_put objective_step.approved)
  with Inr show ?thesis by (simp add: approve_def)
qed (simp add: approve_def)

lemma request_evolves: "evolves digest D s (fst (request digest s k r))"
proof (cases "open_objective s k")
  case (Inr ob)
  then have "is_approved digest ob \<Longrightarrow>
      evolves digest D s (put_objective s k (fst (start_evaluation ob r)))"
    by (auto simp: open_objective_Inr intro!: evolves_put objective_step.started)
  with Inr show ?thesis by (auto simp: request_def split: prod.split)
qed (simp add: request_def)

lemma deliver_evolves: "evolves digest D s (fst (deliver digest s r))"
  by (auto simp: deliver_def Let_def evolves_def intro: objective_step.started split: option.split)

lemma finish_evolves: "evolves digest D s (fst (finish s k ev c r n out))"
proof (cases "open_objective s k")
  case (Inr ob)
  then have ob: "bt_get (objectives s) k = Some ob" "os_status ob = StOpen"
    by (simp_all add: open_objective_Inr)
  show ?thesis
  proof (cases "\<exists>i r' smps. os_evaluation ob = Some (Running i r' smps)")
    case True
    then obtain i r' smps where e: "os_evaluation ob = Some (Running i r' smps)" by blast
    show ?thesis
    proof (cases "definition_check (os_definition ob) c")
      case (Some cd)
      then have cd: "check_id cd = c" using definition_check_SomeD by blast
      let ?smps = "add_sample c n out smps"
      have acc: "accepts_sample ob i r' smps cd n out"
        if "\<not> config_samples (check_cfg cd) \<le> n" "config_accepts (check_cfg cd) out"
          "bt_get (received smps c) n = None"
        using that ob e Some cd by (simp add: accepts_sample_def not_le)
      show ?thesis
        using Inr ob e Some cd acc
          objective_step.sampled [where digest = digest and D = D and k = k and
            u = "st_usage s" and ob = ob and smps' = ?smps]
          objective_step.judged [where digest = digest and D = D and k = k and
            u = "st_usage s" and ob = ob and smps' = ?smps]
        by (auto simp: finish_def Let_def add_sample_def baseline_or_empty_def intro!: evolves_put)
    qed (use Inr e in \<open>auto simp: finish_def\<close>)
  qed (use Inr in \<open>auto simp: finish_def split: option.split evaluation.split\<close>)
qed (simp add: finish_def)

lemma settle_evolves: "evolves digest D s (fst (settle s k ev dec note))"
proof (cases "open_objective s k")
  case (Inr ob)
  then have ob: "bt_get (objectives s) k = Some ob" "os_status ob = StOpen"
    by (simp_all add: open_objective_Inr)
  show ?thesis
  proof (cases "\<exists>i r res v. os_evaluation ob = Some (Ready i r res v)")
    case True
    then obtain i r res v where e: "os_evaluation ob = Some (Ready i r res v)" by blast
    let ?entry = "\<lparr>entry_revision = r, entry_results = res, entry_decision = dec, entry_note = note\<rparr>"
    have "evolves digest D s (put_objective s k
        (let ob' = ob\<lparr>os_ledger := l, os_evaluation := None\<rparr>
         in if dec = DDone then ob'\<lparr>os_status := StDone (used ob' (st_usage s))\<rparr> else ob'))"
      if "ledger_settle (os_ledger ob) ?entry v = Inr l" for l
      unfolding Let_def
      by (rule evolves_put [OF ob(1)]) (rule objective_step.settled [OF ob(2) e that refl])
    with Inr e show ?thesis
      by (auto simp: settle_def Let_def split: sum.split)
  qed (use Inr in \<open>auto simp: settle_def split: option.split evaluation.split\<close>)
qed (simp add: settle_def)

lemma close_evolves: "evolves digest D s (fst (close_objective s k))"
  by (auto simp: close_objective_def split: option.split status.split
      intro!: evolves_put objective_step.closed)

section \<open>The trigger rules write objectives only to remember notified limits\<close>

lemma fire_one_frame:
  assumes "oc \<noteq> OcUsageReported"
  shows "objectives (fst (fire_one digest s oc)) = objectives s"
    and "st_usage (fst (fire_one digest s oc)) = st_usage s"
  using assms
  by (cases oc; auto simp: after_settle_def compact_when_idle_def Let_def
      split: option.split admission.split)+

lemma fire_Cons:
  "fst (fire digest s (oc # ocs)) = fst (fire digest (fst (fire_one digest s oc)) ocs)"
  "snd (fire digest s (oc # ocs)) =
     snd (fire_one digest s oc) @ snd (fire digest (fst (fire_one digest s oc)) ocs)"
  by (simp_all split: prod.split)

lemma react_fire:
  "react digest s e = fire digest (fst (apply_event digest s e)) (snd (apply_event digest s e))"
  by (simp add: react_def case_prod_unfold)

lemma fire_frame:
  assumes "OcUsageReported \<notin> set ocs"
  shows "objectives (fst (fire digest s ocs)) = objectives s \<and>
         st_usage (fst (fire digest s ocs)) = st_usage s"
  using assms
  by (induction ocs arbitrary: s) (auto simp: fire_Cons fire_one_frame simp del: fire.simps(2))

lemma apply_event_frame:
  assumes "\<And>u. e \<noteq> EvUsage u"
  shows "OcUsageReported \<notin> set (snd (apply_event digest s e))"
    and "st_usage (fst (apply_event digest s e)) = st_usage s"
  using assms
  by (cases e; auto simp: define_objective_def redefine_def approve_def request_def deliver_def
      finish_def settle_def close_objective_def start_evaluation_def open_objective_def ignored_def
      approval_required_def Let_def put_objective_def
      split: option.split sum.split evaluation.split status.split prod.splits if_splits)+

lemma remind_evolves: "evolves digest D s (fst (remind_budgets s))"
  by (auto simp: remind_budgets_def evolves_def intro: objective_step.reminded split: option.split)

theorem react_evolves:
  assumes "event_ok D e"
  shows "evolves digest D s (fst (react digest s e))"
proof (cases "\<exists>u. e = EvUsage u")
  case True
  then obtain u where "e = EvUsage u" by blast
  then have "fst (react digest s e) = fst (remind_budgets (s\<lparr>st_usage := u\<rparr>))"
    by (simp add: react_def split: prod.split)
  moreover have "evolves digest D (s\<lparr>st_usage := u\<rparr>) s' \<Longrightarrow> evolves digest D s s'" for s'
    by (simp add: evolves_def)
  ultimately show ?thesis using remind_evolves by simp
next
  case False
  have "evolves digest D s (fst (apply_event digest s e))"
    using assms False
    by (cases e) (auto simp: define_evolves approve_evolves request_evolves deliver_evolves
        finish_evolves settle_evolves close_evolves)
  moreover have "objectives (fst (react digest s e)) = objectives (fst (apply_event digest s e))"
    "st_usage (fst (react digest s e)) = st_usage (fst (apply_event digest s e))"
    using False apply_event_frame(1) [of e digest s] fire_frame
    by (auto simp: react_fire)
  ultimately show ?thesis by (simp only: evolves_def simp_thms)
qed

text \<open>The key order of the objectives is kept.\<close>

lemma apply_event_wf: "bt_wf (objectives s) \<Longrightarrow> bt_wf (objectives (fst (apply_event digest s e)))"
  by (cases e; auto simp: define_objective_def approve_def request_def deliver_def
      finish_def settle_def close_objective_def Let_def put_objective_def
      split: option.split sum.split evaluation.split status.split prod.splits)

lemma fire_one_wf: "bt_wf (objectives s) \<Longrightarrow> bt_wf (objectives (fst (fire_one digest s oc)))"
  using fire_one_frame(1) [of oc digest s]
  by (cases "oc = OcUsageReported") (simp_all add: remind_budgets_def)

lemma fire_wf: "bt_wf (objectives s) \<Longrightarrow> bt_wf (objectives (fst (fire digest s ocs)))"
proof (induction ocs arbitrary: s)
  case (Cons oc ocs)
  then show ?case by (simp add: fire_Cons fire_one_wf del: fire.simps(2))
qed simp

lemma react_wf: "bt_wf (objectives s) \<Longrightarrow> bt_wf (objectives (fst (react digest s e)))"
  by (simp add: react_fire fire_wf apply_event_wf)

end
