(* ===== verification/Objective_Invariant.thy ===== *)
theory Objective_Invariant
  imports Objective_Step
begin

text \<open>
  The invariant of the engine's state, kept by every reaction: each objective holds a valid
  definition under its own key; its approval is of its current standard; an evaluation exists only
  while the objective is open and approved, its samples were all accepted and some are still
  missing while it runs, and its verdict is the one its results have; the baseline fits the
  definition. Approvals and evaluations survive a redefinition whose standard hash is the same,
  so the invariant needs that the hash tells the definitions in play apart (\<open>collision_free\<close>).
\<close>

definition collision_free :: "digest \<Rightarrow> objective_definition set \<Rightarrow> bool" where
  "collision_free digest D \<longleftrightarrow> inj_on digest (canonical_of ` D)"

definition samples_wf ::
  "objective_definition \<Rightarrow> (string, (u32, sample_output) btree) btree \<Rightarrow> bool" where
  "samples_wf d smps \<longleftrightarrow>
     bt_wf smps \<and>
     list_all (\<lambda>e. case definition_check d (fst e) of
         None \<Rightarrow> False
       | Some c \<Rightarrow> bt_wf (snd e) \<and>
           list_all (\<lambda>p. fst p < config_samples (check_cfg c) \<and> config_accepts (check_cfg c) (snd p))
             (snd e)) smps"

definition evaluation_wf :: "objective_state \<Rightarrow> evaluation \<Rightarrow> bool" where
  "evaluation_wf ob e =
     (let d = os_definition ob in
      case e of
        Running i r smps \<Rightarrow> samples_wf d smps \<and> \<not> samples_complete (obj_checks d) smps
      | Ready i r res v \<Rightarrow> results_match d res \<and>
          v = keepable d (baseline_or_empty (os_ledger ob)) res \<and> os_latest_verdict ob = Some v)"

definition objective_wf ::
  "digest \<Rightarrow> objective_definition set \<Rightarrow> string \<Rightarrow> objective_state \<Rightarrow> bool" where
  "objective_wf digest D k ob \<longleftrightarrow>
     os_definition ob \<in> D \<and> obj_key (os_definition ob) = k \<and>
     definition_validate (os_definition ob) = [] \<and>
     (os_approval ob = None \<or> is_approved digest ob) \<and>
     pred_option (\<lambda>e. os_status ob = StOpen \<and> is_approved digest ob \<and> evaluation_wf ob e)
       (os_evaluation ob) \<and>
     results_fit (os_definition ob) (baseline_or_empty (os_ledger ob)) \<and>
     pred_option (\<lambda>v. map reason_check (verdict_reasons v) = map check_id (obj_checks (os_definition ob)))
       (os_latest_verdict ob)"

definition engine_inv :: "digest \<Rightarrow> objective_definition set \<Rightarrow> engine_state \<Rightarrow> bool" where
  "engine_inv digest D s \<longleftrightarrow>
     collision_free digest D \<and> bt_wf (objectives s) \<and>
     list_all (\<lambda>e. objective_wf digest D (fst e) (snd e)) (objectives s)"

section \<open>Samples\<close>

lemma samples_wf_get:
  "samples_wf d smps \<Longrightarrow> bt_get smps i = Some m \<Longrightarrow>
     \<exists>c. definition_check d i = Some c \<and> bt_wf m \<and>
       (\<forall>n out. bt_get m n = Some out \<longrightarrow> n < config_samples (check_cfg c) \<and> config_accepts (check_cfg c) out)"
  by (fastforce simp: samples_wf_def list_all_iff bt_get_entries [symmetric] split: option.splits)

lemma samples_wfI:
  assumes "bt_wf smps" and "\<And>i m. bt_get smps i = Some m \<Longrightarrow>
     \<exists>c. definition_check d i = Some c \<and> bt_wf m \<and>
       (\<forall>n out. bt_get m n = Some out \<longrightarrow> n < config_samples (check_cfg c) \<and> config_accepts (check_cfg c) out)"
  shows "samples_wf d smps"
  unfolding samples_wf_def list_all_iff
proof (intro conjI ballI assms(1))
  fix e assume "e \<in> set smps"
  then have "bt_get smps (fst e) = Some (snd e)"
    using bt_get_entries [OF assms(1), of "fst e" "snd e"] by simp
  from assms(2) [OF this] obtain c where c: "definition_check d (fst e) = Some c" "bt_wf (snd e)"
    "\<forall>n out. bt_get (snd e) n = Some out \<longrightarrow> n < config_samples (check_cfg c) \<and> config_accepts (check_cfg c) out"
    by blast
  moreover have "fst p < config_samples (check_cfg c) \<and> config_accepts (check_cfg c) (snd p)"
    if "p \<in> set (snd e)" for p
    using that c bt_get_entries [OF c(2), of "fst p" "snd p"] by simp
  ultimately show "case definition_check d (fst e) of None \<Rightarrow> False
    | Some c \<Rightarrow> bt_wf (snd e) \<and> (\<forall>p \<in> set (snd e). fst p < config_samples (check_cfg c) \<and>
        config_accepts (check_cfg c) (snd p))"
    by simp
qed

lemma received_wf: "samples_wf d smps \<Longrightarrow> bt_wf (received smps i)"
  using samples_wf_get by (force simp: received_def split: option.split)

lemma samples_wf_received:
  "samples_wf d smps \<Longrightarrow> definition_check d i = Some c \<Longrightarrow> bt_get (received smps i) n = Some out \<Longrightarrow>
     n < config_samples (check_cfg c) \<and> config_accepts (check_cfg c) out"
  using samples_wf_get by (force simp: received_def split: option.splits)

lemma samples_wf_Nil [simp]: "samples_wf d []"
  by (simp add: samples_wf_def)

lemma received_add_sample:
  "received (add_sample i n out smps) j = (if j = i then bt_insert n out (received smps i) else received smps j)"
  by (simp add: received_def add_sample_def)

lemma samples_wf_add:
  assumes wf: "samples_wf d smps" and c: "definition_check d i = Some c"
    and n: "n < config_samples (check_cfg c)" "config_accepts (check_cfg c) out"
  shows "samples_wf d (add_sample i n out smps)"
proof (rule samples_wfI)
  show "bt_wf (add_sample i n out smps)" using wf by (simp add: samples_wf_def add_sample_def)
  fix j m assume g: "bt_get (add_sample i n out smps) j = Some m"
  show "\<exists>c. definition_check d j = Some c \<and> bt_wf m \<and>
       (\<forall>n out. bt_get m n = Some out \<longrightarrow> n < config_samples (check_cfg c) \<and> config_accepts (check_cfg c) out)"
  proof (cases "j = i")
    case True
    with g have "m = bt_insert n out (received smps i)" by (simp add: add_sample_def)
    with True c n received_wf [OF wf] samples_wf_received [OF wf c] show ?thesis by simp
  next
    case False
    with g have "bt_get smps j = Some m" by (simp add: add_sample_def)
    then show ?thesis by (rule samples_wf_get [OF wf])
  qed
qed

lemma samples_cong:
  "obj_checks d = obj_checks e \<Longrightarrow> samples_wf d = samples_wf e"
  by (simp add: samples_wf_def definition_check_def fun_eq_iff)

section \<open>Complete samples combine\<close>

text \<open>Every check of a complete evaluation combines, into an output of its own kind.\<close>

lemma complete_combines:
  assumes v: "definition_validate d = []" and wf: "samples_wf d smps"
    and full: "samples_complete (obj_checks d) smps" and c: "c \<in> set (obj_checks d)"
  shows "\<exists>m out. bt_get smps (check_id c) = Some m \<and>
           config_combine (check_cfg c) (bt_values m) = Inr out \<and> config_produces (check_cfg c) out"
proof -
  have n: "length (received smps (check_id c)) = unat (config_samples (check_cfg c))"
    using full c by (simp add: samples_complete_def list_all_iff)
  with valid_samples_pos [OF v c] obtain m where m: "bt_get smps (check_id c) = Some m"
    by (auto simp: received_def split: option.splits)
  then have len: "length (bt_values m) = unat (config_samples (check_cfg c))"
    using n by (simp add: received_def bt_values_def)
  from samples_wf_get [OF wf m] definition_check_mem [OF v c]
  have "bt_wf m" "\<forall>k out. bt_get m k = Some out \<longrightarrow> config_accepts (check_cfg c) out" by auto
  then have "\<forall>smp \<in> set (bt_values m). config_accepts (check_cfg c) smp"
    by (auto simp: bt_values_def bt_get_entries [symmetric])
  from config_combine_accepts [OF len this] m show ?thesis by blast
qed

lemma map_filter_all_Some:
  "(\<And>x. x \<in> set xs \<Longrightarrow> f x = Some (g x)) \<Longrightarrow> List.map_filter f xs = map g xs"
  by (induction xs) (simp_all add: map_filter_simps)

lemma map_of_map_keys:
  "distinct (map f xs) \<Longrightarrow> x \<in> set xs \<Longrightarrow> map_of (map (\<lambda>x. (f x, g x)) xs) (f x) = Some (g x)"
  by (induction xs) (auto simp: rev_image_eqI)

definition combined_output ::
  "(string, (u32, sample_output) btree) btree \<Rightarrow> check_definition \<Rightarrow> check_output" where
  "combined_output smps c = projr (config_combine (check_cfg c) (bt_values (received smps (check_id c))))"

lemma combined_results_complete:
  assumes v: "definition_validate d = []" and wf: "samples_wf d smps"
    and full: "samples_complete (obj_checks d) smps"
  shows "combined_results (obj_checks d) smps =
    bt_collect (map (\<lambda>c. (check_id c, combined_output smps c)) (obj_checks d))"
  unfolding combined_results_def
  by (rule arg_cong [where f = bt_collect], rule map_filter_all_Some)
    (use complete_combines [OF assms] in \<open>force simp: combined_output_def received_def\<close>)

lemma combined_results_get:
  assumes v: "definition_validate d = []" and wf: "samples_wf d smps"
    and full: "samples_complete (obj_checks d) smps" and c: "c \<in> set (obj_checks d)"
  shows "bt_get (combined_results (obj_checks d) smps) (check_id c) = Some (combined_output smps c)"
  using valid_checks_distinct [OF v] c
  by (simp add: combined_results_complete [OF v wf full] bt_get_collect_distinct comp_def map_of_map_keys)

lemma combined_results_match:
  assumes v: "definition_validate d = []" and wf: "samples_wf d smps"
    and full: "samples_complete (obj_checks d) smps"
  shows "results_match d (combined_results (obj_checks d) smps)"
proof -
  let ?r = "combined_results (obj_checks d) smps"
  have "bt_wf ?r" by (simp add: combined_results_def)
  moreover have "config_produces (check_cfg c) (combined_output smps c)" if "c \<in> set (obj_checks d)" for c
    using complete_combines [OF v wf full that] by (auto simp: combined_output_def received_def)
  moreover have "definition_check d i \<noteq> None" if "bt_get ?r i = Some out" for i out
  proof -
    from that have "i \<in> check_id ` set (obj_checks d)"
      by (auto simp: combined_results_complete [OF v wf full] bt_get_collect dest!: map_of_SomeD)
    then show ?thesis using definition_check_mem [OF v] by auto
  qed
  ultimately show ?thesis
    using combined_results_get [OF v wf full] by (force simp: results_match_def list_all_iff bt_get_entries)
qed

section \<open>Every operation keeps the objective's invariant\<close>

lemma hash_eq_canonical:
  "collision_free digest D \<Longrightarrow> d \<in> D \<Longrightarrow> e \<in> D \<Longrightarrow>
     standard_hash digest d = standard_hash digest e \<longleftrightarrow> canonical_of d = canonical_of e"
  by (auto simp: collision_free_def standard_hash_eq inj_on_def)

lemma canonical_eqD:
  "canonical_of d = canonical_of e \<Longrightarrow>
     obj_key d = obj_key e \<and> obj_mode d = obj_mode e \<and> obj_checks d = obj_checks e \<and>
     obj_constraints d = obj_constraints e"
  by (simp add: canonical_of_def)

lemma is_approved_frame [simp]:
  "is_approved digest (ob\<lparr>os_evaluation := e\<rparr>) = is_approved digest ob"
  "is_approved digest (ob\<lparr>os_ledger := l\<rparr>) = is_approved digest ob"
  "is_approved digest (ob\<lparr>os_latest_verdict := v\<rparr>) = is_approved digest ob"
  "is_approved digest (ob\<lparr>os_status := t\<rparr>) = is_approved digest ob"
  "is_approved digest (ob\<lparr>os_evaluations := n\<rparr>) = is_approved digest ob"
  "is_approved digest (ob\<lparr>os_budget_notified := b\<rparr>) = is_approved digest ob"
  by (simp_all add: is_approved_def split: option.split)

lemma new_objective_wf:
  "d \<in> D \<Longrightarrow> definition_validate d = [] \<Longrightarrow> objective_wf digest D (obj_key d) (new_objective d u)"
  by (simp add: objective_wf_def new_objective_def empty_ledger_def baseline_or_empty_def
      baseline_results_def)

lemma baseline_or_empty_fit:
  "results_fit d (baseline_or_empty l) \<longleftrightarrow> (\<forall>r. baseline_results l = Some r \<longrightarrow> results_fit d r)"
  by (simp add: baseline_or_empty_def split: option.split)

lemma redefine_wf:
  assumes cf: "collision_free digest D" and wf: "objective_wf digest D k ob"
    and d: "d \<in> D" "definition_validate d = []" "obj_key d = k"
  shows "objective_wf digest D k (fst (redefine digest u ob d))"
proof (cases "standard_hash digest (os_definition ob) = standard_hash digest d")
  case True
  let ?e = "os_definition ob"
  from wf have e: "?e \<in> D" by (simp add: objective_wf_def)
  have canon: "obj_checks d = obj_checks ?e" "obj_mode d = obj_mode ?e"
    using True hash_eq_canonical [OF cf e d(1)] canonical_eqD [of ?e d] by simp_all
  have appr: "is_approved digest (ob\<lparr>os_definition := d, os_budget_notified := b\<rparr>) = is_approved digest ob" for b
    using True by (simp add: is_approved_def is_valid_for_def split: option.split)
  show ?thesis
    using True wf d appr canon keepable_cong [OF canon] results_cong [OF canon(1)] samples_cong [OF canon(1)]
    by (cases "os_evaluation ob")
      (auto simp: objective_wf_def redefine_def Let_def evaluation_wf_def split: evaluation.splits)
next
  case False
  have "results_fit d (baseline_or_empty (retain_comparable (os_definition ob) d (os_ledger ob)))"
    using wf retain_comparable_fit [of "os_ledger ob" "os_definition ob"]
    by (auto simp: baseline_or_empty_fit objective_wf_def)
  with False d show ?thesis by (simp add: objective_wf_def redefine_def Let_def)
qed

lemma start_evaluation_wf:
  assumes "objective_wf digest D k ob" "os_status ob = StOpen" "is_approved digest ob"
  shows "objective_wf digest D k (fst (start_evaluation ob r))"
proof -
  let ?d = "os_definition ob"
  have v: "definition_validate ?d = []" using assms(1) by (simp add: objective_wf_def)
  obtain c where c: "c \<in> set (obj_checks ?d)" using valid_checks_nonempty [OF v] by (cases "obj_checks ?d") auto
  have "\<not> samples_complete (obj_checks ?d) []"
    using valid_samples_pos [OF v c] c by (auto simp: samples_complete_def list_all_iff received_def)
  then show ?thesis
    using assms by (auto simp: objective_wf_def start_evaluation_def evaluation_wf_def Let_def split: option.splits)
qed

lemma accepts_sample_wf:
  assumes "objective_wf digest D k ob" "accepts_sample ob i r smps c n out"
  shows "samples_wf (os_definition ob) (add_sample (check_id c) n out smps)"
  using assms
  by (auto simp: objective_wf_def accepts_sample_def evaluation_wf_def Let_def intro: samples_wf_add)

lemma sampled_wf:
  assumes wf: "objective_wf digest D k ob" and acc: "accepts_sample ob i r smps c n out"
    and inc: "\<not> samples_complete (obj_checks (os_definition ob)) (add_sample (check_id c) n out smps)"
  shows "objective_wf digest D k
    (ob\<lparr>os_evaluation := Some (Running i r (add_sample (check_id c) n out smps))\<rparr>)"
  using accepts_sample_wf [OF wf acc] wf acc inc
  by (auto simp: objective_wf_def accepts_sample_def evaluation_wf_def Let_def)

lemma judged_wf:
  assumes wf: "objective_wf digest D k ob" and acc: "accepts_sample ob i r smps c n out"
    and full: "samples_complete (obj_checks (os_definition ob)) smps'"
    and smps': "smps' = add_sample (check_id c) n out smps"
    and res: "res = combined_results (obj_checks (os_definition ob)) smps'"
    and v: "v = keepable (os_definition ob) (baseline_or_empty (os_ledger ob)) res"
  shows "objective_wf digest D k
    (ob\<lparr>os_latest_verdict := Some v, os_evaluation := Some (Ready i r res v)\<rparr>)"
proof -
  have "definition_validate (os_definition ob) = []" using wf by (simp add: objective_wf_def)
  then have "results_match (os_definition ob) res"
    using combined_results_match accepts_sample_wf [OF wf acc] full smps' res by simp
  then show ?thesis
    using wf acc v by (auto simp: objective_wf_def accepts_sample_def evaluation_wf_def Let_def)
qed

lemma settled_wf:
  assumes wf: "objective_wf digest D k ob" and e: "os_evaluation ob = Some (Ready i r res v)"
    and l: "ledger_settle (os_ledger ob) \<lparr>entry_revision = r, entry_results = res,
       entry_decision = dec, entry_note = note\<rparr> v = Inr l"
  shows "objective_wf digest D k (ob\<lparr>os_ledger := l, os_evaluation := None\<rparr>)"
proof -
  have "results_fit (os_definition ob) res"
    using wf e by (auto simp: objective_wf_def evaluation_wf_def Let_def intro: results_match_fit)
  then have "results_fit (os_definition ob) (baseline_or_empty l)"
    using wf l by (auto simp: ledger_settle_Inr baseline_or_empty_fit baseline_results_def objective_wf_def)
  then show ?thesis using wf by (simp add: objective_wf_def)
qed

lemma objective_wf_frame:
  "objective_wf digest D k (ob\<lparr>os_budget_notified := b\<rparr>) = objective_wf digest D k ob"
  "os_evaluation ob = None \<Longrightarrow> objective_wf digest D k (ob\<lparr>os_status := t\<rparr>) = objective_wf digest D k ob"
  by (auto simp: objective_wf_def evaluation_wf_def Let_def split: option.split evaluation.split)

lemma objective_step_wf:
  assumes "objective_step digest D u k ob ob'" "collision_free digest D" "objective_wf digest D k ob"
  shows "objective_wf digest D k ob'"
  using assms
proof (cases rule: objective_step.cases)
  case (redefined d)
  with assms show ?thesis by (simp add: redefine_wf)
next
  case (approved a)
  then show ?thesis using assms(3)
    by (cases "os_evaluation ob")
      (auto simp: objective_wf_def is_approved_def evaluation_wf_def Let_def split: evaluation.split)
next
  case (started r)
  then show ?thesis using assms(3) by (simp add: start_evaluation_wf)
next
  case (sampled i r smps c n out smps')
  then show ?thesis using assms(3) by (simp add: sampled_wf)
next
  case (judged i r smps c n out smps' res v)
  then show ?thesis using judged_wf [OF assms(3) judged(2) judged(4,3)] by simp
next
  case (settled i r res v dec nt l ob1)
  then show ?thesis using settled_wf [OF assms(3) settled(3,4)] by (simp add: objective_wf_frame)
next
  case closed
  then show ?thesis using assms(3) by (simp add: objective_wf_def)
next
  case reminded
  then show ?thesis using assms(3)
    by (simp add: remind_objective_def objective_wf_frame split: prod.split)
qed

section \<open>Every reaction keeps the engine's invariant\<close>

lemma engine_inv_iff:
  "engine_inv digest D s \<longleftrightarrow> collision_free digest D \<and> bt_wf (objectives s) \<and>
     (\<forall>k ob. bt_get (objectives s) k = Some ob \<longrightarrow> objective_wf digest D k ob)"
  by (fastforce simp: engine_inv_def list_all_iff bt_get_entries [symmetric])

lemma react_inv:
  assumes inv: "engine_inv digest D s" and ok: "event_ok D e"
  shows "engine_inv digest D (fst (react digest s e))"
proof -
  let ?s' = "fst (react digest s e)"
  have "objective_wf digest D k ob'" if g: "bt_get (objectives ?s') k = Some ob'" for k ob'
  proof (cases "bt_get (objectives s) k")
    case None
    from evolves_None [OF react_evolves [OF ok] None, of digest] g obtain d where "d \<in> D" "obj_key d = k"
      "definition_validate d = []" "ob' = new_objective d (st_usage ?s')"
      by auto
    then show ?thesis using new_objective_wf by blast
  next
    case (Some ob)
    from evolves_Some [OF react_evolves [OF ok] Some, of digest] g
    have "ob' = ob \<or> objective_step digest D (st_usage ?s') k ob ob'" by simp
    with Some inv show ?thesis using objective_step_wf by (auto simp: engine_inv_iff)
  qed
  then show ?thesis using inv react_wf by (simp add: engine_inv_iff)
qed

interpretation engine: event_machine "react digest" "engine_inv digest D" "event_ok D" for digest D
  by unfold_locales (rule react_inv)

end
