(* ===== verification/Objective_Lifecycle.thy ===== *)
theory Objective_Lifecycle
  imports Objective_Invariant "HOL-Library.Sublist"
begin

text \<open>
  The abstract life of an objective, as an inductive step relation over phases, and the refinement:
  every reaction of the engine moves every objective along it or leaves its phase as it is. With
  it, what no reaction changes: the history of settled evaluations only grows, and a finished or
  closed objective keeps its definition, its ledger and the usage it had when it ended.
\<close>

datatype phase =
    Unapproved | Idle | Evaluating evaluation_id string | Judged evaluation_id string verdict_kind
  | Finished | Shut

fun phase_of_evaluation :: "evaluation \<Rightarrow> phase" where
  "phase_of_evaluation (Running i r _) = Evaluating i r"
| "phase_of_evaluation (Ready i r _ v) = Judged i r (verdict_kind v)"

definition phase_of :: "digest \<Rightarrow> objective_state \<Rightarrow> phase" where
  "phase_of digest ob =
     (case os_status ob of
        StClosed _ \<Rightarrow> Shut
      | StDone _ \<Rightarrow> Finished
      | StOpen \<Rightarrow> (case os_evaluation ob of
           Some e \<Rightarrow> phase_of_evaluation e
         | None \<Rightarrow> if is_approved digest ob then Idle else Unapproved))"

fun phase_revision :: "phase \<Rightarrow> string option" where
  "phase_revision (Evaluating _ r) = Some r"
| "phase_revision (Judged _ r _) = Some r"
| "phase_revision _ = None"

definition live :: "phase \<Rightarrow> bool" where
  "live p \<longleftrightarrow> p \<noteq> Unapproved \<and> p \<noteq> Finished \<and> p \<noteq> Shut"

inductive lifecycle :: "phase \<Rightarrow> phase \<Rightarrow> bool" where
  lc_approve: "lifecycle Unapproved Idle"
| lc_start: "live p \<Longrightarrow> phase_revision p \<noteq> Some r \<Longrightarrow> lifecycle p (Evaluating i r)"
| lc_judge: "lifecycle (Evaluating i r) (Judged i r v)"
| lc_settle: "lifecycle (Judged i r v) Idle"
| lc_done: "lifecycle (Judged i r VDone) Finished"
| lc_revoke: "live p \<Longrightarrow> lifecycle p Unapproved"
| lc_close: "p \<noteq> Shut \<Longrightarrow> lifecycle p Shut"

inductive_simps lifecycle_from_Shut: "lifecycle Shut p"
inductive_simps lifecycle_from_Finished: "lifecycle Finished p"
inductive_simps lifecycle_to_Judged: "lifecycle p (Judged i r v)"
inductive_simps lifecycle_to_Finished: "lifecycle p Finished"

text \<open>A closed objective stays closed; a finished one can only be closed.\<close>

lemma lifecycle_Shut: "lifecycle\<^sup>*\<^sup>* Shut p \<Longrightarrow> p = Shut"
  by (induction rule: rtranclp_induct) (auto simp: lifecycle_from_Shut live_def)

lemma lifecycle_Finished: "lifecycle\<^sup>*\<^sup>* Finished p \<Longrightarrow> p = Finished \<or> p = Shut"
  by (induction rule: rtranclp_induct)
    (auto simp: lifecycle_from_Shut lifecycle_from_Finished live_def)

text \<open>An objective that finishes was judged done by the step before.\<close>

lemma lifecycle_finishes:
  "lifecycle\<^sup>*\<^sup>* p Finished \<Longrightarrow> p \<noteq> Finished \<Longrightarrow> \<exists>i r. lifecycle\<^sup>*\<^sup>* p (Judged i r VDone)"
  by (erule rtranclp.cases) (auto simp: lifecycle_to_Finished)

section \<open>Refinement\<close>

lemma phase_of_evaluation_live [simp]:
  "live (phase_of_evaluation e)"
  "phase_revision (phase_of_evaluation e) = Some (evaluation_revision e)"
  by (cases e; simp add: live_def)+

lemma live_Idle: "live Idle"
  by (simp add: live_def)

lemma phase_of_open:
  assumes "os_status ob = StOpen" "is_approved digest ob"
  shows "live (phase_of digest ob)"
    and "phase_revision (phase_of digest ob) = map_option evaluation_revision (os_evaluation ob)"
  using assms by (cases "os_evaluation ob"; simp add: phase_of_def live_Idle)+

text \<open>One step of an objective is one step of its life, or none.\<close>

definition lifecycle_or_same :: "phase \<Rightarrow> phase \<Rightarrow> bool" where
  "lifecycle_or_same p q \<longleftrightarrow> q = p \<or> lifecycle p q"

lemma redefine_lifecycle:
  assumes "objective_wf digest D k ob" "os_status ob = StOpen"
  shows "lifecycle_or_same (phase_of digest ob) (phase_of digest (fst (redefine digest u ob d)))"
proof (cases "standard_hash digest (os_definition ob) = standard_hash digest d")
  case True
  then have "is_approved digest (fst (redefine digest u ob d)) = is_approved digest ob"
    by (simp add: redefine_def Let_def is_approved_def is_valid_for_def split: option.split)
  with True have "phase_of digest (fst (redefine digest u ob d)) = phase_of digest ob"
    by (simp add: phase_of_def redefine_def Let_def split: option.split status.split)
  then show ?thesis by (simp add: lifecycle_or_same_def)
next
  case False
  then have new: "phase_of digest (fst (redefine digest u ob d)) = Unapproved"
    using assms(2) by (simp add: phase_of_def redefine_def Let_def is_approved_def)
  show ?thesis
  proof (cases "is_approved digest ob")
    case True
    then show ?thesis
      using new phase_of_open(1) [OF assms(2)] by (simp add: lifecycle_or_same_def lc_revoke)
  next
    case False
    then have "phase_of digest ob = Unapproved"
      using assms by (cases "os_evaluation ob") (auto simp: phase_of_def objective_wf_def)
    with new show ?thesis by (simp add: lifecycle_or_same_def)
  qed
qed

lemma approve_lifecycle:
  assumes "objective_wf digest D k ob" "os_status ob = StOpen" "is_valid_for digest a (os_definition ob)"
  shows "lifecycle_or_same (phase_of digest ob) (phase_of digest (ob\<lparr>os_approval := Some a\<rparr>))"
  using assms
  by (cases "os_evaluation ob")
    (auto simp: phase_of_def lifecycle_or_same_def is_approved_def objective_wf_def lc_approve)

lemma start_lifecycle:
  assumes "os_status ob = StOpen" "is_approved digest ob"
  shows "lifecycle_or_same (phase_of digest ob) (phase_of digest (fst (start_evaluation ob r)))"
proof (cases "map_option evaluation_revision (os_evaluation ob) = Some r")
  case True
  then show ?thesis by (auto simp: start_evaluation_def lifecycle_or_same_def split: option.split)
next
  case False
  then have "phase_of digest (fst (start_evaluation ob r)) = Evaluating (os_evaluations ob) r"
    using assms by (auto simp: start_evaluation_def phase_of_def split: option.split)
  then show ?thesis using False phase_of_open [OF assms] by (simp add: lifecycle_or_same_def lc_start)
qed

lemma settle_lifecycle:
  assumes "objective_wf digest D k ob" "os_status ob = StOpen"
    and e: "os_evaluation ob = Some (Ready i r res v)"
    and l: "ledger_settle (os_ledger ob) \<lparr>entry_revision = r, entry_results = res,
       entry_decision = dec, entry_note = nt\<rparr> v = Inr l"
    and ob': "ob' = ob\<lparr>os_ledger := l, os_evaluation := None\<rparr>"
  shows "lifecycle_or_same (phase_of digest ob)
    (phase_of digest (if dec = DDone then ob'\<lparr>os_status := StDone (used ob' u)\<rparr> else ob'))"
proof -
  have p: "phase_of digest ob = Judged i r (verdict_kind v)" using assms by (simp add: phase_of_def)
  have "is_approved digest ob" using assms by (simp add: objective_wf_def)
  then show ?thesis
    using p l assms(2) ob'
    by (auto simp: lifecycle_or_same_def phase_of_def ledger_settle_Inr lc_settle intro: lc_done)
qed

lemma objective_step_lifecycle:
  assumes "objective_step digest D u k ob ob'" "objective_wf digest D k ob"
  shows "lifecycle_or_same (phase_of digest ob) (phase_of digest ob')"
  using assms
proof (cases rule: objective_step.cases)
  case (sampled i r smps c n out smps')
  then show ?thesis by (simp add: accepts_sample_def phase_of_def lifecycle_or_same_def)
next
  case (judged i r smps c n out smps' res v)
  then show ?thesis by (simp add: accepts_sample_def phase_of_def lifecycle_or_same_def lc_judge)
next
  case (settled i r res v dec nt l ob1)
  then show ?thesis using settle_lifecycle [OF assms(2) settled(2,3,4,5)] by simp
next
  case closed
  then show ?thesis
    by (auto simp: phase_of_def lifecycle_or_same_def split: status.split option.split
        intro!: lc_close)
next
  case reminded
  then show ?thesis
    by (auto simp: remind_objective_def phase_of_def lifecycle_or_same_def split: prod.split status.split option.split)
qed (simp_all add: redefine_lifecycle approve_lifecycle start_lifecycle)

section \<open>What an objective keeps\<close>

definition objective_later :: "digest \<Rightarrow> objective_state \<Rightarrow> objective_state \<Rightarrow> bool" where
  "objective_later digest ob ob' \<longleftrightarrow>
     lifecycle\<^sup>*\<^sup>* (phase_of digest ob) (phase_of digest ob') \<and>
     prefix (ledger_entries (os_ledger ob)) (ledger_entries (os_ledger ob')) \<and>
     os_usage_at_start ob' = os_usage_at_start ob \<and>
     (os_status ob \<noteq> StOpen \<longrightarrow>
        os_status ob' \<noteq> StOpen \<and> os_definition ob' = os_definition ob \<and>
        os_ledger ob' = os_ledger ob \<and> (\<forall>u u'. used ob' u' = used ob u))"

lemma used_frozen: "os_status ob \<noteq> StOpen \<Longrightarrow> used ob u = used ob u'"
  by (simp add: used_def split: status.split)

lemma objective_later_refl [simp]: "objective_later digest ob ob"
  by (auto simp: objective_later_def intro: used_frozen)

lemma objective_later_trans:
  "objective_later digest a b \<Longrightarrow> objective_later digest b c \<Longrightarrow> objective_later digest a c"
  unfolding objective_later_def by (auto intro: prefix_order.trans) metis

lemma retain_comparable_entries [simp]: "ledger_entries (retain_comparable d e l) = ledger_entries l"
  by (simp add: retain_comparable_def split: option.split)

lemma objective_step_history:
  assumes "objective_step digest D u k ob ob'"
  shows "prefix (ledger_entries (os_ledger ob)) (ledger_entries (os_ledger ob')) \<and>
     os_usage_at_start ob' = os_usage_at_start ob"
  using assms
  by (cases rule: objective_step.cases)
    (auto simp: redefine_def start_evaluation_def Let_def ledger_settle_Inr remind_objective_def
      split: prod.split)

lemma objective_step_frozen:
  assumes "objective_step digest D u k ob ob'" "os_status ob \<noteq> StOpen"
  shows "os_status ob' \<noteq> StOpen \<and> os_definition ob' = os_definition ob \<and>
     os_ledger ob' = os_ledger ob \<and> (\<forall>v v'. used ob' v' = used ob v)"
  using assms
  by (cases rule: objective_step.cases)
    (auto simp: accepts_sample_def remind_objective_def used_def split: status.splits)

lemma objective_step_later:
  "objective_step digest D u k ob ob' \<Longrightarrow> objective_wf digest D k ob \<Longrightarrow> objective_later digest ob ob'"
  using objective_step_lifecycle [of digest D u k ob ob'] objective_step_history [of digest D u k ob ob']
    objective_step_frozen [of digest D u k ob ob']
  by (auto simp: objective_later_def lifecycle_or_same_def)

definition engine_later :: "digest \<Rightarrow> engine_state \<Rightarrow> engine_state \<Rightarrow> bool" where
  "engine_later digest s s' \<longleftrightarrow>
     (\<forall>k ob. bt_get (objectives s) k = Some ob \<longrightarrow>
        (\<exists>ob'. bt_get (objectives s') k = Some ob' \<and> objective_later digest ob ob'))"

interpretation engine_life: evolving_machine "react digest" "engine_inv digest D" "event_ok D"
  "engine_later digest" for digest D
proof
  fix s t u
  show "engine_later digest s s" by (simp add: engine_later_def)
  show "engine_later digest s t \<Longrightarrow> engine_later digest t u \<Longrightarrow> engine_later digest s u"
    unfolding engine_later_def by (meson objective_later_trans)
next
  fix s e assume inv: "engine_inv digest D s" and ok: "event_ok D e"
  show "engine_later digest s (fst (react digest s e))"
    unfolding engine_later_def
  proof (intro allI impI)
    fix k ob assume g: "bt_get (objectives s) k = Some ob"
    with inv have wf: "objective_wf digest D k ob" by (simp add: engine_inv_iff)
    from evolves_Some [OF react_evolves [OF ok] g, of digest] obtain ob' where
      "bt_get (objectives (fst (react digest s e))) k = Some ob'"
      "ob' = ob \<or> objective_step digest D (st_usage (fst (react digest s e))) k ob ob'"
      by blast
    with wf objective_step_later
    show "\<exists>ob'. bt_get (objectives (fst (react digest s e))) k = Some ob' \<and> objective_later digest ob ob'"
      by auto
  qed
qed

end
