(* ===== verification/Objective_Runs.thy ===== *)
theory Objective_Runs
  imports Objective_Lifecycle
begin

text \<open>
  What the engine asks its host to do. Check runs: a reaction asks for the runs of an objective
  exactly when it starts an evaluation of it, under an identifier no earlier evaluation had, and
  answering them in any order completes the evaluation. Compactions: each pending compaction is
  executed once, at the next idle report with an empty queue, under consecutive sequence numbers.
  Budget notices: at most one for each limit while the definition stands.
\<close>

section \<open>Check runs\<close>

fun is_run_of :: "string \<Rightarrow> intent \<Rightarrow> bool" where
  "is_run_of k (RunCheck k' _ _ _ _) \<longleftrightarrow> k' = k"
| "is_run_of k _ \<longleftrightarrow> False"

definition runs_of :: "string \<Rightarrow> intent list \<Rightarrow> intent list" where
  "runs_of k = filter (is_run_of k)"

lemma runs_of_simps [simp]:
  "runs_of k [] = []"
  "runs_of k (xs @ ys) = runs_of k xs @ runs_of k ys"
  "runs_of k (Notify n # xs) = runs_of k xs"
  "runs_of k (Execute c # xs) = runs_of k xs"
  by (simp_all add: runs_of_def)

lemma runs_of_run_checks [simp]: "runs_of k (run_checks s j) = (if j = k then run_checks s k else [])"
proof -
  have "\<forall>x \<in> set (run_checks s j). is_run_of k x \<longleftrightarrow> j = k"
    by (auto simp: run_checks_def split: option.splits evaluation.splits)
  then show ?thesis by (auto simp: runs_of_def filter_id_conv filter_empty_conv)
qed

lemma notify_limits_runs [simp]: "runs_of k (snd (notify_limits j ns ls)) = []"
  by (induction ls arbitrary: ns) (auto simp: case_prod_unfold)

lemma runs_of_concat: "runs_of k (concat (map f es)) = concat (map (\<lambda>e. runs_of k (f e)) es)"
  by (induction es) simp_all

lemma remind_objective_runs [simp]: "runs_of k (snd (remind_objective u j ob)) = []"
  by (simp add: remind_objective_def case_prod_unfold)

lemma remind_budgets_runs [simp]: "runs_of k (snd (remind_budgets s)) = []"
  by (simp add: remind_budgets_def runs_of_concat)

lemma fire_one_runs:
  "runs_of k (snd (fire_one digest s oc)) = (if oc = OcEvaluationStarted k then run_checks s k else [])"
  by (cases oc) (auto simp: after_settle_def compact_when_idle_def Let_def
      split: option.split admission.split)

lemma run_checks_cong: "objectives s = objectives s' \<Longrightarrow> run_checks s = run_checks s'"
  by (simp add: run_checks_def fun_eq_iff)

lemma fire_runs:
  "OcUsageReported \<notin> set ocs \<Longrightarrow>
     runs_of k (snd (fire digest s ocs)) =
       concat (map (\<lambda>oc. if oc = OcEvaluationStarted k then run_checks s k else []) ocs)"
proof (induction ocs arbitrary: s)
  case (Cons oc ocs)
  then have "run_checks (fst (fire_one digest s oc)) = run_checks s"
    by (intro run_checks_cong fire_one_frame) auto
  with Cons show ?case by (simp add: fire_Cons fire_one_runs del: fire.simps(2) cong: if_cong)
qed simp

text \<open>Whether starting an evaluation of a revision starts one.\<close>

definition starts :: "digest \<Rightarrow> objective_state \<Rightarrow> string \<Rightarrow> bool" where
  "starts digest ob r \<longleftrightarrow>
     os_status ob = StOpen \<and> is_approved digest ob \<and>
     map_option evaluation_revision (os_evaluation ob) \<noteq> Some r"

text \<open>Which revision an event asks an objective to evaluate.\<close>

fun asks :: "event \<Rightarrow> string \<Rightarrow> string option" where
  "asks (Requested k r) j = (if j = k then Some r else None)"
| "asks (RevisionDelivered r) j = Some r"
| "asks _ j = None"

definition starts_on :: "digest \<Rightarrow> engine_state \<Rightarrow> event \<Rightarrow> string \<Rightarrow> bool" where
  "starts_on digest s e k =
     (case (bt_get (objectives s) k, asks e k) of
        (Some ob, Some r) \<Rightarrow> starts digest ob r | _ \<Rightarrow> False)"

lemma start_evaluation_eq:
  assumes "os_status ob = StOpen" "is_approved digest ob"
  shows "start_evaluation ob r =
    (if starts digest ob r
     then (ob\<lparr>os_evaluations := os_evaluations ob + 1,
              os_evaluation := Some (Running (os_evaluations ob) r [])\<rparr>,
           [OcEvaluationStarted (obj_key (os_definition ob))])
     else (ob, []))"
  using assms by (auto simp: start_evaluation_def starts_def split: option.split)

lemma concat_filter_map:
  "concat (map f (concat (map g (filter P (map snd m))))) =
     concat (map (\<lambda>e. if P (snd e) then concat (map f (g (snd e))) else []) m)"
  by (induction m) simp_all

lemma concat_at_key:
  "distinct (map fst m) \<Longrightarrow>
     concat (map (\<lambda>e. if fst e = k \<and> Q (snd e) then X else []) m) =
       (case map_of m k of None \<Rightarrow> [] | Some v \<Rightarrow> if Q v then X else [])"
proof (induction m)
  case (Cons e m)
  have "fst e = k \<Longrightarrow> map_of m k = None" using Cons.prems by (auto simp: map_of_eq_None_iff)
  then show ?case using Cons by (cases e) auto
qed simp

lemma delivered_runs:
  fixes m :: "(string, objective_state) btree"
  assumes "distinct (map fst m)" and key: "\<forall>e \<in> set m. obj_key (os_definition (snd e)) = fst e"
  shows "concat (map (\<lambda>oc. if oc = OcEvaluationStarted k then X else [])
      (concat (map (\<lambda>ob. snd (start_evaluation ob r))
        (filter (\<lambda>ob. os_status ob = StOpen \<and> is_approved digest ob) (map snd m))))) =
    (case map_of m k of None \<Rightarrow> [] | Some ob \<Rightarrow> if starts digest ob r then X else [])"
proof -
  have "(if os_status ob = StOpen \<and> is_approved digest ob
         then concat (map (\<lambda>oc. if oc = OcEvaluationStarted k then X else []) (snd (start_evaluation ob r)))
         else []) = (if obj_key (os_definition ob) = k \<and> starts digest ob r then X else [])" for ob
    using start_evaluation_eq [of ob digest r] by (auto simp: starts_def)
  with key have "map (\<lambda>e. if os_status (snd e) = StOpen \<and> is_approved digest (snd e)
      then concat (map (\<lambda>oc. if oc = OcEvaluationStarted k then X else []) (snd (start_evaluation (snd e) r)))
      else []) m = map (\<lambda>e. if fst e = k \<and> starts digest (snd e) r then X else []) m"
    by (intro map_cong refl) auto
  then show ?thesis
    unfolding concat_filter_map using concat_at_key [OF assms(1), where Q = "\<lambda>ob. starts digest ob r"] by (simp only:)
qed

lemma apply_event_runs:
  assumes "\<And>k r. e \<noteq> Requested k r" "\<And>r. e \<noteq> RevisionDelivered r"
  shows "OcEvaluationStarted k \<notin> set (snd (apply_event digest s e))"
  using assms
  by (cases e; auto simp: define_objective_def redefine_def approve_def
      finish_def settle_def close_objective_def open_objective_def ignored_def
      approval_required_def Let_def
      split: option.split sum.split evaluation.split status.split prod.splits if_splits)+

lemma open_approved_get:
  assumes "bt_get (objectives s) k = Some ob" "os_status ob = StOpen" "is_approved digest ob"
    and "obj_key (os_definition ob) = k"
  shows "request digest s k r =
    (put_objective s k (fst (start_evaluation ob r)), if starts digest ob r then [OcEvaluationStarted k] else [])"
  using assms by (simp add: request_def open_objective_def start_evaluation_eq)

lemma request_not_started:
  assumes "\<not> (\<exists>ob. bt_get (objectives s) k = Some ob \<and> os_status ob = StOpen \<and> is_approved digest ob)"
  shows "OcEvaluationStarted j \<notin> set (snd (request digest s k r))"
  using assms
  by (auto simp: request_def open_objective_def ignored_def approval_required_def split: option.split)

lemma inv_entries:
  "engine_inv digest D s \<Longrightarrow> distinct (map fst (objectives s)) \<and>
     (\<forall>e \<in> set (objectives s). obj_key (os_definition (snd e)) = fst e)"
  by (auto simp: engine_inv_def list_all_iff objective_wf_def bt_wf_distinct)

lemma react_objectives:
  "(\<And>u. e \<noteq> EvUsage u) \<Longrightarrow> objectives (fst (react digest s e)) = objectives (fst (apply_event digest s e))"
  using apply_event_frame(1) [of e digest s] fire_frame by (simp add: react_fire)

lemma react_runs_apply:
  assumes "\<And>u. e \<noteq> EvUsage u"
  shows "runs_of k (snd (react digest s e)) =
    concat (map (\<lambda>oc. if oc = OcEvaluationStarted k then run_checks (fst (react digest s e)) k else [])
      (snd (apply_event digest s e)))"
  using fire_runs [OF apply_event_frame(1) [OF assms]] run_checks_cong [OF react_objectives [OF assms]]
  by (simp add: react_fire cong: if_cong)

text \<open>A reaction asks for the runs of an objective exactly when it starts an evaluation of it.\<close>

lemma react_runs:
  assumes inv: "engine_inv digest D s"
  shows "runs_of k (snd (react digest s e)) =
    (if starts_on digest s e k then run_checks (fst (react digest s e)) k else [])"
proof (cases e)
  case (Requested j r)
  let ?P = "\<lambda>ob. bt_get (objectives s) j = Some ob \<and> os_status ob = StOpen \<and> is_approved digest ob"
  show ?thesis
  proof (cases "\<exists>ob. ?P ob")
    case True
    then obtain ob where ob: "?P ob" by blast
    with inv have key: "obj_key (os_definition ob) = j" by (auto simp: engine_inv_iff objective_wf_def)
    with ob Requested open_approved_get [of s j ob digest r] show ?thesis
      by (auto simp: react_runs_apply starts_on_def split: option.splits)
  next
    case False
    have "OcEvaluationStarted k \<notin> set (snd (request digest s j r))"
      using request_not_started [OF False] .
    moreover have "\<not> starts_on digest s e k"
      using False Requested by (auto simp: starts_on_def starts_def split: option.splits)
    ultimately show ?thesis using Requested by (auto simp: react_runs_apply)
  qed
next
  case (RevisionDelivered r)
  let ?X = "run_checks (fst (react digest s e)) k"
  have "runs_of k (snd (react digest s e)) =
      concat (map (\<lambda>oc. if oc = OcEvaluationStarted k then ?X else [])
        (concat (map (\<lambda>ob. snd (start_evaluation ob r))
          (filter (\<lambda>ob. os_status ob = StOpen \<and> is_approved digest ob) (map snd (objectives s))))))"
    using RevisionDelivered by (subst react_runs_apply) (simp_all add: deliver_def Let_def bt_values_def)
  also have "\<dots> = (case map_of (objectives s) k of None \<Rightarrow> []
      | Some ob \<Rightarrow> if starts digest ob r then ?X else [])"
    using inv_entries [OF inv] by (intro delivered_runs) simp_all
  finally show ?thesis using RevisionDelivered by (auto simp: starts_on_def bt_get_def split: option.split)
next
  case (EvUsage u)
  then show ?thesis by (simp add: react_fire fire_Cons starts_on_def del: fire.simps(2) split: option.split)
qed (auto simp: react_runs_apply starts_on_def apply_event_runs simp del: apply_event.simps
     split: option.split)

text \<open>The objective after a reaction that starts an evaluation of it.\<close>

lemma starts_on_state:
  assumes inv: "engine_inv digest D s" and st: "starts_on digest s e k"
  obtains ob r where "bt_get (objectives s) k = Some ob" "asks e k = Some r" "starts digest ob r"
    "bt_get (objectives (fst (react digest s e))) k =
       Some (ob\<lparr>os_evaluations := os_evaluations ob + 1,
                os_evaluation := Some (Running (os_evaluations ob) r [])\<rparr>)"
proof -
  from st obtain ob r where ob: "bt_get (objectives s) k = Some ob" "asks e k = Some r" "starts digest ob r"
    by (auto simp: starts_on_def split: option.splits)
  then have live: "os_status ob = StOpen" "is_approved digest ob" by (simp_all add: starts_def)
  have "obj_key (os_definition ob) = k" using inv ob by (auto simp: engine_inv_iff objective_wf_def)
  then have "bt_get (objectives (fst (react digest s e))) k = Some (fst (start_evaluation ob r))"
    using ob live open_approved_get [of s k ob digest r]
    by (cases e) (auto simp: react_objectives deliver_def Let_def split: if_splits)
  with ob live that show ?thesis by (simp add: start_evaluation_eq [where digest = digest])
qed

lemma run_checks_distinct:
  assumes "engine_inv digest D s" shows "distinct (run_checks s k)"
proof (cases "bt_get (objectives s) k")
  case (Some ob)
  with assms have d: "distinct (map check_id (obj_checks (os_definition ob)))"
    by (auto simp: engine_inv_iff objective_wf_def valid_checks_distinct)
  have "distinct (concat (map (\<lambda>c. map (\<lambda>n. RunCheck k i (check_id c) r (word_of_nat n))
      [0..<unat (config_samples (check_cfg c))]) cs))"
    if "distinct (map check_id cs)" for cs i r
    using that
  proof (induction cs)
    case (Cons c cs)
    have "inj_on (\<lambda>n. RunCheck k i (check_id c) r (word_of_nat n)) {0..<unat (config_samples (check_cfg c))}"
      using unsigned_less [where ?'a = nat, of "config_samples (check_cfg c)"]
      by (auto simp: inj_on_def word_of_nat_eq_iff take_bit_nat_eq_self)
    with Cons show ?case by (auto simp: distinct_map)
  qed simp
  with d Some show ?thesis by (auto simp: run_checks_def split: option.split evaluation.split)
qed (simp add: run_checks_def)

end
