(* ===== verification/Objective_Completion.thy ===== *)
theory Objective_Completion
  imports Objective_Runs
begin

text \<open>
  A started evaluation completes: once every sample it asked for has been reported, in any order
  and with any number of repeated, unknown or out-of-range reports in between, the evaluation is
  ready, and its results are determined by what the samples were, not by when they arrived.
\<close>

section \<open>Samples by index\<close>

lemma words_below: "{n :: 'w::len word. n < N} = word_of_nat ` {0..<unat N}"
proof
  show "{n. n < N} \<subseteq> word_of_nat ` {0..<unat N}"
  proof
    fix n :: "'w word" assume "n \<in> {n. n < N}"
    then have "unat n \<in> {0..<unat N}" by (simp add: word_less_nat_alt)
    then show "n \<in> word_of_nat ` {0..<unat N}" by (intro image_eqI [where x = "unat n"]) simp_all
  qed
  show "word_of_nat ` {0..<unat N} \<subseteq> {n. n < N}"
    by (auto simp: word_less_nat_alt unat_of_nat intro: le_less_trans [OF mod_less_eq_dividend])
qed

lemma unat_word_of_nat_below: "n < unat (N :: 'w::len word) \<Longrightarrow> unat (word_of_nat n :: 'w word) = n"
  using unsigned_less [where ?'a = nat, of N] by (simp add: unat_of_nat less_trans [of n "unat N"])

lemma inj_word_below: "inj_on (word_of_nat :: nat \<Rightarrow> 'w::len word) {0..<unat (N :: 'w word)}"
  by (rule inj_onI) (metis atLeastLessThan_iff unat_word_of_nat_below)

lemma card_words_below: "card {n :: 'w::len word. n < N} = unat N"
  by (simp add: words_below card_image inj_word_below)

definition samples_in_order :: "(string \<Rightarrow> u32 \<Rightarrow> sample_output) \<Rightarrow> check_definition \<Rightarrow> sample_output list" where
  "samples_in_order outs c =
     map (\<lambda>n. outs (check_id c) (word_of_nat n)) [0..<unat (config_samples (check_cfg c))]"

definition all_received ::
  "(string, (u32, sample_output) btree) btree \<Rightarrow> check_definition \<Rightarrow> bool" where
  "all_received smps c \<longleftrightarrow>
     (\<forall>n. n < config_samples (check_cfg c) \<longrightarrow> bt_get (received smps (check_id c)) n \<noteq> None)"

lemma received_keys:
  assumes "samples_wf d smps" "definition_check d (check_id c) = Some c"
  shows "fst ` set (received smps (check_id c)) \<subseteq> {n. n < config_samples (check_cfg c)}"
  using samples_wf_received [OF assms] bt_get_entries [OF received_wf [OF assms(1)]] by fastforce

text \<open>The number of samples received is the number asked for exactly when each index was received.\<close>

lemma complete_iff_all_received:
  assumes wf: "samples_wf d smps" and c: "definition_check d (check_id c) = Some c"
  shows "length (received smps (check_id c)) = unat (config_samples (check_cfg c)) \<longleftrightarrow> all_received smps c"
proof -
  let ?m = "received smps (check_id c)" and ?N = "{n. n < config_samples (check_cfg c)}"
  have bw: "bt_wf ?m" by (rule received_wf [OF wf])
  have fin: "finite ?N" by (simp add: words_below)
  have len: "length ?m = card (fst ` set ?m)"
    using bt_wf_distinct [OF bw] distinct_card by fastforce
  have all: "all_received smps c \<longleftrightarrow> ?N \<subseteq> fst ` set ?m"
    using bt_get_entries [OF bw] by (force simp: all_received_def)
  show ?thesis
    using received_keys [OF wf c] card_subset_eq [OF fin received_keys [OF wf c]] card_words_below
    by (metis all len order_antisym order_refl)
qed

lemma sorted_words_below: "sorted_wrt (<) (map (word_of_nat :: nat \<Rightarrow> 'w::len word) [0..<unat (N :: 'w word)])"
proof -
  have "(word_of_nat i :: 'w word) < word_of_nat j" if "i < j" "j < unat N" for i j
    using that unat_word_of_nat_below [of i N] unat_word_of_nat_below [of j N]
    by (simp add: word_less_nat_alt)
  then show ?thesis by (simp add: sorted_wrt_iff_nth_less)
qed

text \<open>What an index was answered with, for samples that all come from \<open>outs\<close>.\<close>

definition consistent ::
  "(string \<Rightarrow> u32 \<Rightarrow> sample_output) \<Rightarrow> (string, (u32, sample_output) btree) btree \<Rightarrow> bool" where
  "consistent outs smps \<longleftrightarrow> (\<forall>i n out. bt_get (received smps i) n = Some out \<longrightarrow> out = outs i n)"

lemma received_in_order:
  assumes wf: "samples_wf d smps" and c: "definition_check d (check_id c) = Some c"
    and con: "consistent outs smps" and all: "all_received smps c"
  shows "bt_values (received smps (check_id c)) = samples_in_order outs c"
proof -
  let ?N = "config_samples (check_cfg c)"
  let ?l = "map (\<lambda>n. (word_of_nat n :: u32, outs (check_id c) (word_of_nat n))) [0..<unat ?N]"
  have keys: "map fst ?l = map word_of_nat [0..<unat ?N]" by simp
  have lw: "bt_wf ?l" using sorted_words_below [of ?N] by (simp add: bt_wf_def keys comp_def)
  have "bt_get (received smps (check_id c)) n = bt_get ?l n" for n
  proof (cases "n < ?N")
    case True
    then have "(n, outs (check_id c) n) \<in> set ?l"
      using words_below [of ?N] by (auto simp: image_iff)
    then have "bt_get ?l n = Some (outs (check_id c) n)" using bt_get_entries [OF lw] by blast
    moreover have "bt_get (received smps (check_id c)) n = Some (outs (check_id c) n)"
      using True all con by (auto simp: all_received_def consistent_def)
    ultimately show ?thesis by simp
  next
    case False
    then have "n \<notin> fst ` set ?l" using words_below [of ?N] by (auto simp: image_iff)
    then have "bt_get ?l n = None" by (simp add: bt_get_def map_of_eq_None_iff)
    moreover have "bt_get (received smps (check_id c)) n = None"
      using False samples_wf_received [OF wf c] by (cases "bt_get (received smps (check_id c)) n") auto
    ultimately show ?thesis by simp
  qed
  then have "received smps (check_id c) = ?l" by (intro bt.entries_eqI received_wf [OF wf] lw)
  then show ?thesis by (simp add: bt_values_def samples_in_order_def comp_def)
qed

definition full_results :: "objective_definition \<Rightarrow> (string \<Rightarrow> u32 \<Rightarrow> sample_output) \<Rightarrow> results" where
  "full_results d outs =
     bt_collect (map (\<lambda>c. (check_id c, projr (config_combine (check_cfg c) (samples_in_order outs c))))
       (obj_checks d))"

lemma combined_full_results:
  assumes v: "definition_validate d = []" and wf: "samples_wf d smps"
    and full: "samples_complete (obj_checks d) smps" and con: "consistent outs smps"
  shows "combined_results (obj_checks d) smps = full_results d outs"
proof -
  have "combined_output smps c = projr (config_combine (check_cfg c) (samples_in_order outs c))"
    if c: "c \<in> set (obj_checks d)" for c
  proof -
    have dc: "definition_check d (check_id c) = Some c" using v c by (rule definition_check_mem)
    then have "all_received smps c"
      using full c complete_iff_all_received [OF wf dc] by (simp add: samples_complete_def list_all_iff)
    then show ?thesis by (simp add: combined_output_def received_in_order [OF wf dc con])
  qed
  then show ?thesis
    by (simp add: combined_results_complete [OF v wf full] full_results_def cong: map_cong)
qed

section \<open>Reporting samples\<close>

definition report :: "string \<Rightarrow> evaluation_id \<Rightarrow> string \<Rightarrow> (string \<Rightarrow> u32 \<Rightarrow> sample_output) \<Rightarrow> string \<times> u32 \<Rightarrow> event" where
  "report k i r outs p = CheckFinished k i (fst p) r (snd p) (outs (fst p) (snd p))"

text \<open>The samples still to come are among \<open>ps\<close>, or the evaluation is ready with the full results.\<close>

definition awaits ::
  "engine_state \<Rightarrow> string \<Rightarrow> objective_definition \<Rightarrow> ledger \<Rightarrow> evaluation_id \<Rightarrow> string \<Rightarrow>
     (string \<Rightarrow> u32 \<Rightarrow> sample_output) \<Rightarrow> (string \<times> u32) list \<Rightarrow> bool" where
  "awaits s k d l i r outs ps \<longleftrightarrow>
     (\<exists>ob. bt_get (objectives s) k = Some ob \<and> os_definition ob = d \<and> os_ledger ob = l \<and>
        ((\<exists>smps. os_evaluation ob = Some (Running i r smps) \<and> consistent outs smps \<and>
            (\<forall>c \<in> set (obj_checks d). \<forall>n. n < config_samples (check_cfg c) \<longrightarrow>
               bt_get (received smps (check_id c)) n \<noteq> None \<or> (check_id c, n) \<in> set ps)) \<or>
         os_evaluation ob = Some (Ready i r (full_results d outs)
           (keepable d (baseline_or_empty l) (full_results d outs)))))"

lemma report_objectives:
  "objectives (fst (react digest s (report k i r outs p))) =
     objectives (fst (finish s k i (fst p) r (snd p) (outs (fst p) (snd p))))"
  by (subst react_objectives) (simp_all add: report_def)

lemma consistent_add:
  "consistent outs smps \<Longrightarrow> consistent outs (add_sample i n (outs i n) smps)"
  by (auto simp: consistent_def received_add_sample)

lemma finish_stale:
  "bt_get (objectives s) k = Some ob \<Longrightarrow> os_evaluation ob = Some (Ready i' r' res v) \<Longrightarrow>
     fst (finish s k i c r n out) = s"
  by (cases "os_status ob = StOpen") (simp_all add: finish_def open_objective_def)

lemma finish_running:
  assumes "bt_get (objectives s) k = Some ob" "os_status ob = StOpen"
    and "os_evaluation ob = Some (Running i r smps)"
  shows "fst (finish s k i c r n out) =
    (case definition_check (os_definition ob) c of
       None \<Rightarrow> s
     | Some cd \<Rightarrow>
         if n < config_samples (check_cfg cd) \<and> config_accepts (check_cfg cd) out \<and>
            bt_get (received smps c) n = None
         then put_objective s k
           (if samples_complete (obj_checks (os_definition ob)) (add_sample c n out smps)
            then let res = combined_results (obj_checks (os_definition ob)) (add_sample c n out smps);
                     v = keepable (os_definition ob) (baseline_or_empty (os_ledger ob)) res
                 in ob\<lparr>os_latest_verdict := Some v, os_evaluation := Some (Ready i r res v)\<rparr>
            else ob\<lparr>os_evaluation := Some (Running i r (add_sample c n out smps))\<rparr>)
         else s)"
  using assms
  by (auto simp: finish_def open_objective_def Let_def add_sample_def baseline_or_empty_def
      not_le split: option.split)

text \<open>A report either changes nothing, because nothing was missing there, or adds the sample.\<close>

lemma report_cases:
  assumes wf: "objective_wf digest D k ob" and ob: "bt_get (objectives s) k = Some ob"
    and d: "os_definition ob = d" and l: "os_ledger ob = l"
    and smps: "os_evaluation ob = Some (Running i r smps)"
    and outs: "\<forall>c \<in> set (obj_checks d). \<forall>n. n < config_samples (check_cfg c) \<longrightarrow>
        config_accepts (check_cfg c) (outs (check_id c) n)"
    and s': "s' = fst (react digest s (report k i r outs (j, n)))"
    and smps': "smps' = add_sample j n (outs j n) smps"
    and res: "res = combined_results (obj_checks d) smps'"
    and v: "v = keepable d (baseline_or_empty l) res"
  obtains (kept) "objectives s' = objectives s"
      "\<And>c. c \<in> set (obj_checks d) \<Longrightarrow> check_id c = j \<Longrightarrow> n < config_samples (check_cfg c) \<Longrightarrow>
         bt_get (received smps j) n \<noteq> None"
    | (ready) "bt_get (objectives s') k =
         Some (ob\<lparr>os_latest_verdict := Some v, os_evaluation := Some (Ready i r res v)\<rparr>)"
      "samples_complete (obj_checks d) smps'" "samples_wf d smps'"
    | (more) "bt_get (objectives s') k = Some (ob\<lparr>os_evaluation := Some (Running i r smps')\<rparr>)"
proof (cases "definition_check d j")
  case None
  have val: "definition_validate d = []" using wf d by (simp add: objective_wf_def)
  have op: "os_status ob = StOpen" using wf smps by (simp add: objective_wf_def)
  have "\<forall>c \<in> set (obj_checks d). check_id c \<noteq> j" using None definition_check_mem [OF val] by force
  with None show thesis
    using kept finish_running [OF ob op smps] s' d by (simp add: report_objectives)
next
  case (Some c)
  have val: "definition_validate d = []" using wf d by (simp add: objective_wf_def)
  have op: "os_status ob = StOpen" and swf: "samples_wf d smps"
    using wf smps d by (simp_all add: objective_wf_def evaluation_wf_def Let_def)
  have c: "c \<in> set (obj_checks d)" "check_id c = j" using Some definition_check_SomeD by blast+
  have u: "c' = c" if "c' \<in> set (obj_checks d)" "check_id c' = j" for c'
    using definition_check_mem [OF val that(1)] that(2) Some by simp
  show thesis
  proof (cases "n < config_samples (check_cfg c) \<and> bt_get (received smps j) n = None")
    case True
    then have "config_accepts (check_cfg c) (outs j n)" using outs c by auto
    with True Some ready more finish_running [OF ob op smps] d l s' smps' res v
      samples_wf_add [OF swf Some, of n "outs j n"]
    show thesis
      by (cases "samples_complete (obj_checks d) smps'") (simp_all add: report_objectives Let_def)
  next
    case False
    with u Some kept finish_running [OF ob op smps] d s' show thesis
      by (auto simp: report_objectives)
  qed
qed

lemma awaits_step:
  assumes inv: "engine_inv digest D s" and aw: "awaits s k d l i r outs (p # ps)"
    and outs: "\<forall>c \<in> set (obj_checks d). \<forall>n. n < config_samples (check_cfg c) \<longrightarrow>
        config_accepts (check_cfg c) (outs (check_id c) n)"
  shows "awaits (fst (react digest s (report k i r outs p))) k d l i r outs ps"
proof -
  obtain j n where p: "p = (j, n)" by (cases p)
  from aw obtain ob where ob: "bt_get (objectives s) k = Some ob" "os_definition ob = d" "os_ledger ob = l"
    and ev: "(\<exists>smps. os_evaluation ob = Some (Running i r smps) \<and> consistent outs smps \<and>
            (\<forall>c \<in> set (obj_checks d). \<forall>n. n < config_samples (check_cfg c) \<longrightarrow>
               bt_get (received smps (check_id c)) n \<noteq> None \<or> (check_id c, n) \<in> set (p # ps))) \<or>
         os_evaluation ob = Some (Ready i r (full_results d outs)
           (keepable d (baseline_or_empty l) (full_results d outs)))"
    by (auto simp: awaits_def)
  from inv ob have wf: "objective_wf digest D k ob" by (simp add: engine_inv_iff)
  show ?thesis
  proof (cases "\<exists>smps. os_evaluation ob = Some (Running i r smps)")
    case False
    with ev ob show ?thesis by (auto simp: awaits_def report_objectives finish_stale)
  next
    case True
    then obtain smps where smps: "os_evaluation ob = Some (Running i r smps)" "consistent outs smps"
      and cover: "\<forall>c \<in> set (obj_checks d). \<forall>n. n < config_samples (check_cfg c) \<longrightarrow>
               bt_get (received smps (check_id c)) n \<noteq> None \<or> (check_id c, n) \<in> set (p # ps)"
      using ev by auto
    show ?thesis
    proof (cases rule: report_cases [OF wf ob smps(1) outs refl refl refl refl, where j = j and n = n])
      case 1
      with cover ob smps p show ?thesis by (fastforce simp: awaits_def)
    next
      case 2
      then have "combined_results (obj_checks d) (add_sample j n (outs j n) smps) = full_results d outs"
        using combined_full_results consistent_add [OF smps(2)] wf ob(2) by (simp add: objective_wf_def)
      with 2 ob p show ?thesis by (simp add: awaits_def)
    next
      case 3
      then show ?thesis
        using cover ob smps p consistent_add [OF smps(2), of j n]
        by (fastforce simp: awaits_def received_add_sample)
    qed
  qed
qed

lemma awaits_run:
  assumes "engine_inv digest D s" "awaits s k d l i r outs ps"
    and "\<forall>c \<in> set (obj_checks d). \<forall>n. n < config_samples (check_cfg c) \<longrightarrow>
        config_accepts (check_cfg c) (outs (check_id c) n)"
  shows "awaits (fst (run_log (react digest) s (map (report k i r outs) ps))) k d l i r outs []"
  using assms(1,2)
proof (induction ps arbitrary: s)
  case (Cons p ps)
  have "event_ok D (report k i r outs p)" by (simp add: event_ok_def report_def)
  with Cons show ?case
    by (simp add: run_log_Cons react_inv awaits_step [OF _ _ assms(3)] del: run_log.simps(2))
qed simp

text \<open>When no sample is awaited the evaluation is ready.\<close>

lemma awaits_Nil:
  assumes inv: "engine_inv digest D s" and aw: "awaits s k d l i r outs []"
  shows "\<exists>ob. bt_get (objectives s) k = Some ob \<and>
    os_evaluation ob = Some (Ready i r (full_results d outs)
      (keepable d (baseline_or_empty l) (full_results d outs)))"
proof (rule ccontr)
  assume "\<not> ?thesis"
  with aw obtain ob smps where ob: "bt_get (objectives s) k = Some ob" "os_definition ob = d"
    and smps: "os_evaluation ob = Some (Running i r smps)"
    and cover: "\<forall>c \<in> set (obj_checks d). all_received smps c"
    by (auto simp: awaits_def all_received_def)
  from inv ob have wf: "objective_wf digest D k ob" by (simp add: engine_inv_iff)
  then have v: "definition_validate d = []" and swf: "samples_wf d smps"
    and inc: "\<not> samples_complete (obj_checks d) smps"
    using ob smps by (simp_all add: objective_wf_def evaluation_wf_def Let_def)
  have "length (received smps (check_id c)) = unat (config_samples (check_cfg c))"
    if "c \<in> set (obj_checks d)" for c
    using complete_iff_all_received [OF swf definition_check_mem [OF v that]] cover that by simp
  with inc show False by (simp add: samples_complete_def list_all_iff)
qed

end
