(* ===== verification/Objective_Counters.thy ===== *)
theory Objective_Counters
  imports Objective_Runs
begin

text \<open>
  The engine's counters over a log of events: evaluation identifiers of one objective, sequence
  numbers of compactions (an instance of \<open>numbered_machine\<close>) and the notified budget limits.
\<close>

section \<open>Evaluation identifiers\<close>

definition evaluations_of :: "engine_state \<Rightarrow> string \<Rightarrow> nat" where
  "evaluations_of s k =
     (case bt_get (objectives s) k of None \<Rightarrow> 0 | Some ob \<Rightarrow> unat (os_evaluations ob))"

lemma objective_step_evaluations:
  "objective_step digest D u k ob ob' \<Longrightarrow>
     os_evaluations ob' = os_evaluations ob \<or> os_evaluations ob' = os_evaluations ob + 1"
  by (erule objective_step.cases)
    (auto simp: redefine_def start_evaluation_def Let_def remind_objective_def split: prod.split)

lemma unat_succ_below: "Suc (unat a) < 2 ^ LENGTH('w) \<Longrightarrow> unat (a + 1 :: 'w::len word) = Suc (unat a)"
  by (rule unat_succ_word) (auto simp: unsigned_minus_1_eq_mask mask_eq_exp_minus_1)

lemma react_evaluations:
  assumes ok: "event_ok D e" and bound: "Suc (evaluations_of s k) < 2 ^ 64"
  shows "evaluations_of s k \<le> evaluations_of (fst (react digest s e)) k"
    and "evaluations_of (fst (react digest s e)) k \<le> Suc (evaluations_of s k)"
proof -
  let ?s' = "fst (react digest s e)"
  have "evaluations_of ?s' k = evaluations_of s k \<or> evaluations_of ?s' k = Suc (evaluations_of s k)"
  proof (cases "bt_get (objectives s) k")
    case None
    from evolves_None [OF react_evolves [OF ok] None, of digest] None show ?thesis
      by (auto simp: evaluations_of_def new_objective_def)
  next
    case (Some ob)
    from evolves_Some [OF react_evolves [OF ok] Some, of digest] obtain ob' where
      "bt_get (objectives ?s') k = Some ob'"
      "os_evaluations ob' = os_evaluations ob \<or> os_evaluations ob' = os_evaluations ob + 1"
      using objective_step_evaluations by blast
    with Some bound unat_succ_below [of "os_evaluations ob"] show ?thesis
      by (auto simp: evaluations_of_def)
  qed
  then show "evaluations_of s k \<le> evaluations_of ?s' k" "evaluations_of ?s' k \<le> Suc (evaluations_of s k)"
    by auto
qed

lemma run_evaluations:
  "list_all (event_ok D) es \<Longrightarrow> evaluations_of s k + length es < 2 ^ 64 \<Longrightarrow>
     evaluations_of s k \<le> evaluations_of (fst (run_log (react digest) s es)) k \<and>
     evaluations_of (fst (run_log (react digest) s es)) k \<le> evaluations_of s k + length es"
proof (induction es arbitrary: s)
  case (Cons e es)
  then have "evaluations_of s k \<le> evaluations_of (fst (react digest s e)) k"
    "evaluations_of (fst (react digest s e)) k \<le> Suc (evaluations_of s k)"
    by (auto intro!: react_evaluations)
  with Cons.IH [of "fst (react digest s e)"] Cons.prems show ?case
    by (simp add: run_log_Cons del: run_log.simps(2))
qed simp

text \<open>The identifier of the runs a reaction asks for is the number of evaluations before it.\<close>

lemma run_identifier:
  assumes inv: "engine_inv digest D s" and run: "RunCheck k i c r n \<in> set (snd (react digest s e))"
  shows "unat i = evaluations_of s k \<and> starts_on digest s e k"
proof -
  from run have in_runs: "RunCheck k i c r n \<in> set (runs_of k (snd (react digest s e)))"
    by (simp add: runs_of_def)
  then have st: "starts_on digest s e k" by (simp add: react_runs [OF inv] split: if_splits)
  then obtain ob where "bt_get (objectives s) k = Some ob"
    "\<exists>r. bt_get (objectives (fst (react digest s e))) k =
       Some (ob\<lparr>os_evaluations := os_evaluations ob + 1,
                os_evaluation := Some (Running (os_evaluations ob) r [])\<rparr>)"
    by (rule starts_on_state [OF inv]) blast
  with in_runs st show ?thesis
    by (auto simp: react_runs [OF inv] run_checks_def evaluations_of_def)
qed

lemma starts_on_evaluations:
  assumes inv: "engine_inv digest D s" and st: "starts_on digest s e k"
    and bound: "Suc (evaluations_of s k) < 2 ^ 64"
  shows "evaluations_of (fst (react digest s e)) k = Suc (evaluations_of s k)"
proof -
  from st obtain ob where "bt_get (objectives s) k = Some ob"
    "\<exists>r. bt_get (objectives (fst (react digest s e))) k =
       Some (ob\<lparr>os_evaluations := os_evaluations ob + 1,
                os_evaluation := Some (Running (os_evaluations ob) r [])\<rparr>)"
    by (rule starts_on_state [OF inv]) blast
  with bound unat_succ_below [of "os_evaluations ob"] show ?thesis by (auto simp: evaluations_of_def)
qed

section \<open>Compactions\<close>

fun compaction_of :: "intent \<Rightarrow> compact option" where
  "compaction_of (Execute (CompactCall c)) = Some c"
| "compaction_of _ = None"

definition compactions_in :: "intent list \<Rightarrow> compact list" where
  "compactions_in = List.map_filter compaction_of"

lemma compactions_in_simps [simp]:
  "compactions_in [] = []"
  "compactions_in (xs @ ys) = compactions_in xs @ compactions_in ys"
  "compactions_in (Notify n # xs) = compactions_in xs"
  "compactions_in (RunCheck k i c r j # xs) = compactions_in xs"
  "compactions_in (Execute (CompactCall call) # xs) = call # compactions_in xs"
  by (simp_all add: compactions_in_def map_filter_append map_filter_simps)

lemma compactions_in_concat: "compactions_in (concat (map f xs)) = concat (map (\<lambda>x. compactions_in (f x)) xs)"
  by (induction xs) simp_all

lemma compactions_in_map_run: "compactions_in (map (\<lambda>n. RunCheck k i c r (f n)) ns) = []"
  by (induction ns) simp_all

lemma compactions_in_run_checks [simp]: "compactions_in (run_checks s k) = []"
  by (auto simp: run_checks_def compactions_in_concat compactions_in_map_run
      split: option.split evaluation.split)

lemma compactions_in_notify [simp]: "compactions_in (snd (notify_limits k ns ls)) = []"
  by (induction ls arbitrary: ns) (auto simp: case_prod_unfold)

lemma compactions_in_remind [simp]: "compactions_in (snd (remind_budgets s)) = []"
  by (simp add: remind_budgets_def remind_objective_def compactions_in_concat case_prod_unfold)

definition compact_call :: "digest \<Rightarrow> engine_state \<Rightarrow> compact" where
  "compact_call digest s =
     \<lparr>compact_sequence = compactions s,
      compact_payload = \<lparr>brief_objectives =
        map (\<lambda>ob. objective_brief_new digest (os_definition ob) (os_ledger ob) (os_latest_verdict ob))
          (bt_values (objectives s))\<rparr>\<rparr>"

lemma compact_when_idle_eq:
  "compact_when_idle digest s n =
     (if pending_compact s \<and> n = 0
      then (s\<lparr>pending_compact := False, compactions := compactions s + 1\<rparr>,
            [Execute (CompactCall (compact_call digest s))])
      else (s, []))"
proof -
  let ?a = "admit compact_authority compact_admission (compact_call digest s)
    \<lparr>host_idle = True, host_queue_len = n\<rparr> False"
  have "?a = AReady \<longleftrightarrow> n = 0"
    unfolding compact_cmd.admit_ready_iff by (simp add: compact_authority_def requires_user_approval_def)
  then show ?thesis
    by (cases ?a) (auto simp: compact_when_idle_def compact_call_def [symmetric])
qed

lemma remind_budgets_frame [simp]:
  "pending_compact (fst (remind_budgets s)) = pending_compact s"
  "compactions (fst (remind_budgets s)) = compactions s"
  by (simp_all add: remind_budgets_def)

lemma fire_one_compactions:
  assumes "\<And>n. oc \<noteq> OcHostIdle n"
  shows "compactions_in (snd (fire_one digest s oc)) = [] \<and>
         compactions (fst (fire_one digest s oc)) = compactions s \<and>
         (pending_compact s \<longrightarrow> pending_compact (fst (fire_one digest s oc)))"
  using assms by (cases oc) (auto simp: after_settle_def split: option.split)

lemma fire_compactions:
  assumes "\<And>n. OcHostIdle n \<notin> set ocs"
  shows "compactions_in (snd (fire digest s ocs)) = [] \<and>
         compactions (fst (fire digest s ocs)) = compactions s \<and>
         (pending_compact s \<longrightarrow> pending_compact (fst (fire digest s ocs)))"
  using assms
proof (induction ocs arbitrary: s)
  case (Cons oc ocs)
  then have "\<And>n. oc \<noteq> OcHostIdle n" by auto
  from fire_one_compactions [OF this, of digest s] Cons.IH [of "fst (fire_one digest s oc)"] Cons.prems
  show ?case by (simp add: fire_Cons del: fire.simps(2))
qed simp

lemma apply_event_compactions:
  assumes "\<And>n. e \<noteq> EvHostIdle n"
  shows "OcHostIdle n \<notin> set (snd (apply_event digest s e))"
    and "compactions (fst (apply_event digest s e)) = compactions s"
    and "pending_compact (fst (apply_event digest s e)) = pending_compact s"
  using assms
  by (cases e; auto simp: define_objective_def redefine_def approve_def request_def deliver_def
      finish_def settle_def close_objective_def start_evaluation_def open_objective_def ignored_def
      approval_required_def Let_def put_objective_def
      split: option.split sum.split evaluation.split status.split prod.splits if_splits)+

lemma react_host_idle: "react digest s (EvHostIdle n) = compact_when_idle digest s n"
  by (simp add: react_fire case_prod_unfold)

text \<open>Only an idle report can execute a compaction, and nothing else takes a pending one back.\<close>

lemma react_compactions:
  assumes "\<And>n. e \<noteq> EvHostIdle n"
  shows "compactions_in (snd (react digest s e)) = [] \<and>
         compactions (fst (react digest s e)) = compactions s \<and>
         (pending_compact s \<longrightarrow> pending_compact (fst (react digest s e)))"
  using fire_compactions [of "snd (apply_event digest s e)" digest "fst (apply_event digest s e)"]
    apply_event_compactions [OF assms]
  by (simp add: react_fire)

interpretation compacting: numbered_machine "react digest" compactions
  "\<lambda>x. map_option compact_sequence (compaction_of x)" for digest
proof
  fix s e
  let ?f = "\<lambda>x. map_option compact_sequence (compaction_of x)"
  have mf: "List.map_filter ?f xs = map compact_sequence (compactions_in xs)" for xs
    by (induction xs) (auto simp: compactions_in_def map_filter_simps split: option.split)
  show "\<exists>n. List.map_filter ?f (snd (react digest s e)) =
        map (\<lambda>i. compactions s + word_of_nat i) [0..<n] \<and>
      compactions (fst (react digest s e)) = compactions s + word_of_nat n"
  proof (cases "\<exists>n. e = EvHostIdle n")
    case True
    then obtain n where e: "e = EvHostIdle n" by blast
    show ?thesis
      by (cases "pending_compact s \<and> n = 0")
        (auto simp: e mf react_host_idle compact_when_idle_eq compact_call_def
          intro: exI [where x = 1] exI [where x = 0])
  next
    case False
    with react_compactions [of e digest s] show ?thesis
      by (intro exI [where x = 0]) (simp add: mf)
  qed
qed

section \<open>Budget notices\<close>

definition notified :: "engine_state \<Rightarrow> string \<Rightarrow> budget_limit \<Rightarrow> bool" where
  "notified s k bl =
     (case bt_get (objectives s) k of None \<Rightarrow> False | Some ob \<Rightarrow> bl \<in> os_budget_notified ob)"

definition notices_of :: "string \<Rightarrow> budget_limit \<Rightarrow> intent list \<Rightarrow> nat" where
  "notices_of k bl is = count_list is (Notify (BudgetExhausted k bl))"

lemma notices_of_append: "notices_of k bl (xs @ ys) = notices_of k bl xs + notices_of k bl ys"
  by (simp add: notices_of_def count_list_append)

lemma exhausted_distinct: "distinct (exhausted b u)"
  by (simp add: exhausted_def)

lemma notify_limits_eq:
  "distinct ls \<Longrightarrow> notify_limits k ns ls =
     (ns \<union> set ls, map (\<lambda>l. Notify (BudgetExhausted k l)) (filter (\<lambda>l. l \<notin> ns) ls))"
proof (induction ls arbitrary: ns)
  case (Cons l ls)
  then have "filter (\<lambda>x. x \<notin> insert l ns) ls = filter (\<lambda>x. x \<notin> ns) ls"
    by (intro filter_cong) auto
  with Cons show ?case by auto
qed simp

lemma count_list_concat: "count_list (concat (map f xs)) y = sum_list (map (\<lambda>x. count_list (f x) y) xs)"
  by (induction xs) (simp_all add: count_list_append)

lemma sum_list_at_key:
  "distinct (map fst m) \<Longrightarrow>
     sum_list (map (\<lambda>e. if fst e = k then f (snd e) else 0) m) =
       (case map_of m k of None \<Rightarrow> (0 :: nat) | Some v \<Rightarrow> f v)"
proof (induction m)
  case (Cons e m)
  have "fst e = k \<Longrightarrow> map_of m k = None" using Cons.prems by (auto simp: map_of_eq_None_iff)
  then show ?case using Cons by (cases e) auto
qed simp

lemma count_notices:
  "distinct ls \<Longrightarrow> count_list (map (\<lambda>l. Notify (BudgetExhausted j l)) (filter P ls)) (Notify (BudgetExhausted k bl)) =
     (if j = k \<and> bl \<in> set ls \<and> P bl then 1 else 0)"
  by (induction ls) auto

lemma remind_objective_notices:
  "count_list (snd (remind_objective u j ob)) (Notify (BudgetExhausted k bl)) =
     (if j = k then of_bool (bl \<in> os_budget_notified (fst (remind_objective u k ob))) -
                    of_bool (bl \<in> os_budget_notified ob) else 0)"
  by (auto simp: remind_objective_def notify_limits_eq exhausted_distinct count_notices)

lemma remind_objective_keeps: "bl \<in> os_budget_notified ob \<Longrightarrow> bl \<in> os_budget_notified (fst (remind_objective u k ob))"
  by (simp add: remind_objective_def notify_limits_eq exhausted_distinct)

lemma remind_budgets_notices:
  assumes "distinct (map fst (objectives s))"
  shows "notices_of k bl (snd (remind_budgets s)) + of_bool (notified s k bl) =
    of_bool (notified (fst (remind_budgets s)) k bl)"
proof -
  let ?g = "\<lambda>ob. of_bool (bl \<in> os_budget_notified (fst (remind_objective (st_usage s) k ob))) -
                 of_bool (bl \<in> os_budget_notified ob) :: nat"
  have "notices_of k bl (snd (remind_budgets s)) =
      sum_list (map (\<lambda>e. if fst e = k then ?g (snd e) else 0) (objectives s))"
    by (simp add: notices_of_def remind_budgets_def count_list_concat remind_objective_notices)
  also have "\<dots> = (case bt_get (objectives s) k of None \<Rightarrow> 0 | Some ob \<Rightarrow> ?g ob)"
    using sum_list_at_key [OF assms, where k = k and f = ?g] by (simp add: bt_get_def)
  finally show ?thesis
    using remind_objective_keeps [of bl]
    by (auto simp: notified_def remind_budgets_def split: option.split)
qed

lemma fire_one_notices:
  "oc \<noteq> OcUsageReported \<Longrightarrow> notices_of k bl (snd (fire_one digest s oc)) =
     (if oc = OcNotice (BudgetExhausted k bl) then 1 else 0)"
proof (cases oc)
  case (OcEvaluationStarted j)
  have "Notify (BudgetExhausted k bl) \<notin> set (run_checks s j)"
    by (auto simp: run_checks_def split: option.splits evaluation.splits)
  with OcEvaluationStarted show ?thesis by (simp add: notices_of_def count_list_0_iff)
qed (auto simp: notices_of_def after_settle_def compact_when_idle_eq split: option.split)

lemma fire_notices:
  "OcUsageReported \<notin> set ocs \<Longrightarrow> OcNotice (BudgetExhausted k bl) \<notin> set ocs \<Longrightarrow>
     notices_of k bl (snd (fire digest s ocs)) = 0"
proof (induction ocs arbitrary: s)
  case (Cons oc ocs)
  then have "notices_of k bl (snd (fire_one digest s oc)) = 0" by (auto simp: fire_one_notices)
  with Cons show ?case by (simp add: fire_Cons notices_of_append del: fire.simps(2))
qed (simp add: notices_of_def)

lemma apply_event_notices:
  "OcNotice (BudgetExhausted k bl) \<notin> set (snd (apply_event digest s e))"
  by (cases e; auto simp: define_objective_def redefine_def approve_def request_def deliver_def
      finish_def settle_def close_objective_def start_evaluation_def open_objective_def ignored_def
      approval_required_def Let_def
      split: option.split sum.split evaluation.split status.split prod.splits if_splits)

definition redefines :: "string \<Rightarrow> event \<Rightarrow> bool" where
  "redefines k e = (case e of DefinitionChanged d \<Rightarrow> obj_key d = k | _ \<Rightarrow> False)"

lemma apply_event_notified:
  "\<not> redefines k e \<Longrightarrow> notified (fst (apply_event digest s e)) k bl = notified s k bl"
  by (cases e; auto simp: notified_def redefines_def define_objective_def approve_def request_def
      deliver_def finish_def settle_def close_objective_def start_evaluation_def open_objective_def
      Let_def split: option.splits sum.split evaluation.split status.split prod.splits if_splits)

lemma react_notices:
  assumes wf: "bt_wf (objectives s)" and e: "\<not> redefines k e"
  shows "notices_of k bl (snd (react digest s e)) + of_bool (notified s k bl) =
    of_bool (notified (fst (react digest s e)) k bl)"
proof (cases "\<exists>u. e = EvUsage u")
  case True
  then obtain u where u: "e = EvUsage u" by blast
  have "notified (s\<lparr>st_usage := u\<rparr>) k bl = notified s k bl" by (simp add: notified_def)
  with remind_budgets_notices [of "s\<lparr>st_usage := u\<rparr>" k bl] bt_wf_distinct [OF wf] show ?thesis
    by (simp add: u react_fire case_prod_unfold)
next
  case False
  then have "objectives (fst (react digest s e)) = objectives (fst (apply_event digest s e))"
    by (intro react_objectives) auto
  then have "notified (fst (react digest s e)) k bl = notified s k bl"
    using apply_event_notified [OF e, of digest s bl] by (simp add: notified_def)
  moreover have "notices_of k bl (snd (react digest s e)) = 0"
    using False apply_event_frame(1) [of e digest s] apply_event_notices
    by (auto simp: react_fire intro!: fire_notices)
  ultimately show ?thesis by simp
qed

lemma run_notices:
  assumes "bt_wf (objectives s)" "list_all (\<lambda>e. \<not> redefines k e) es"
  shows "notices_of k bl (snd (run_log (react digest) s es)) + of_bool (notified s k bl) =
    of_bool (notified (fst (run_log (react digest) s es)) k bl)"
  using assms
proof (induction es arbitrary: s)
  case (Cons e es)
  then have "notices_of k bl (snd (react digest s e)) + of_bool (notified s k bl) =
      of_bool (notified (fst (react digest s e)) k bl)" by (intro react_notices) simp_all
  moreover have "notices_of k bl (snd (run_log (react digest) (fst (react digest s e)) es)) +
      of_bool (notified (fst (react digest s e)) k bl) =
      of_bool (notified (fst (run_log (react digest) (fst (react digest s e)) es)) k bl)"
    using Cons by (simp add: react_wf)
  ultimately show ?case unfolding run_log_Cons notices_of_append by linarith
qed (simp add: notices_of_def)

end
