(* ===== verification/Objective_Ratchet.thy ===== *)
theory Objective_Ratchet
  imports Objective_Invariant
begin

text \<open>
  The promise of the role \<open>Ratchet\<close>: a pass/fail check that the baseline passes keeps passing in
  every later baseline, as long as redefinitions keep the check. It rests on \<open>passing_is_kept\<close> of
  the interpretations of \<open>outcome_kind\<close> and on the invariant of the engine.
\<close>

fun pass_fail :: "check_config \<Rightarrow> bool" where
  "pass_fail (CommandCfg _) = True"
| "pass_fail (FactCfg _) = True"
| "pass_fail _ = False"

fun output_ok :: "check_output \<Rightarrow> bool" where
  "output_ok (CommandOut r) = command_passed r"
| "output_ok (FactOut r) = holds r"
| "output_ok _ = False"

definition baseline_passes :: "ledger \<Rightarrow> string \<Rightarrow> bool" where
  "baseline_passes l i =
     (case bt_get (baseline_or_empty l) i of None \<Rightarrow> False | Some out \<Rightarrow> output_ok out)"

lemma compare_keeps_passing:
  assumes "pass_fail cfg" "config_compare cfg b out = Inr r" "cmp_trend r \<noteq> Worse" "output_ok b"
  shows "output_ok out"
proof (cases cfg)
  case (CommandCfg p)
  then show ?thesis using assms command_check.passing_is_kept [of p] by (cases b; cases out) auto
next
  case (FactCfg p)
  then show ?thesis using assms fact_check.passing_is_kept [of p] by (cases b; cases out) auto
qed (use assms in simp_all)

lemma config_eq_refl: "pass_fail cfg \<Longrightarrow> config_eq cfg cfg"
  by (cases cfg) auto

text \<open>Results that are not a regression keep the ratchet.\<close>

lemma keepable_keeps_passing:
  assumes v: "definition_validate d = []" and m: "results_match d res" and f: "results_fit d base"
    and c: "definition_check d i = Some c" "check_role c = Ratchet" "pass_fail (check_cfg c)"
    and b: "bt_get base i = Some b" "output_ok b"
    and nr: "verdict_kind (keepable d base res) \<noteq> VRegression"
  shows "\<exists>out. bt_get res i = Some out \<and> output_ok out"
proof -
  have ci: "c \<in> set (obj_checks d)" "check_id c = i" using definition_check_SomeD [OF c(1)] by auto
  obtain out where out: "bt_get res i = Some out" using results_match_get [OF m ci(1)] ci(2) by blast
  obtain r where r: "check_finding c base res = Compared r"
    using check_finding_match [OF v m f ci(1)] b ci(2) by auto
  then have "config_compare (check_cfg c) b out = Inr r"
    using b out ci(2)
    by (cases "config_compare (check_cfg c) b out") (auto simp: check_finding_def)
  moreover have "cmp_trend r \<noteq> Worse"
    using nr ci(1) c(2) r by (auto simp: keepable_regression)
  ultimately show ?thesis using compare_keeps_passing [OF c(3)] b(2) out by blast
qed

lemma ratchet_step:
  assumes st: "objective_step digest D u k ob ob'" and wf: "objective_wf digest D k ob"
    and c: "definition_check (os_definition ob) i = Some c" "definition_check (os_definition ob') i = Some c"
    and r: "check_role c = Ratchet" "pass_fail (check_cfg c)"
    and b: "baseline_passes (os_ledger ob) i"
  shows "baseline_passes (os_ledger ob') i"
  using st
proof (cases rule: objective_step.cases)
  case (redefined d)
  then have d: "os_definition ob' = d" by (simp add: redefine_def Let_def)
  have "bt_wf (baseline_or_empty (os_ledger ob))" using wf by (simp add: objective_wf_def results_fit_def)
  then have "baseline_passes (retain_comparable (os_definition ob) d (os_ledger ob)) i"
    using b c r d config_eq_refl
    by (auto simp: baseline_passes_def baseline_or_empty_def baseline_results_def retain_comparable_def
        bt_get_retain comparable_check_def split: option.splits)
  then show ?thesis using redefined b by (simp add: redefine_def Let_def)
next
  case (settled j rev res v dec nt l ob1)
  from b obtain out where out: "bt_get (baseline_or_empty (os_ledger ob)) i = Some out" "output_ok out"
    by (auto simp: baseline_passes_def split: option.splits)
  have ev: "results_match (os_definition ob) res"
    "v = keepable (os_definition ob) (baseline_or_empty (os_ledger ob)) res"
    using wf settled by (simp_all add: objective_wf_def evaluation_wf_def Let_def)
  have "definition_validate (os_definition ob) = []"
    "results_fit (os_definition ob) (baseline_or_empty (os_ledger ob))"
    using wf by (simp_all add: objective_wf_def)
  then have kept: "verdict_kind v \<noteq> VRegression \<Longrightarrow> \<exists>x. bt_get res i = Some x \<and> output_ok x"
    using keepable_keeps_passing [OF _ ev(1) _ c(1) r out] ev(2) by simp
  have l: "os_ledger ob' = l" using settled by simp
  show ?thesis
  proof (cases "dec = DDiscard")
    case True
    then show ?thesis
      using settled l b
      by (simp add: ledger_settle_Inr baseline_passes_def baseline_or_empty_def baseline_results_def)
  next
    case False
    then show ?thesis
      using settled l kept
      by (auto simp: ledger_settle_Inr refuses_keep_def baseline_passes_def baseline_or_empty_def
          baseline_results_def)
  qed
qed (use b in \<open>auto simp: start_evaluation_def remind_objective_def split: prod.splits\<close>)

section \<open>Over a log\<close>

text \<open>Redefinitions of the objective \<open>k\<close> that keep the check \<open>c\<close> under its identifier.\<close>

definition keeps_check :: "string \<Rightarrow> check_definition \<Rightarrow> event \<Rightarrow> bool" where
  "keeps_check k c e =
     (case e of
        DefinitionChanged d \<Rightarrow> obj_key d = k \<longrightarrow> definition_check d (check_id c) = Some c
      | _ \<Rightarrow> True)"

definition holds_ratchet ::
  "digest \<Rightarrow> objective_definition set \<Rightarrow> string \<Rightarrow> check_definition \<Rightarrow> engine_state \<Rightarrow> bool" where
  "holds_ratchet digest D k c s \<longleftrightarrow>
     engine_inv digest D s \<and> check_role c = Ratchet \<and> pass_fail (check_cfg c) \<and>
     (case bt_get (objectives s) k of
        None \<Rightarrow> False
      | Some ob \<Rightarrow> definition_check (os_definition ob) (check_id c) = Some c \<and>
          baseline_passes (os_ledger ob) (check_id c))"

lemma apply_event_definition:
  "bt_get (objectives s) k = Some ob \<Longrightarrow>
     bt_get (objectives (fst (apply_event digest s e))) k = Some ob' \<Longrightarrow>
     os_definition ob' = os_definition ob \<or> e = DefinitionChanged (os_definition ob') \<and>
       obj_key (os_definition ob') = k"
  by (cases e; auto simp: define_objective_def approve_def request_def redefine_def
      deliver_def finish_def settle_def close_objective_def start_evaluation_def open_objective_def
      Let_def split: option.splits sum.splits evaluation.splits status.splits prod.splits if_splits)

lemma react_definition:
  assumes "bt_get (objectives s) k = Some ob" "bt_get (objectives (fst (react digest s e))) k = Some ob'"
  shows "os_definition ob' = os_definition ob \<or> e = DefinitionChanged (os_definition ob') \<and>
       obj_key (os_definition ob') = k"
proof (cases "\<exists>u. e = EvUsage u")
  case True
  with assms show ?thesis
    by (auto simp: react_fire case_prod_unfold remind_budgets_def remind_objective_def)
next
  case False
  then have "objectives (fst (react digest s e)) = objectives (fst (apply_event digest s e))"
    using apply_event_frame(1) [of e digest s] fire_frame by (auto simp: react_fire)
  with assms apply_event_definition show ?thesis by metis
qed

interpretation ratchet: event_machine "react digest" "holds_ratchet digest D k c"
  "\<lambda>e. event_ok D e \<and> keeps_check k c e" for digest D k c
proof
  fix s e assume hs: "holds_ratchet digest D k c s" and ok: "event_ok D e \<and> keeps_check k c e"
  let ?s' = "fst (react digest s e)"
  from hs obtain ob where inv: "engine_inv digest D s" and ob: "bt_get (objectives s) k = Some ob"
    and c: "definition_check (os_definition ob) (check_id c) = Some c"
      "check_role c = Ratchet" "pass_fail (check_cfg c)" "baseline_passes (os_ledger ob) (check_id c)"
    by (auto simp: holds_ratchet_def split: option.splits)
  from inv ob have wf: "objective_wf digest D k ob" by (simp add: engine_inv_iff)
  obtain ob' where ob': "bt_get (objectives ?s') k = Some ob'"
    "ob' = ob \<or> objective_step digest D (st_usage ?s') k ob ob'"
    using evolves_Some [OF react_evolves ob, of D e digest] ok by blast
  have c': "definition_check (os_definition ob') (check_id c) = Some c"
    using react_definition [OF ob ob'(1)] c(1) ok by (auto simp: keeps_check_def split: event.splits)
  have "baseline_passes (os_ledger ob') (check_id c)"
    using ob'(2) ratchet_step [OF _ wf c(1) c' c(2,3,4)] c(4) by blast
  with inv ok ob' c c' show "holds_ratchet digest D k c ?s'"
    by (simp add: holds_ratchet_def react_inv)
qed

end
