(* ===== verification/Objective_Properties.thy ===== *)
theory Objective_Properties
  imports Objective_Completion Objective_Counters Objective_Ratchet
begin

text \<open>
  The properties of the objective engine, stated over logs of events replayed from the empty
  state. A log fixes the definitions in play (\<open>log_definitions\<close>); hashing is assumed to tell
  these apart where a property depends on it (\<open>collision_free\<close>).
\<close>

definition defined_by :: "event \<Rightarrow> objective_definition option" where
  "defined_by e = (case e of DefinitionChanged d \<Rightarrow> Some d | _ \<Rightarrow> None)"

definition log_definitions :: "event list \<Rightarrow> objective_definition set" where
  "log_definitions es =
     set (filter (\<lambda>d. definition_validate d = []) (List.map_filter defined_by es))"

definition state_after :: "digest \<Rightarrow> event list \<Rightarrow> engine_state" where
  "state_after digest es = fst (replay digest default_state es)"

lemma log_ok: "set es \<subseteq> set fs \<Longrightarrow> list_all (event_ok (log_definitions fs)) es"
  by (force simp: list_all_iff event_ok_def log_definitions_def map_filter_def defined_by_def
      split: event.split)

lemma log_definitions_subset: "set es \<subseteq> set fs \<Longrightarrow> log_definitions es \<subseteq> log_definitions fs"
  by (auto simp: log_definitions_def map_filter_def)

lemma default_inv: "collision_free digest D \<Longrightarrow> engine_inv digest D default_state"
  by (simp add: engine_inv_def default_state_def)

lemma state_after_inv:
  "collision_free digest (log_definitions fs) \<Longrightarrow> set es \<subseteq> set fs \<Longrightarrow>
     engine_inv digest (log_definitions fs) (state_after digest es)"
  unfolding state_after_def replay_def by (intro engine.run_inv default_inv log_ok)

lemma state_after_snoc: "state_after digest (es @ [e]) = fst (react digest (state_after digest es) e)"
  by (simp add: state_after_def replay_def run_log_append(1) run_log_Cons del: run_log.simps(2))

section \<open>A session used as example\<close>

definition demo_digest :: digest where
  "demo_digest c = []"

definition demo_goal :: check_definition where
  "demo_goal = \<lparr>check_id = ''tests'', check_role = Goal, check_cfg = CommandCfg \<lparr>cmd_command = ''cargo test''\<rparr>\<rparr>"

definition demo_ratchet :: check_definition where
  "demo_ratchet = \<lparr>check_id = ''lint'', check_role = Ratchet, check_cfg = CommandCfg \<lparr>cmd_command = ''cargo clippy''\<rparr>\<rparr>"

definition demo_definition :: objective_definition where
  "demo_definition =
     \<lparr>obj_key = ''o'', obj_title = ''Green'', obj_mode = Converge, obj_checks = [demo_goal, demo_ratchet],
      obj_constraints = [], obj_budget = \<lparr>budget_turns = 5, budget_tokens = 1000, budget_wall_secs = 60\<rparr>,
      obj_compact = EverySettle\<rparr>"

definition demo_exit :: "i32 \<Rightarrow> sample_output" where
  "demo_exit n = CommandSmp \<lparr>exit_code = n\<rparr>"

definition demo_start :: "event list" where
  "demo_start =
     [DefinitionChanged demo_definition,
      ApprovalGranted ''o'' \<lparr>approved_hash = ''sha256:'', approver = ''ada''\<rparr>,
      Requested ''o'' ''r1'']"

definition demo_judged :: "event list" where
  "demo_judged = demo_start @
     [CheckFinished ''o'' 0 ''tests'' ''r1'' 0 (demo_exit 1),
      CheckFinished ''o'' 0 ''lint'' ''r1'' 0 (demo_exit 0)]"

definition demo_settled :: "event list" where
  "demo_settled = demo_judged @ [EvSettled ''o'' 0 DKeep ''first'']"

lemmas demo_defs = demo_digest_def demo_goal_def demo_ratchet_def demo_definition_def demo_exit_def
  demo_start_def demo_judged_def demo_settled_def

lemma demo_valid: "definition_validate demo_definition = []"
  by code_simp

lemma demo_log_definitions:
  "log_definitions demo_start = {demo_definition}"
  "log_definitions demo_judged = {demo_definition}"
  "log_definitions demo_settled = {demo_definition}"
  using demo_valid
  by (simp_all add: log_definitions_def map_filter_simps defined_by_def demo_start_def demo_judged_def
      demo_settled_def)

lemma demo_collision_free: "collision_free digest {d}"
  by (simp add: collision_free_def)

lemma demo_state:
  "bt_get (objectives (state_after demo_digest demo_start)) ''o'' =
     Some \<lparr>os_definition = demo_definition,
       os_approval = Some \<lparr>approved_hash = ''sha256:'', approver = ''ada''\<rparr>,
       os_ledger = empty_ledger, os_evaluation = Some (Running 0 ''r1'' []), os_evaluations = 1,
       os_latest_verdict = None, os_status = StOpen, os_usage_at_start = zero_usage,
       os_budget_notified = {}\<rparr>"
  by code_simp

section \<open>The invariant\<close>

text \<open>
  C4. Whatever the log, the engine's state is well formed after it: every objective holds a valid
  definition under its own key, an approval only of its current standard, an evaluation only while
  open and approved, only accepted samples with at least one missing while it runs, a verdict that
  is the one its results have against its baseline, and a baseline that fits its definition.
\<close>

theorem log_keeps_engine_inv:
  assumes "collision_free digest (log_definitions es)"
  shows "engine_inv digest (log_definitions es) (fst (replay digest default_state es))"
  using state_after_inv [OF assms] by (simp add: state_after_def)

theorem log_keeps_engine_inv_witness:
  "collision_free demo_digest (log_definitions demo_settled) \<and>
   engine_inv demo_digest (log_definitions demo_settled) (fst (replay demo_digest default_state demo_settled))"
  using log_keeps_engine_inv [of demo_digest demo_settled]
  by (simp add: demo_log_definitions demo_collision_free)

text \<open>
  C20. Every check of an evaluation that is ready has a combined output of its own kind, and its
  finding compares two outputs: no check is missing and no kinds mismatch, whatever the baseline.
\<close>

theorem ready_evaluation_complete:
  assumes cf: "collision_free digest (log_definitions es)"
    and ob: "bt_get (objectives (fst (replay digest default_state es))) k = Some ob"
    and ev: "os_evaluation ob = Some (Ready i r res v)"
    and c: "c \<in> set (obj_checks (os_definition ob))"
  shows "\<exists>out cmp. bt_get res (check_id c) = Some out \<and> config_produces (check_cfg c) out \<and>
    reason_of c (baseline_or_empty (os_ledger ob)) res \<in> set (verdict_reasons v) \<and>
    finding_comparison (check_finding c (baseline_or_empty (os_ledger ob)) res) = Some cmp"
proof -
  have "engine_inv digest (log_definitions es) (state_after digest es)"
    by (rule state_after_inv [OF cf]) simp
  with ob have wf: "objective_wf digest (log_definitions es) k ob"
    by (auto simp: engine_inv_iff state_after_def)
  then have m: "results_match (os_definition ob) res" and val: "definition_validate (os_definition ob) = []"
    and fit: "results_fit (os_definition ob) (baseline_or_empty (os_ledger ob))"
    and v: "v = keepable (os_definition ob) (baseline_or_empty (os_ledger ob)) res"
    using ev by (simp_all add: objective_wf_def evaluation_wf_def Let_def)
  show ?thesis
    using results_match_get [OF m c] check_finding_match [OF val m fit c] v c by auto
qed

definition demo_results :: results where
  "demo_results = [(''lint'', CommandOut \<lparr>exit_code = 0\<rparr>), (''tests'', CommandOut \<lparr>exit_code = 1\<rparr>)]"

theorem ready_evaluation_complete_witness:
  "\<exists>out cmp. bt_get demo_results ''lint'' = Some out \<and> config_produces (check_cfg demo_ratchet) out \<and>
     finding_comparison (check_finding demo_ratchet [] demo_results) = Some cmp"
proof -
  let ?ob = "the (bt_get (objectives (fst (replay demo_digest default_state demo_judged))) ''o'')"
  have ob: "bt_get (objectives (fst (replay demo_digest default_state demo_judged))) ''o'' = Some ?ob"
    by code_simp
  have ev: "os_evaluation ?ob = Some (Ready 0 ''r1'' demo_results (keepable demo_definition [] demo_results))"
    by code_simp
  have c: "demo_ratchet \<in> set (obj_checks (os_definition ?ob))" by code_simp
  have base: "baseline_or_empty (os_ledger ?ob) = []" by code_simp
  have ident: "check_id demo_ratchet = ''lint''" by code_simp
  have "collision_free demo_digest (log_definitions demo_judged)"
    by (simp add: demo_log_definitions demo_collision_free)
  from ready_evaluation_complete [OF this ob ev c] show ?thesis unfolding base ident by blast
qed

text \<open>
  C12. An evaluation completes: once every sample it asked for was reported, in any order and with
  any repeated, unknown or out-of-range reports in between, the evaluation is ready, each check's
  result is the combination of its samples in index order, and the verdict is the one these results
  have against the baseline. The outcome does not depend on the order of arrival.
\<close>

theorem evaluation_completes:
  assumes cf: "collision_free digest (log_definitions es)"
    and s: "s = fst (replay digest default_state es)"
    and ob: "bt_get (objectives s) k = Some ob" "os_evaluation ob = Some (Running i r [])"
    and outs: "\<forall>c \<in> set (obj_checks (os_definition ob)). \<forall>n. n < config_samples (check_cfg c) \<longrightarrow>
        config_accepts (check_cfg c) (outs (check_id c) n)"
    and cover: "\<forall>c \<in> set (obj_checks (os_definition ob)). \<forall>n. n < config_samples (check_cfg c) \<longrightarrow>
        (check_id c, n) \<in> set ps"
  shows "\<exists>ob'. bt_get (objectives (fst (replay digest s (map (report k i r outs) ps)))) k = Some ob' \<and>
    os_evaluation ob' = Some (Ready i r (full_results (os_definition ob) outs)
      (keepable (os_definition ob) (baseline_or_empty (os_ledger ob)) (full_results (os_definition ob) outs)))"
proof -
  let ?D = "log_definitions es" and ?d = "os_definition ob" and ?l = "os_ledger ob"
  have inv: "engine_inv digest ?D s"
    using state_after_inv [OF cf, of es] s by (simp add: state_after_def)
  have aw: "awaits s k ?d ?l i r outs ps"
    using ob cover by (simp add: awaits_def consistent_def received_def)
  have "list_all (event_ok ?D) (map (report k i r outs) ps)"
    by (simp add: list_all_iff event_ok_def report_def)
  then have "engine_inv digest ?D (fst (run_log (react digest) s (map (report k i r outs) ps)))"
    using inv by (intro engine.run_inv)
  from awaits_Nil [OF this awaits_run [OF inv aw outs]] show ?thesis by (simp add: replay_def)
qed

definition demo_outs :: "string \<Rightarrow> u32 \<Rightarrow> sample_output" where
  "demo_outs c n = demo_exit (if c = ''tests'' then 1 else 0)"

theorem evaluation_completes_witness:
  "\<exists>ob'. bt_get (objectives (fst (replay demo_digest (fst (replay demo_digest default_state demo_start))
      (map (report ''o'' 0 ''r1'' demo_outs) [(''lint'', 0), (''docs'', 3), (''lint'', 0), (''tests'', 0)])))) ''o'' = Some ob' \<and>
    map_option evaluation_ident (os_evaluation ob') = Some 0"
proof -
  let ?s = "fst (replay demo_digest default_state demo_start)"
  obtain ob where ob: "bt_get (objectives ?s) ''o'' = Some ob" "os_evaluation ob = Some (Running 0 ''r1'' [])"
    and d: "os_definition ob = demo_definition"
    using demo_state by (simp add: state_after_def)
  have lt: "n < 1 \<longleftrightarrow> n = 0" for n :: u32 by (simp add: word_less_nat_alt unat_eq_0)
  have acc: "\<forall>c \<in> set (obj_checks (os_definition ob)). \<forall>n. n < config_samples (check_cfg c) \<longrightarrow>
      config_accepts (check_cfg c) (demo_outs (check_id c) n)"
    by (simp add: d demo_defs demo_outs_def)
  have cov: "\<forall>c \<in> set (obj_checks (os_definition ob)). \<forall>n. n < config_samples (check_cfg c) \<longrightarrow>
      (check_id c, n) \<in> set [(''lint'', 0), (''docs'', 3), (''lint'', 0), (''tests'', 0)]"
    by (simp add: d demo_defs lt)
  have "collision_free demo_digest (log_definitions demo_start)"
    by (simp add: demo_log_definitions demo_collision_free)
  from evaluation_completes [OF this refl ob acc cov] show ?thesis by fastforce
qed

section \<open>Life of an objective\<close>

text \<open>
  C9. Refinement: every reaction keeps every objective and moves it along the life cycle (approve,
  start, judge, settle, finish, revoke, close) by one step or leaves its phase as it is.
\<close>

theorem reaction_refines_lifecycle:
  assumes cf: "collision_free digest (log_definitions (es @ [e]))"
    and s: "s = fst (replay digest default_state es)"
    and ob: "bt_get (objectives s) k = Some ob"
  shows "\<exists>ob'. bt_get (objectives (fst (react digest s e))) k = Some ob' \<and>
    (phase_of digest ob' = phase_of digest ob \<or> lifecycle (phase_of digest ob) (phase_of digest ob'))"
proof -
  let ?D = "log_definitions (es @ [e])"
  have "engine_inv digest ?D s"
    using state_after_inv [OF cf, of es] s by (simp add: state_after_def subset_insertI)
  with ob have wf: "objective_wf digest ?D k ob" by (simp add: engine_inv_iff)
  have "event_ok ?D e" using log_ok [of "[e]" "es @ [e]"] by simp
  from evolves_Some [OF react_evolves [OF this] ob, of digest] wf
  show ?thesis using objective_step_lifecycle by (force simp: lifecycle_or_same_def)
qed

theorem reaction_refines_lifecycle_witness:
  "\<exists>ob'. bt_get (objectives (fst (react demo_digest (fst (replay demo_digest default_state demo_start))
      (EvClosed ''o'')))) ''o'' = Some ob' \<and>
    (phase_of demo_digest ob' = Evaluating 0 ''r1'' \<or> lifecycle (Evaluating 0 ''r1'') (phase_of demo_digest ob'))"
proof -
  obtain ob where ob: "bt_get (objectives (fst (replay demo_digest default_state demo_start))) ''o'' = Some ob"
    and p: "phase_of demo_digest ob = Evaluating 0 ''r1''"
    using demo_state by (simp add: state_after_def phase_of_def)
  have "log_definitions (demo_start @ [EvClosed ''o'']) = {demo_definition}"
    using demo_log_definitions(1) by (simp add: log_definitions_def map_filter_append map_filter_simps defined_by_def)
  then have "collision_free demo_digest (log_definitions (demo_start @ [EvClosed ''o'']))"
    by (simp add: demo_collision_free)
  from reaction_refines_lifecycle [OF this refl ob] show ?thesis unfolding p .
qed

text \<open>
  C29. Once an objective is done or closed, no later event reopens it, redefines it or changes its
  ledger, and the usage it is charged with stays what it was when it ended, whatever usage the host
  reports; the history of settled evaluations of any objective is only appended to.
\<close>

theorem ended_objective_is_frozen:
  assumes cf: "collision_free digest (log_definitions (es @ fs))"
    and s: "s = fst (replay digest default_state es)"
    and ob: "bt_get (objectives s) k = Some ob"
  shows "\<exists>ob'. bt_get (objectives (fst (replay digest s fs))) k = Some ob' \<and>
    prefix (ledger_entries (os_ledger ob)) (ledger_entries (os_ledger ob')) \<and>
    (os_status ob \<noteq> StOpen \<longrightarrow>
       os_status ob' \<noteq> StOpen \<and> os_definition ob' = os_definition ob \<and> os_ledger ob' = os_ledger ob \<and>
       (\<forall>u u'. used ob' u' = used ob u))"
proof -
  let ?D = "log_definitions (es @ fs)"
  have inv: "engine_inv digest ?D s"
    using state_after_inv [OF cf, of es] s by (simp add: state_after_def)
  have "list_all (event_ok ?D) fs" by (rule log_ok) simp
  from engine_life.run_rel [OF inv this] ob show ?thesis
    unfolding replay_def engine_later_def objective_later_def by blast
qed

theorem ended_objective_is_frozen_witness:
  "\<exists>ob'. bt_get (objectives (fst (replay demo_digest (fst (replay demo_digest default_state
      (demo_settled @ [EvClosed ''o'']))) [DefinitionChanged demo_definition]))) ''o'' = Some ob' \<and>
    os_status ob' \<noteq> StOpen \<and> length (ledger_entries (os_ledger ob')) = 1"
proof -
  let ?es = "demo_settled @ [EvClosed ''o'']" and ?fs = "[DefinitionChanged demo_definition]"
  let ?ob = "the (bt_get (objectives (fst (replay demo_digest default_state ?es))) ''o'')"
  have ob: "bt_get (objectives (fst (replay demo_digest default_state ?es))) ''o'' = Some ?ob" by code_simp
  have st: "os_status ?ob \<noteq> StOpen" "length (ledger_entries (os_ledger ?ob)) = 1" by code_simp+
  have "log_definitions (?es @ ?fs) = {demo_definition}"
    using demo_log_definitions(3) demo_valid
    by (simp add: log_definitions_def map_filter_append map_filter_simps defined_by_def)
  then have "collision_free demo_digest (log_definitions (?es @ ?fs))" by (simp add: demo_collision_free)
  from ended_objective_is_frozen [OF this refl ob] st show ?thesis by fastforce
qed

text \<open>
  C22. The ratchet never slips: a pass/fail check of role \<open>Ratchet\<close> that the baseline passes is
  passed by the baseline after any further events whose redefinitions of the objective keep it.
\<close>

theorem ratchet_never_slips:
  assumes cf: "collision_free digest (log_definitions (es @ fs))"
    and s: "s = fst (replay digest default_state es)"
    and ob: "bt_get (objectives s) k = Some ob"
    and c: "definition_check (os_definition ob) (check_id c) = Some c" "check_role c = Ratchet"
      "pass_fail (check_cfg c)"
    and b: "baseline_passes (os_ledger ob) (check_id c)"
    and keep: "list_all (keeps_check k c) fs"
  shows "\<exists>ob'. bt_get (objectives (fst (replay digest s fs))) k = Some ob' \<and>
    baseline_passes (os_ledger ob') (check_id c)"
proof -
  let ?D = "log_definitions (es @ fs)"
  have "engine_inv digest ?D s"
    using state_after_inv [OF cf, of es] s by (simp add: state_after_def)
  with ob c b have "holds_ratchet digest ?D k c s" by (simp add: holds_ratchet_def)
  moreover have "list_all (\<lambda>e. event_ok ?D e \<and> keeps_check k c e) fs"
    using keep log_ok [of fs "es @ fs"] by (simp add: list_all_iff)
  ultimately have "holds_ratchet digest ?D k c (fst (replay digest s fs))"
    unfolding replay_def by (rule ratchet.run_inv)
  then show ?thesis by (auto simp: holds_ratchet_def split: option.splits)
qed

theorem ratchet_never_slips_witness:
  "\<exists>ob'. bt_get (objectives (fst (replay demo_digest (fst (replay demo_digest default_state demo_settled))
      [Requested ''o'' ''r2'', EvUsage \<lparr>turns = 7, context_tokens = 0, elapsed_secs = 0\<rparr>]))) ''o'' = Some ob' \<and>
    baseline_passes (os_ledger ob') ''lint''"
proof -
  let ?fs = "[Requested ''o'' ''r2'', EvUsage \<lparr>turns = 7, context_tokens = 0, elapsed_secs = 0\<rparr>]"
  let ?ob = "the (bt_get (objectives (fst (replay demo_digest default_state demo_settled))) ''o'')"
  have ob: "bt_get (objectives (fst (replay demo_digest default_state demo_settled))) ''o'' = Some ?ob"
    by code_simp
  have c: "definition_check (os_definition ?ob) (check_id demo_ratchet) = Some demo_ratchet"
    "check_role demo_ratchet = Ratchet" "pass_fail (check_cfg demo_ratchet)"
    "baseline_passes (os_ledger ?ob) (check_id demo_ratchet)"
    by code_simp+
  have ident: "check_id demo_ratchet = ''lint''" by code_simp
  have "log_definitions (demo_settled @ ?fs) = {demo_definition}"
    using demo_log_definitions(3)
    by (simp add: log_definitions_def map_filter_append map_filter_simps defined_by_def)
  then have "collision_free demo_digest (log_definitions (demo_settled @ ?fs))" by (simp add: demo_collision_free)
  from ratchet_never_slips [OF this refl ob c] show ?thesis unfolding ident by (simp add: keeps_check_def)
qed

section \<open>What the host is asked to do\<close>

text \<open>
  C34. A reaction asks for check runs of an objective exactly when the event asks it to evaluate a
  revision it is not evaluating yet while it is open and approved. It then asks for every sample of
  every check once, under the identifier of the evaluation it just started.
\<close>

theorem reaction_check_runs:
  assumes cf: "collision_free digest (log_definitions (es @ [e]))"
    and s: "s = fst (replay digest default_state es)"
    and s': "s' = fst (react digest s e)"
  shows "runs_of k (snd (react digest s e)) = (if starts_on digest s e k then run_checks s' k else []) \<and>
    distinct (run_checks s' k) \<and>
    (starts_on digest s e k \<longrightarrow>
      (\<exists>ob r. bt_get (objectives s) k = Some ob \<and> asks e k = Some r \<and>
         os_status ob = StOpen \<and> is_approved digest ob \<and>
         (\<forall>i c r' n. RunCheck k i c r' n \<in> set (run_checks s' k) \<longleftrightarrow>
            i = os_evaluations ob \<and> r' = r \<and>
            (\<exists>cd \<in> set (obj_checks (os_definition ob)). check_id cd = c \<and> n < config_samples (check_cfg cd)))))"
proof -
  let ?D = "log_definitions (es @ [e])"
  have inv: "engine_inv digest ?D s"
    using state_after_inv [OF cf, of es] s by (simp add: state_after_def subset_insertI)
  moreover have "event_ok ?D e" using log_ok [of "[e]" "es @ [e]"] by simp
  ultimately have inv': "engine_inv digest ?D s'" unfolding s' by (rule react_inv)
  have "\<exists>ob r. bt_get (objectives s) k = Some ob \<and> asks e k = Some r \<and>
         os_status ob = StOpen \<and> is_approved digest ob \<and>
         (\<forall>i c r' n. RunCheck k i c r' n \<in> set (run_checks s' k) \<longleftrightarrow>
            i = os_evaluations ob \<and> r' = r \<and>
            (\<exists>cd \<in> set (obj_checks (os_definition ob)). check_id cd = c \<and> n < config_samples (check_cfg cd)))"
    if st: "starts_on digest s e k"
  proof -
    obtain ob r where ob: "bt_get (objectives s) k = Some ob" "asks e k = Some r" "starts digest ob r"
      "bt_get (objectives s') k = Some (ob\<lparr>os_evaluations := os_evaluations ob + 1,
         os_evaluation := Some (Running (os_evaluations ob) r [])\<rparr>)"
      unfolding s' by (rule starts_on_state [OF inv st])
    have "n < N \<longleftrightarrow> (\<exists>m \<in> {0..<unat N}. n = word_of_nat m)" for n N :: u32
      using words_below [of N] by blast
    with ob show ?thesis by (fastforce simp: run_checks_def starts_def)
  qed
  then show ?thesis using react_runs [OF inv] run_checks_distinct [OF inv'] s' by simp
qed

theorem reaction_check_runs_witness:
  "runs_of ''o'' (snd (react demo_digest (fst (replay demo_digest default_state (take 2 demo_start)))
      (Requested ''o'' ''r1''))) =
   [RunCheck ''o'' 0 ''tests'' ''r1'' 0, RunCheck ''o'' 0 ''lint'' ''r1'' 0]"
proof -
  let ?es = "take 2 demo_start" and ?e = "Requested ''o'' ''r1''"
  let ?s = "fst (replay demo_digest default_state ?es)"
  have "?es @ [?e] = demo_start" by (simp add: demo_start_def)
  then have "collision_free demo_digest (log_definitions (?es @ [?e]))"
    using demo_log_definitions(1) demo_collision_free by simp
  from reaction_check_runs [OF this refl refl, of "''o''"]
  have runs: "runs_of ''o'' (snd (react demo_digest ?s ?e)) =
      (if starts_on demo_digest ?s ?e ''o'' then run_checks (fst (react demo_digest ?s ?e)) ''o'' else [])"
    by blast
  have st: "starts_on demo_digest ?s ?e ''o''" by code_simp
  have rc: "run_checks (fst (react demo_digest ?s ?e)) ''o'' =
      [RunCheck ''o'' 0 ''tests'' ''r1'' 0, RunCheck ''o'' 0 ''lint'' ''r1'' 0]"
    by code_simp
  show ?thesis using runs st rc by simp
qed

text \<open>
  Evaluation identifiers are never reused: of two reactions of one log that ask for check runs
  of the same objective, the later one uses a greater identifier, so a late sample of an earlier
  evaluation can never be taken for one of a later evaluation. The log is shorter than the range of
  the counter.
\<close>

theorem evaluation_ids_increase:
  assumes cf: "collision_free digest (log_definitions (xs @ e # ys @ [f]))"
    and len: "length (xs @ e # ys @ [f]) < 2 ^ 64"
    and s: "s = fst (replay digest default_state xs)"
    and t: "t = fst (replay digest default_state (xs @ e # ys))"
    and run: "RunCheck k i c r n \<in> set (snd (react digest s e))"
    and run': "RunCheck k i' c' r' n' \<in> set (snd (react digest t f))"
  shows "i < i'"
proof -
  let ?D = "log_definitions (xs @ e # ys @ [f])"
  have sub: "set xs \<subseteq> set (xs @ e # ys @ [f])" "set (xs @ e # ys) \<subseteq> set (xs @ e # ys @ [f])" by auto
  have inv: "engine_inv digest ?D s" "engine_inv digest ?D t"
    using state_after_inv [OF cf sub(1)] state_after_inv [OF cf sub(2)] s t
    by (simp_all add: state_after_def)
  have ys: "list_all (event_ok ?D) ys" "list_all (event_ok ?D) xs" by (rule log_ok; auto)+
  have zero: "evaluations_of default_state k = 0" by (simp add: evaluations_of_def default_state_def)
  have b: "evaluations_of s k \<le> length xs"
    using run_evaluations [OF ys(2), of default_state k digest] len s zero by (simp add: replay_def)
  have t': "t = fst (run_log (react digest) (fst (react digest s e)) ys)"
    unfolding t s replay_def by (simp add: run_log_append(1) run_log_Cons(1) del: run_log.simps(2))
  have i: "unat i = evaluations_of s k" "starts_on digest s e k" using run_identifier [OF inv(1) run] by auto
  have "evaluations_of (fst (react digest s e)) k = Suc (unat i)"
    using starts_on_evaluations [OF inv(1) i(2)] b len i(1) by simp
  moreover have "evaluations_of (fst (react digest s e)) k \<le> evaluations_of t k"
    using run_evaluations [OF ys(1), of "fst (react digest s e)" k digest] b len i(1) calculation t' by simp
  moreover have "unat i' = evaluations_of t k" using run_identifier [OF inv(2) run'] by auto
  ultimately show ?thesis by (simp add: word_less_nat_alt)
qed

theorem evaluation_ids_increase_witness:
  "(0 :: evaluation_id) < 1 \<and>
   RunCheck ''o'' 1 ''tests'' ''r2'' 0 \<in> set (snd (react demo_digest
     (fst (replay demo_digest default_state (demo_settled))) (Requested ''o'' ''r2'')))"
proof -
  let ?xs = "take 2 demo_start" and ?e = "Requested ''o'' ''r1''" and ?f = "Requested ''o'' ''r2''"
  let ?ys = "drop 3 demo_settled"
  have log: "?xs @ ?e # ?ys = demo_settled"
    by (simp add: demo_settled_def demo_judged_def demo_start_def)
  have defs: "log_definitions (?xs @ ?e # ?ys @ [?f]) = {demo_definition}"
    using demo_valid
    by (simp add: log_definitions_def map_filter_simps defined_by_def demo_settled_def demo_judged_def demo_start_def)
  have run: "RunCheck ''o'' 0 ''tests'' ''r1'' 0 \<in>
      set (snd (react demo_digest (fst (replay demo_digest default_state ?xs)) ?e))" by code_simp
  have run': "RunCheck ''o'' 1 ''tests'' ''r2'' 0 \<in>
      set (snd (react demo_digest (fst (replay demo_digest default_state demo_settled)) ?f))" by code_simp
  have "length (?xs @ ?e # ?ys @ [?f]) < 2 ^ 64"
    by (simp add: demo_settled_def demo_judged_def demo_start_def)
  from evaluation_ids_increase [OF _ this refl refl run, unfolded log, OF _ run'] defs run' show ?thesis
    by (simp add: demo_collision_free)
qed

text \<open>
  The compactions of a log carry pairwise different idempotency keys, so a host that executes
  each key at most once executes each of them, as long as there are no more of them than the
  counter has values.
\<close>

theorem compaction_keys_distinct:
  assumes "length (compactions_in (snd (replay digest s es))) \<le> 2 ^ 64"
  shows "distinct (map compact_idempotency_key (compactions_in (snd (replay digest s es))))"
proof -
  have mf: "List.map_filter (\<lambda>x. map_option compact_sequence (compaction_of x)) xs =
      map compact_sequence (compactions_in xs)" for xs
    by (induction xs) (auto simp: compactions_in_def map_filter_simps split: option.split)
  have "distinct (map compact_sequence (compactions_in (snd (replay digest s es))))"
    using compacting.run_numbers_distinct [of digest s es] assms by (simp add: mf replay_def)
  then show ?thesis by (simp only: compact_cmd.distinct_positions_distinct_keys)
qed

theorem compaction_keys_distinct_witness:
  "distinct (map compact_idempotency_key (compactions_in (snd (replay demo_digest default_state
      (demo_settled @ [EvHostIdle 0]))))) \<and>
   length (compactions_in (snd (replay demo_digest default_state (demo_settled @ [EvHostIdle 0])))) = 1"
proof -
  have "length (compactions_in (snd (replay demo_digest default_state (demo_settled @ [EvHostIdle 0])))) = 1"
    by code_simp
  then show ?thesis using compaction_keys_distinct [of demo_digest default_state "demo_settled @ [EvHostIdle 0]"]
    by simp
qed

text \<open>
  C30. A pending compaction is executed exactly once: no event but an idle report with an empty
  queue executes it or takes it back, and that report executes one compaction, whose brief holds
  one entry for each objective, in key order, with its current definition, ledger and verdict.
\<close>

theorem pending_compaction_executes_once:
  assumes p: "pending_compact s" and es: "list_all (\<lambda>e. e \<noteq> EvHostIdle 0) es"
    and t: "t = fst (replay digest s es)"
  shows "compactions_in (snd (replay digest s es)) = [] \<and>
    snd (react digest t (EvHostIdle 0)) = [Execute (CompactCall (compact_call digest t))] \<and>
    compact_sequence (compact_call digest t) = compactions s \<and>
    \<not> pending_compact (fst (react digest t (EvHostIdle 0)))"
proof -
  have step: "compactions_in (snd (react digest s e)) = [] \<and> pending_compact (fst (react digest s e)) \<and>
      compactions (fst (react digest s e)) = compactions s"
    if "pending_compact s" "e \<noteq> EvHostIdle 0" for s e
    using that react_compactions [of e digest s]
    by (cases "\<exists>n. e = EvHostIdle n") (auto simp: react_host_idle compact_when_idle_eq)
  have "compactions_in (snd (replay digest s es)) = [] \<and> pending_compact (fst (replay digest s es)) \<and>
      compactions (fst (replay digest s es)) = compactions s"
    using p es unfolding replay_def
  proof (induction es arbitrary: s)
    case (Cons e es)
    then show ?case using step [of s e] by (simp add: run_log_Cons del: run_log.simps(2))
  qed simp
  then show ?thesis by (simp add: t react_host_idle compact_when_idle_eq compact_call_def)
qed

theorem pending_compaction_executes_once_witness:
  "compactions_in (snd (replay demo_digest (state_after demo_digest demo_settled) [EvHostIdle 2])) = [] \<and>
   snd (react demo_digest (fst (replay demo_digest (state_after demo_digest demo_settled) [EvHostIdle 2])) (EvHostIdle 0))
     = [Execute (CompactCall (compact_call demo_digest
          (fst (replay demo_digest (state_after demo_digest demo_settled) [EvHostIdle 2]))))]"
proof -
  have "pending_compact (state_after demo_digest demo_settled)" by code_simp
  from pending_compaction_executes_once [OF this _ refl, of "[EvHostIdle 2]" demo_digest] show ?thesis by simp
qed

text \<open>
  A soft budget limit is reported at most once while the objective is not redefined: the number
  of notices for it in a log is one if the log brings the limit to notified and zero otherwise.
\<close>

theorem budget_notice_once:
  assumes fs: "list_all (\<lambda>e. \<not> redefines k e) fs"
    and s: "s = fst (replay digest default_state es)"
  shows "notices_of k bl (snd (replay digest s fs)) =
    (if notified (fst (replay digest s fs)) k bl \<and> \<not> notified s k bl then 1 else 0)"
proof -
  have "bt_wf (objectives (fst (run_log (react digest) default_state es)))"
  proof (induction es rule: rev_induct)
    case (snoc e es)
    then show ?case by (simp add: run_log_append(1) run_log_Cons react_wf del: run_log.simps(2))
  qed (simp add: default_state_def)
  from run_notices [OF this fs, of bl digest] show ?thesis
    by (auto simp: s replay_def of_bool_def split: if_splits)
qed

theorem budget_notice_once_witness:
  "notices_of ''o'' Turns (snd (replay demo_digest (fst (replay demo_digest default_state demo_start))
     [EvUsage \<lparr>turns = 7, context_tokens = 0, elapsed_secs = 0\<rparr>,
      EvUsage \<lparr>turns = 8, context_tokens = 0, elapsed_secs = 0\<rparr>])) = 1"
proof -
  let ?fs = "[EvUsage \<lparr>turns = 7, context_tokens = 0, elapsed_secs = 0\<rparr>,
      EvUsage \<lparr>turns = 8, context_tokens = 0, elapsed_secs = 0\<rparr>]"
  let ?s = "fst (replay demo_digest default_state demo_start)"
  have n: "notified (fst (replay demo_digest ?s ?fs)) ''o'' Turns" "\<not> notified ?s ''o'' Turns" by code_simp+
  have "list_all (\<lambda>e. \<not> redefines ''o'' e) ?fs" by (simp add: redefines_def)
  from budget_notice_once [OF this refl, where digest = demo_digest and es = demo_start and bl = Turns] n show ?thesis by simp
qed

section \<open>Verdicts and settling\<close>

text \<open>What a check is judged by: its output against the baseline's, or against itself without one.\<close>

definition judged_by :: "check_definition \<Rightarrow> results \<Rightarrow> results \<Rightarrow> comparison" where
  "judged_by c base cand =
     (let out = the (bt_get cand (check_id c));
          b = (case bt_get base (check_id c) of None \<Rightarrow> out | Some b \<Rightarrow> b)
      in projr (config_compare (check_cfg c) b out))"

lemma judged_by_finding:
  assumes "definition_validate d = []" "results_match d cand" "results_fit d base" "c \<in> set (obj_checks d)"
  shows "check_finding c base cand =
    (if bt_get base (check_id c) = None then NoBaseline (judged_by c base cand)
     else Compared (judged_by c base cand))"
proof -
  obtain out where out: "bt_get cand (check_id c) = Some out"
    using results_match_get [OF assms(2,4)] by blast
  let ?b = "case bt_get base (check_id c) of None \<Rightarrow> out | Some b \<Rightarrow> b"
  show ?thesis
    using check_finding_match [OF assms] out
    by (cases "config_compare (check_cfg c) ?b out")
      (auto simp: check_finding_def judged_by_def split: option.splits)
qed

text \<open>
  C36. The verdict, for results that match a valid definition and a baseline that fits it: a
  regression exactly when an invariant does not pass or a ratchet is worse than its baseline;
  otherwise a converging objective is done exactly when every goal passes, and a looping one is to
  be discarded exactly when something could be compared with the baseline and nothing is better.
\<close>

theorem keepable_spec:
  assumes v: "definition_validate d = []" and m: "results_match d cand" and f: "results_fit d base"
  shows "verdict_kind (keepable d base cand) =
    (if \<exists>c \<in> set (obj_checks d).
          check_role c = Invariant \<and> \<not> cmp_passed (judged_by c base cand) \<or>
          check_role c = Ratchet \<and> bt_get base (check_id c) \<noteq> None \<and> cmp_trend (judged_by c base cand) = Worse
     then VRegression
     else case obj_mode d of
       Converge \<Rightarrow>
         if \<forall>c \<in> set (obj_checks d). check_role c = Goal \<longrightarrow> cmp_passed (judged_by c base cand)
         then VDone else VKeepable
     | Loop _ \<Rightarrow>
         if (\<exists>c \<in> set (obj_checks d). bt_get base (check_id c) \<noteq> None) \<and>
            \<not> (\<exists>c \<in> set (obj_checks d). bt_get base (check_id c) \<noteq> None \<and>
                 cmp_trend (judged_by c base cand) = Better)
         then VDiscard else VKeepable)"
proof -
  note find = judged_by_finding [OF v m f]
  have reg: "regresses (check_role c) (check_finding c base cand) \<longleftrightarrow>
      check_role c = Invariant \<and> \<not> cmp_passed (judged_by c base cand) \<or>
      check_role c = Ratchet \<and> bt_get base (check_id c) \<noteq> None \<and> cmp_trend (judged_by c base cand) = Worse"
    if "c \<in> set (obj_checks d)" for c
    by (cases "check_role c") (auto simp: find [OF that] finding_passed_def)
  have goals: "goals_pass (map (\<lambda>c. reason_of c base cand) (obj_checks d)) \<longleftrightarrow>
      (\<forall>c \<in> set (obj_checks d). check_role c = Goal \<longrightarrow> cmp_passed (judged_by c base cand))"
    if "obj_mode d = Converge"
    using v that
    by (auto simp: goals_pass_def Let_def list_all_iff find finding_passed_def filter_empty_conv
        definition_validate_def mode_diagnostics_def has_role_def split: if_splits)
  have cmp: "finding_trend (check_finding c base cand) =
      (if bt_get base (check_id c) = None then None else Some (cmp_trend (judged_by c base cand)))"
    if "c \<in> set (obj_checks d)" for c
    by (simp add: find [OF that])
  show ?thesis
    by (cases "obj_mode d")
      (auto simp: keepable_def Let_def reg goals cmp reasons_improve_def)
qed

theorem keepable_spec_witness:
  "verdict_kind (keepable demo_definition [] demo_results) = VKeepable"
proof -
  have "definition_validate demo_definition = []" "results_match demo_definition demo_results"
    "results_fit demo_definition []" by code_simp+
  from keepable_spec [OF this]
  show ?thesis by (simp add: demo_definition_def demo_goal_def demo_ratchet_def) code_simp
qed

text \<open>
  C37. Settling a ready evaluation: keeping or finishing a regression and finishing what is not done
  are refused with nothing changed; otherwise the entry is appended, the evaluation is consumed, the
  kept results become the baseline, a plateau counts up unless the baseline is new or improved, and
  only a done decision ends the objective.
\<close>

theorem settle_reaction:
  assumes ob: "bt_get (objectives s) k = Some ob" "os_status ob = StOpen"
    and ev: "os_evaluation ob = Some (Ready i r res v)"
    and s': "s' = fst (react digest s (EvSettled k i dec nt))"
  shows "if dec \<noteq> DDiscard \<and> verdict_kind v = VRegression
     then react digest s (EvSettled k i dec nt) = (s, [Notify (SettleRefused k RegressionRefused)])
     else if dec = DDone \<and> verdict_kind v \<noteq> VDone
     then react digest s (EvSettled k i dec nt) = (s, [Notify (SettleRefused k NotDone)])
     else \<exists>ob'. bt_get (objectives s') k = Some ob' \<and> os_evaluation ob' = None \<and>
       ledger_entries (os_ledger ob') = ledger_entries (os_ledger ob) @
         [\<lparr>entry_revision = r, entry_results = res, entry_decision = dec, entry_note = nt\<rparr>] \<and>
       ledger_baseline (os_ledger ob') =
         (if dec = DDiscard then ledger_baseline (os_ledger ob)
          else Some \<lparr>base_revision = r, base_results = res\<rparr>) \<and>
       ledger_plateau (os_ledger ob') =
         (if dec \<noteq> DDiscard \<and> (ledger_baseline (os_ledger ob) = None \<or> verdict_improved v)
          then 0 else ledger_plateau (os_ledger ob) + 1) \<and>
       os_status ob' = (if dec = DDone then StDone (usage_since (st_usage s) (os_usage_at_start ob)) else StOpen) \<and>
       (\<forall>j. j \<noteq> k \<longrightarrow> bt_get (objectives s') j = bt_get (objectives s) j)"
proof -
  have objs: "objectives s' = objectives (fst (settle s k i dec nt))"
    unfolding s' by (subst react_objectives) simp_all
  have settled: "settle s k i dec nt =
      (case ledger_settle (os_ledger ob) \<lparr>entry_revision = r, entry_results = res,
         entry_decision = dec, entry_note = nt\<rparr> v of
         Inl err \<Rightarrow> (s, [OcNotice (SettleRefused k err)])
       | Inr l \<Rightarrow> let ob1 = ob\<lparr>os_ledger := l, os_evaluation := None\<rparr>
           in (put_objective s k (if dec = DDone then ob1\<lparr>os_status := StDone (used ob1 (st_usage s))\<rparr> else ob1),
               [OcSettled k dec]))"
    using ob ev by (simp add: settle_def open_objective_def Let_def split: sum.split)
  show ?thesis
    using ob unfolding objs react_fire apply_event.simps settled
    by (cases dec) (simp_all add: ledger_settle_def refuses_keep_def Let_def used_def)
qed

theorem settle_reaction_witness:
  "\<exists>ob'. bt_get (objectives (fst (react demo_digest (state_after demo_digest demo_judged)
      (EvSettled ''o'' 0 DKeep ''ok'')))) ''o'' = Some ob' \<and>
    ledger_baseline (os_ledger ob') = Some \<lparr>base_revision = ''r1'', base_results = demo_results\<rparr>"
proof -
  let ?s = "state_after demo_digest demo_judged" and ?v = "keepable demo_definition [] demo_results"
  let ?ob = "the (bt_get (objectives ?s) ''o'')"
  have ob: "bt_get (objectives ?s) ''o'' = Some ?ob" "os_status ?ob = StOpen"
    "os_evaluation ?ob = Some (Ready 0 ''r1'' demo_results ?v)" by code_simp+
  have "verdict_kind ?v = VKeepable" by code_simp
  with settle_reaction [OF ob refl, where digest = demo_digest and dec = DKeep and nt = "''ok''"] show ?thesis by auto
qed

text \<open>
  C38. Redefining an open objective keeps its approval, evaluation, verdict and ledger exactly when
  the standard (key, mode, checks, constraints) is the same. A changed standard drops approval,
  evaluation and verdict, and keeps of the baseline only the results of checks whose configuration
  is unchanged. Title, budget and compaction policy can change without a new approval.
\<close>

theorem redefinition_reaction:
  assumes cf: "collision_free digest (log_definitions (es @ [DefinitionChanged d]))"
    and s: "s = fst (replay digest default_state es)"
    and ob: "bt_get (objectives s) (obj_key d) = Some ob" "os_status ob = StOpen"
    and v: "definition_validate d = []"
    and s': "s' = fst (react digest s (DefinitionChanged d))"
  shows "\<exists>ob'. bt_get (objectives s') (obj_key d) = Some ob' \<and> os_definition ob' = d \<and>
    (if canonical_of d = canonical_of (os_definition ob)
     then is_approved digest ob' = is_approved digest ob \<and> os_evaluation ob' = os_evaluation ob \<and>
       os_latest_verdict ob' = os_latest_verdict ob \<and> os_ledger ob' = os_ledger ob
     else \<not> is_approved digest ob' \<and> os_evaluation ob' = None \<and> os_latest_verdict ob' = None \<and>
       ledger_entries (os_ledger ob') = ledger_entries (os_ledger ob) \<and>
       (\<forall>i. bt_get (baseline_or_empty (os_ledger ob')) i =
          (if comparable_check (os_definition ob) d i
           then bt_get (baseline_or_empty (os_ledger ob)) i else None)))"
proof -
  let ?D = "log_definitions (es @ [DefinitionChanged d])" and ?e = "os_definition ob"
  have "engine_inv digest ?D s"
    using state_after_inv [OF cf, of es] s by (simp add: state_after_def subset_insertI)
  with ob have wf: "objective_wf digest ?D (obj_key d) ob" by (simp add: engine_inv_iff)
  then have bw: "bt_wf (baseline_or_empty (os_ledger ob))" and e: "?e \<in> ?D"
    by (simp_all add: objective_wf_def results_fit_def)
  have "d \<in> ?D" using v by (simp add: log_definitions_def map_filter_append map_filter_simps defined_by_def)
  then have hash: "standard_hash digest ?e = standard_hash digest d \<longleftrightarrow> canonical_of d = canonical_of ?e"
    using hash_eq_canonical [OF cf e] by auto
  have "objectives s' = objectives (fst (define_objective digest s d))"
    unfolding s' by (subst react_objectives) simp_all
  then have ob': "bt_get (objectives s') (obj_key d) = Some (fst (redefine digest (st_usage s) ob d))"
    using ob v by (simp add: define_objective_def open_objective_def case_prod_unfold)
  have base: "bt_get (baseline_or_empty (retain_comparable ?e d (os_ledger ob))) i =
      (if comparable_check ?e d i then bt_get (baseline_or_empty (os_ledger ob)) i else None)" for i
    using bw by (auto simp: baseline_or_empty_def baseline_results_def retain_comparable_def bt_get_retain
        split: option.splits)
  show ?thesis
    using ob' hash base
    by (auto simp: redefine_def Let_def is_approved_def is_valid_for_def split: option.split)
qed

theorem redefinition_reaction_witness:
  "\<exists>ob'. bt_get (objectives (fst (react demo_digest (fst (replay demo_digest default_state demo_start))
      (DefinitionChanged demo_definition)))) ''o'' = Some ob' \<and>
    is_approved demo_digest ob' \<and> os_evaluation ob' = Some (Running 0 ''r1'' [])"
proof -
  let ?s = "fst (replay demo_digest default_state demo_start)" and ?ob = "the (bt_get (objectives
    (fst (replay demo_digest default_state demo_start))) ''o'')"
  have key: "obj_key demo_definition = ''o''" by code_simp
  have ob: "bt_get (objectives ?s) (obj_key demo_definition) = Some ?ob" "os_status ?ob = StOpen" by code_simp+
  have more: "os_definition ?ob = demo_definition" "is_approved demo_digest ?ob"
    "os_evaluation ?ob = Some (Running 0 ''r1'' [])" by code_simp+
  have "log_definitions (demo_start @ [DefinitionChanged demo_definition]) = {demo_definition}"
    using demo_log_definitions(1) demo_valid
    by (simp add: log_definitions_def map_filter_append map_filter_simps defined_by_def)
  then have "collision_free demo_digest (log_definitions (demo_start @ [DefinitionChanged demo_definition]))"
    by (simp add: demo_collision_free)
  from redefinition_reaction [OF this refl ob demo_valid refl] more show ?thesis by (auto simp: key)
qed

lemma ignored_iff [simp]: "OcNotice (EventIgnored r) \<in> set (ignored r') \<longleftrightarrow> ignored r' = ignored r"
  by (auto simp: ignored_def)

lemma finish_ignored:
  assumes "OcNotice (EventIgnored r) \<in> set (snd (finish s k i c r0 n out))"
  shows "finish s k i c r0 n out = (s, ignored r)"
proof (cases "open_objective s k")
  case (Inl occs)
  then show ?thesis using assms open_objective_InlD [OF Inl] by (auto simp: finish_def)
next
  case (Inr ob)
  show ?thesis
  proof (cases "\<exists>j rv smps. os_evaluation ob = Some (Running j rv smps)")
    case True
    then obtain j rv smps where e: "os_evaluation ob = Some (Running j rv smps)" by blast
    show ?thesis
      using assms Inr e
      by (cases "definition_check (os_definition ob) c")
        (auto simp: finish_def Let_def split: if_splits)
  next
    case False
    then show ?thesis
      using assms Inr by (cases "os_evaluation ob") (auto simp: finish_def split: evaluation.splits)
  qed
qed

lemma apply_event_ignored:
  assumes "OcNotice (EventIgnored r) \<in> set (snd (apply_event digest s e))"
  shows "apply_event digest s e = (s, ignored r)"
proof (cases e)
  case (DefinitionChanged d)
  with assms show ?thesis
    by (auto simp: define_objective_def redefine_def approval_required_def Let_def ignored_def
        dest!: open_objective_InlD split: option.splits sum.splits prod.splits if_splits)
next
  case (RevisionDelivered rev)
  with assms show ?thesis by (auto simp: deliver_def start_evaluation_def Let_def split: if_splits)
next
  case (CheckFinished k i c rev n out)
  with assms show ?thesis by (simp add: finish_ignored)
next
  case (EvClosed k)
  with assms show ?thesis
    by (auto simp: close_objective_def ignored_def split: option.splits status.splits)
next
  case (EvSettled k i dec nt)
  with assms show ?thesis
    by (auto simp: settle_def Let_def ignored_def dest!: open_objective_InlD
        split: option.splits sum.splits evaluation.splits if_splits)
qed (use assms in \<open>auto simp: approve_def request_def start_evaluation_def approval_required_def ignored_def
       dest!: open_objective_InlD split: sum.splits prod.splits if_splits\<close>)

lemma notify_limits_not_ignored: "Notify (EventIgnored r) \<notin> set (snd (notify_limits k ns ls))"
  by (induction ls arbitrary: ns) (auto simp: case_prod_unfold)

lemma fire_one_ignored:
  "Notify (EventIgnored r) \<in> set (snd (fire_one digest s oc)) \<Longrightarrow> oc = OcNotice (EventIgnored r)"
  by (cases oc)
    (auto simp: run_checks_def after_settle_def compact_when_idle_eq remind_budgets_def remind_objective_def
      case_prod_unfold notify_limits_not_ignored split: option.splits evaluation.splits if_splits)

lemma fire_ignored:
  "Notify (EventIgnored r) \<in> set (snd (fire digest s ocs)) \<Longrightarrow> OcNotice (EventIgnored r) \<in> set ocs"
proof (induction ocs arbitrary: s)
  case (Cons oc ocs)
  then show ?case using fire_one_ignored by (fastforce simp: fire_Cons simp del: fire.simps(2))
qed simp

text \<open>
  An event the engine reports as ignored changed nothing: the state is the one before it and
  the report is the only intent.
\<close>

theorem ignored_event_changes_nothing:
  assumes "Notify (EventIgnored r) \<in> set (snd (react digest s e))"
  shows "react digest s e = (s, [Notify (EventIgnored r)])"
proof -
  from assms have "apply_event digest s e = (s, ignored r)"
    by (intro apply_event_ignored fire_ignored [of r digest]) (simp add: react_fire)
  then show ?thesis by (simp add: react_fire ignored_def)
qed

theorem ignored_event_changes_nothing_witness:
  "react demo_digest (state_after demo_digest demo_judged) (CheckFinished ''o'' 0 ''lint'' ''r1'' 0 (demo_exit 0)) =
     (state_after demo_digest demo_judged, [Notify (EventIgnored StaleResult)])"
  by (rule ignored_event_changes_nothing) code_simp

text \<open>
  Several samples of an evaluator are reduced to their lower median by severity: at least half
  of the samples report at most that many blocking findings, and at least half report at least that
  many, and it is the count one of the samples reported.
\<close>

theorem blocking_is_lower_median:
  assumes "runs r \<noteq> []"
  shows "let m = blocking (output_findings r); ns = map (\<lambda>s. blocking (sample_findings s)) (runs r)
    in m \<in> set ns \<and> length ns \<le> 2 * length (filter (\<lambda>n. n \<le> m) ns) \<and>
       length ns \<le> 2 * length (filter (\<lambda>n. m \<le> n) ns)"
proof -
  let ?ns = "map (\<lambda>s. blocking (sample_findings s)) (runs r)"
  obtain m where m: "lower_median ?ns = Some m" using assms by (cases "lower_median ?ns") auto
  then have "blocking (output_findings r) = m" by (simp add: output_findings_def Let_def)
  then show ?thesis using lower_median_in [OF m] lower_median_splits [OF m] by (simp add: Let_def)
qed

definition demo_run :: "u32 \<Rightarrow> evaluator_sample" where
  "demo_run n = \<lparr>judgements = [], sample_findings = \<lparr>blocking = n, major = 0, minor = 0\<rparr>\<rparr>"

theorem blocking_is_lower_median_witness:
  "blocking (output_findings \<lparr>runs = [demo_run 5, demo_run 1, demo_run 3]\<rparr>) \<in> {5, 1, 3}"
  using blocking_is_lower_median [of "\<lparr>runs = [demo_run 5, demo_run 1, demo_run 3]\<rparr>"]
  by (simp add: Let_def demo_run_def)

text \<open>
  Metric checks with valid parameters are antisymmetric: a candidate is worse than the baseline
  exactly when the baseline is better than the candidate, in either direction, with any tolerance
  and any \<open>f64\<close> values, and a value is never better or worse than itself.
\<close>

theorem metric_trend_antisymmetric:
  assumes "metric_validate p = []"
  shows "(cmp_trend (metric_compare p b c) = Worse \<longleftrightarrow> cmp_trend (metric_compare p c b) = Better) \<and>
    cmp_trend (metric_compare p b b) = Same \<and>
    (cmp_passed (metric_compare p b c) \<longleftrightarrow> cmp_trend (metric_compare p c b) \<noteq> Better)"
  using metric_check.trend_swap [OF assms] metric_check.trend_refl [OF assms] metric_trend(2) by blast

theorem metric_trend_antisymmetric_witness:
  "cmp_trend (metric_compare \<lparr>metric_command = ''m'', metric_direction = Lower, metric_tolerance = Some (Fin 2)\<rparr>
     \<lparr>metric_value = Fin 3\<rparr> \<lparr>metric_value = Fin 3\<rparr>) = Same"
proof -
  have "metric_validate \<lparr>metric_command = ''m'', metric_direction = Lower, metric_tolerance = Some (Fin 2)\<rparr> = []"
    by code_simp
  from metric_trend_antisymmetric [OF this] show ?thesis by blast
qed

end
