(* ===== verification/Worker_Vocabulary.thy ===== *)
theory Worker_Vocabulary
  imports Calm_Prelude
begin

text \<open>
  The vocabulary of sessions, cards and providers (crates/calm-types/src/worker.rs, runtime.rs and
  \<open>CardRole\<close> of model.rs): the enums stored as text columns with their spelling and their decoder,
  and the classification of session states. Each pair of spelling and decoder interprets the locale
  \<open>db_enum\<close>, the contract of a text column. Error messages keep the offending text.
\<close>

section \<open>Roles, contracts, modes\<close>

datatype card_role = Worker | Planner | ReportCard | Assistant

fun card_role_db_str :: "card_role \<Rightarrow> string" where
  "card_role_db_str Worker = ''worker''"
| "card_role_db_str Planner = ''planner''"
| "card_role_db_str ReportCard = ''reportcard''"
| "card_role_db_str Assistant = ''assistant''"

definition card_role_try_from :: "string \<Rightarrow> (card_role, string) result" where
  "card_role_try_from v =
     (if v = ''worker'' then Inr Worker
      else if v = ''planner'' then Inr Planner
      else if v = ''reportcard'' then Inr ReportCard
      else if v = ''assistant'' then Inr Assistant
      else Inl (''unknown cards.role value `'' @ v @ ''`''))"

datatype worker_contract = CtPlanner | CtAssistant | CtExecutor | CtValidator

fun contract_db_str :: "worker_contract \<Rightarrow> string" where
  "contract_db_str CtPlanner = ''planner''"
| "contract_db_str CtAssistant = ''assistant''"
| "contract_db_str CtExecutor = ''executor''"
| "contract_db_str CtValidator = ''validator''"

definition contract_try_from :: "string \<Rightarrow> (worker_contract, string) result" where
  "contract_try_from v =
     (if v = ''planner'' then Inr CtPlanner
      else if v = ''assistant'' then Inr CtAssistant
      else if v = ''executor'' then Inr CtExecutor
      else if v = ''validator'' then Inr CtValidator
      else Inl (''unknown worker_sessions.contract value `'' @ v @ ''`''))"

datatype session_mode = Ephemeral | Resumable

fun session_mode_db_str :: "session_mode \<Rightarrow> string" where
  "session_mode_db_str Ephemeral = ''ephemeral''"
| "session_mode_db_str Resumable = ''resumable''"

definition session_mode_try_from :: "string \<Rightarrow> (session_mode, string) result" where
  "session_mode_try_from v =
     (if v = ''ephemeral'' then Inr Ephemeral
      else if v = ''resumable'' then Inr Resumable
      else Inl (''unknown worker_sessions.mode value `'' @ v @ ''`''))"

section \<open>Providers\<close>

datatype agent_provider = ApOpenCode | ApCodex | ApClaude | ApGrok | ApAntigravity

datatype agent_protocol = PrCodex | PrClaude | PrAcp

definition all_providers :: "agent_provider list" where
  "all_providers = [ApCodex, ApClaude, ApOpenCode, ApGrok, ApAntigravity]"

fun provider_protocol :: "agent_provider \<Rightarrow> agent_protocol" where
  "provider_protocol ApCodex = PrCodex"
| "provider_protocol ApClaude = PrClaude"
| "provider_protocol ApOpenCode = PrAcp"
| "provider_protocol ApGrok = PrAcp"
| "provider_protocol ApAntigravity = PrAcp"

definition protocol_providers :: "agent_protocol \<Rightarrow> agent_provider list" where
  "protocol_providers p = filter (\<lambda>a. provider_protocol a = p) all_providers"

fun provider_wire_name :: "agent_provider \<Rightarrow> string" where
  "provider_wire_name ApCodex = ''codex''"
| "provider_wire_name ApClaude = ''claude''"
| "provider_wire_name ApOpenCode = ''opencode''"
| "provider_wire_name ApGrok = ''grok''"
| "provider_wire_name ApAntigravity = ''antigravity''"

datatype worker_provider_kind = WpOpenCode | WpCodex | WpClaude | WpGrok | WpAntigravity | WpTerminal

fun provider_kind_db_str :: "worker_provider_kind \<Rightarrow> string" where
  "provider_kind_db_str WpCodex = ''codex''"
| "provider_kind_db_str WpClaude = ''claude''"
| "provider_kind_db_str WpOpenCode = ''opencode''"
| "provider_kind_db_str WpGrok = ''grok''"
| "provider_kind_db_str WpAntigravity = ''antigravity''"
| "provider_kind_db_str WpTerminal = ''terminal''"

definition provider_kind_try_from :: "string \<Rightarrow> (worker_provider_kind, string) result" where
  "provider_kind_try_from v =
     (if v = ''codex'' then Inr WpCodex
      else if v = ''claude'' then Inr WpClaude
      else if v = ''opencode'' then Inr WpOpenCode
      else if v = ''grok'' then Inr WpGrok
      else if v = ''antigravity'' then Inr WpAntigravity
      else if v = ''terminal'' then Inr WpTerminal
      else Inl v)"

fun kind_of_provider :: "agent_provider \<Rightarrow> worker_provider_kind" where
  "kind_of_provider ApCodex = WpCodex"
| "kind_of_provider ApClaude = WpClaude"
| "kind_of_provider ApOpenCode = WpOpenCode"
| "kind_of_provider ApGrok = WpGrok"
| "kind_of_provider ApAntigravity = WpAntigravity"

fun provider_of_kind :: "worker_provider_kind \<Rightarrow> (agent_provider, string) result" where
  "provider_of_kind WpCodex = Inr ApCodex"
| "provider_of_kind WpClaude = Inr ApClaude"
| "provider_of_kind WpOpenCode = Inr ApOpenCode"
| "provider_of_kind WpGrok = Inr ApGrok"
| "provider_of_kind WpAntigravity = Inr ApAntigravity"
| "provider_of_kind WpTerminal = Inl ''terminal is not an agent provider''"

definition kind_protocol :: "worker_provider_kind \<Rightarrow> agent_protocol option" where
  "kind_protocol k =
     (case provider_of_kind k of Inl _ \<Rightarrow> None | Inr a \<Rightarrow> Some (provider_protocol a))"

section \<open>Session state and liveness\<close>

datatype worker_session_state =
    Starting | Running | Idle | TurnPending | Exited | Failed | Superseded

fun is_active_authority :: "worker_session_state \<Rightarrow> bool" where
  "is_active_authority Starting = True"
| "is_active_authority Running = True"
| "is_active_authority Idle = True"
| "is_active_authority TurnPending = True"
| "is_active_authority _ = False"

fun is_terminal :: "worker_session_state \<Rightarrow> bool" where
  "is_terminal Exited = True"
| "is_terminal Failed = True"
| "is_terminal Superseded = True"
| "is_terminal _ = False"

fun session_state_db_str :: "worker_session_state \<Rightarrow> string" where
  "session_state_db_str Starting = ''starting''"
| "session_state_db_str Running = ''running''"
| "session_state_db_str Idle = ''idle''"
| "session_state_db_str TurnPending = ''turn_pending''"
| "session_state_db_str Exited = ''exited''"
| "session_state_db_str Failed = ''failed''"
| "session_state_db_str Superseded = ''superseded''"

definition session_state_try_from :: "string \<Rightarrow> (worker_session_state, string) result" where
  "session_state_try_from v =
     (if v = ''starting'' then Inr Starting
      else if v = ''running'' then Inr Running
      else if v = ''idle'' then Inr Idle
      else if v = ''turn_pending'' then Inr TurnPending
      else if v = ''exited'' then Inr Exited
      else if v = ''failed'' then Inr Failed
      else if v = ''superseded'' then Inr Superseded
      else Inl (''unknown worker_sessions.state value `'' @ v @ ''`''))"

datatype liveness_tag = LtAlive | LtIdle | LtExited | LtUnknown

fun liveness_db_str :: "liveness_tag \<Rightarrow> string" where
  "liveness_db_str LtAlive = ''alive''"
| "liveness_db_str LtIdle = ''idle''"
| "liveness_db_str LtExited = ''exited''"
| "liveness_db_str LtUnknown = ''unknown''"

definition liveness_try_from :: "string \<Rightarrow> (liveness_tag, string) result" where
  "liveness_try_from v =
     (if v = ''alive'' then Inr LtAlive
      else if v = ''idle'' then Inr LtIdle
      else if v = ''exited'' then Inr LtExited
      else if v = ''unknown'' then Inr LtUnknown
      else Inl (''unknown worker_sessions.liveness value `'' @ v @ ''`''))"

section \<open>The contract of a text column\<close>

locale db_enum =
  fixes spell :: "'a \<Rightarrow> string"
    and decode :: "string \<Rightarrow> ('a, string) result"
  assumes decode_spell: "decode (spell a) = Inr a"
    and spell_decode: "decode v = Inr a \<Longrightarrow> spell a = v"
begin

lemma spell_inj: "spell a = spell b \<longleftrightarrow> a = b"
  by (metis decode_spell sum.inject(2))

lemma decode_iff: "decode v = Inr a \<longleftrightarrow> v = spell a"
  using decode_spell spell_decode by metis

text \<open>Text that no value is spelled as is refused.\<close>

lemma decode_refuses: "(\<forall>a. spell a \<noteq> v) \<longleftrightarrow> \<not> is_ok (decode v)"
  by (cases "decode v") (metis decode_spell is_ok_simps(2) old.sum.distinct(1), metis is_ok_simps(1) spell_decode)

end

interpretation role_column: db_enum card_role_db_str card_role_try_from
proof
  show "card_role_try_from (card_role_db_str a) = Inr a" for a by (cases a) (simp_all add: card_role_try_from_def)
  show "card_role_try_from v = Inr a \<Longrightarrow> card_role_db_str a = v" for v a by (auto simp: card_role_try_from_def split: if_splits)
qed

interpretation contract_column: db_enum contract_db_str contract_try_from
proof
  show "contract_try_from (contract_db_str a) = Inr a" for a by (cases a) (simp_all add: contract_try_from_def)
  show "contract_try_from v = Inr a \<Longrightarrow> contract_db_str a = v" for v a by (auto simp: contract_try_from_def split: if_splits)
qed

interpretation mode_column: db_enum session_mode_db_str session_mode_try_from
proof
  show "session_mode_try_from (session_mode_db_str a) = Inr a" for a by (cases a) (simp_all add: session_mode_try_from_def)
  show "session_mode_try_from v = Inr a \<Longrightarrow> session_mode_db_str a = v" for v a by (auto simp: session_mode_try_from_def split: if_splits)
qed

interpretation provider_column: db_enum provider_kind_db_str provider_kind_try_from
proof
  show "provider_kind_try_from (provider_kind_db_str a) = Inr a" for a by (cases a) (simp_all add: provider_kind_try_from_def)
  show "provider_kind_try_from v = Inr a \<Longrightarrow> provider_kind_db_str a = v" for v a by (auto simp: provider_kind_try_from_def split: if_splits)
qed

interpretation state_column: db_enum session_state_db_str session_state_try_from
proof
  show "session_state_try_from (session_state_db_str a) = Inr a" for a by (cases a) (simp_all add: session_state_try_from_def)
  show "session_state_try_from v = Inr a \<Longrightarrow> session_state_db_str a = v" for v a by (auto simp: session_state_try_from_def split: if_splits)
qed

interpretation liveness_column: db_enum liveness_db_str liveness_try_from
proof
  show "liveness_try_from (liveness_db_str a) = Inr a" for a by (cases a) (simp_all add: liveness_try_from_def)
  show "liveness_try_from v = Inr a \<Longrightarrow> liveness_db_str a = v" for v a by (auto simp: liveness_try_from_def split: if_splits)
qed

text \<open>A session state either carries live authority or is terminal.\<close>

lemma active_iff_not_terminal: "is_active_authority t \<longleftrightarrow> \<not> is_terminal t"
  by (cases t) auto

lemma provider_kind_roundtrip: "provider_of_kind (kind_of_provider a) = Inr a"
  by (cases a) auto

end
