(* ===== verification/Actors.thy ===== *)
theory Actors
  imports Worker_Vocabulary
begin

text \<open>
  Who writes an event and where it lives: \<open>ActorId\<close> (crates/calm-types/src/ids.rs), \<open>EventScope\<close> and
  the variants of \<open>Event\<close> (event.rs), \<open>ProposalDecision\<close> (proposal.rs). An event carries here the
  payload fields the role gate reads and no others; every variant is present.
\<close>

type_synonym card_id = string
type_synonym track_id = string
type_synonym area_id = string
type_synonym session_id = string

section \<open>Actors\<close>

datatype actor_id =
    User | Kernel | KernelDispatcher | Plugin string
  | AiPlanner card_id | AiCodex card_id | AiClaude card_id | AiManagedCard card_id
  | AiPlannerSession session_id | AiCodexSession session_id
  | AiClaudeSession session_id | AiManagedSession session_id

definition for_agent_session :: "card_role \<Rightarrow> agent_provider \<Rightarrow> session_id \<Rightarrow> actor_id" where
  "for_agent_session r provider session =
     (case r of
        Planner \<Rightarrow> AiPlannerSession session
      | Assistant \<Rightarrow> AiManagedSession session
      | _ \<Rightarrow> (case provider_protocol provider of
               PrCodex \<Rightarrow> AiCodexSession session
             | PrClaude \<Rightarrow> AiClaudeSession session
             | PrAcp \<Rightarrow> AiManagedSession session))"

definition tagged :: "string \<Rightarrow> string \<Rightarrow> string" where
  "tagged label i = (if i = [] then label else label @ '':'' @ i)"

fun actor_display :: "actor_id \<Rightarrow> string" where
  "actor_display User = ''user''"
| "actor_display Kernel = ''kernel''"
| "actor_display KernelDispatcher = ''kernel-dispatcher''"
| "actor_display (Plugin i) = ''plugin:'' @ i"
| "actor_display (AiPlanner i) = tagged ''ai:planner'' i"
| "actor_display (AiCodex i) = tagged ''ai:codex'' i"
| "actor_display (AiClaude i) = tagged ''ai:claude'' i"
| "actor_display (AiManagedCard i) = tagged ''ai:managed-card'' i"
| "actor_display (AiPlannerSession i) = tagged ''ai:planner-session'' i"
| "actor_display (AiCodexSession i) = tagged ''ai:codex-session'' i"
| "actor_display (AiClaudeSession i) = tagged ''ai:claude-session'' i"
| "actor_display (AiManagedSession i) = tagged ''ai:managed-session'' i"

fun session_of :: "actor_id \<Rightarrow> session_id option" where
  "session_of (AiPlannerSession s) = Some s"
| "session_of (AiCodexSession s) = Some s"
| "session_of (AiClaudeSession s) = Some s"
| "session_of (AiManagedSession s) = Some s"
| "session_of _ = None"

fun actor_card_id :: "actor_id \<Rightarrow> card_id option" where
  "actor_card_id (AiCodex c) = Some c"
| "actor_card_id (AiClaude c) = Some c"
| "actor_card_id (AiManagedCard c) = Some c"
| "actor_card_id (AiPlanner c) = Some c"
| "actor_card_id _ = None"

text \<open>The printed form of an actor names it: no two actors print alike.\<close>

lemma tagged_inj: "tagged label i = tagged label j \<longleftrightarrow> i = j"
  by (auto simp: tagged_def)

lemma actor_display_inj: "actor_display a = actor_display b \<longleftrightarrow> a = b"
  by (cases a; cases b; simp add: tagged_inj) (auto simp: tagged_def)

section \<open>Scopes\<close>

datatype event_scope =
    SSystem | SArea area_id | STrack track_id area_id | SCard card_id track_id area_id

fun scope_kind :: "event_scope \<Rightarrow> string" where
  "scope_kind SSystem = ''system''"
| "scope_kind (SArea _) = ''area''"
| "scope_kind (STrack _ _) = ''track''"
| "scope_kind (SCard _ _ _) = ''card''"

fun scope_area :: "event_scope \<Rightarrow> area_id option" where
  "scope_area SSystem = None"
| "scope_area (SArea a) = Some a"
| "scope_area (STrack _ a) = Some a"
| "scope_area (SCard _ _ a) = Some a"

fun scope_track :: "event_scope \<Rightarrow> track_id option" where
  "scope_track SSystem = None"
| "scope_track (SArea _) = None"
| "scope_track (STrack t _) = Some t"
| "scope_track (SCard _ t _) = Some t"

fun scope_card :: "event_scope \<Rightarrow> card_id option" where
  "scope_card (SCard c _ _) = Some c"
| "scope_card _ = None"

definition scope_from_row ::
  "string option \<Rightarrow> string option \<Rightarrow> string option \<Rightarrow> string option \<Rightarrow> event_scope" where
  "scope_from_row knd area track cd =
     (let k = (case knd of None \<Rightarrow> ''system'' | Some k \<Rightarrow> k)
      in if k = ''area'' then (case area of Some a \<Rightarrow> SArea a | None \<Rightarrow> SSystem)
         else if k = ''track'' then
           (case (track, area) of (Some t, Some a) \<Rightarrow> STrack t a | _ \<Rightarrow> SSystem)
         else if k = ''card'' then
           (case (cd, track, area) of (Some c, Some t, Some a) \<Rightarrow> SCard c t a | _ \<Rightarrow> SSystem)
         else SSystem)"

text \<open>A scope written to its four columns is read back.\<close>

lemma scope_roundtrip:
  "scope_from_row (Some (scope_kind s)) (scope_area s) (scope_track s) (scope_card s) = s"
  by (cases s) (simp_all add: scope_from_row_def)

section \<open>Events\<close>

datatype proposal_decision = Accepted | Rejected | Stale | Withdrawn

fun proposal_decision_str :: "proposal_decision \<Rightarrow> string" where
  "proposal_decision_str Accepted = ''accepted''"
| "proposal_decision_str Rejected = ''rejected''"
| "proposal_decision_str Stale = ''stale''"
| "proposal_decision_str Withdrawn = ''withdrawn''"

text \<open>
  \<open>AssistantInputRequested\<close> carries the card and the track, \<open>ProposalSubmitted\<close> the plugin,
  \<open>ProposalResolved\<close> the plugin and the decision.
\<close>

datatype wire_event =
    AreaUpdated | AreaDeleted | TrackUpdated
  | TrackDeleted | CardAdded | CardUpdated
  | CardDeleted | WorkerSessionStarted | WorkerSessionStatusChanged
  | WorkerSessionSuperseded | HarnessItemAdded | HarnessPhaseChanged
  | HarnessTranscriptCleared | HarnessTranscriptRewound | HarnessUserMessageEnqueued
  | HarnessQueueChanged | TrackReportEdited | TrackWakeRequested
  | AssistantInputRequested string string | OverlaySet | OverlayDeleted
  | TerminalDeleted | PluginState | PluginDataChanged
  | PluginToolRegistered | CodexHook | ClaudeHook
  | CodexWorkerRequested | TerminalWorkerRequested | TaskCompleted
  | TaskFailed | TaskGitDeliverySettled | PlanUpdated
  | TaskDispatched | TaskContextFrozen | TaskContextAdvanced
  | WorkspaceLeased | WorkspaceReleased | ForgePrMerged
  | AskRequested | AskAnswered | AskWithdrawn
  | ProposalSubmitted string | ProposalResolved string proposal_decision | ForgeScanCompleted
  | ForgePrOpened | ForgePrPublished | ForgePrDiffRead
  | ForgePrChecks | ForgeCiEvidenceRead | ForgeIssueRead
  | ForgeIssueCreated | ForgeIssueSearched | ForgeIssueClosed
  | WorktreeProvisioned | WorktreeCommitted | WorktreeRemoved
  | TaskGateResult | TaskRegateRequested | HarnessPresentationChanged

fun kind_tag :: "wire_event \<Rightarrow> string" where
  "kind_tag AreaUpdated = ''area.updated''"
| "kind_tag AreaDeleted = ''area.deleted''"
| "kind_tag TrackUpdated = ''track.updated''"
| "kind_tag TrackDeleted = ''track.deleted''"
| "kind_tag CardAdded = ''card.added''"
| "kind_tag CardUpdated = ''card.updated''"
| "kind_tag CardDeleted = ''card.deleted''"
| "kind_tag WorkerSessionStarted = ''worker_session.started''"
| "kind_tag WorkerSessionStatusChanged = ''worker_session.status_changed''"
| "kind_tag WorkerSessionSuperseded = ''worker_session.superseded''"
| "kind_tag HarnessPresentationChanged = ''harness.presentation.changed''"
| "kind_tag HarnessItemAdded = ''harness.item.added''"
| "kind_tag HarnessPhaseChanged = ''harness.phase.changed''"
| "kind_tag HarnessTranscriptCleared = ''harness.transcript.cleared''"
| "kind_tag HarnessTranscriptRewound = ''harness.transcript.rewound''"
| "kind_tag HarnessUserMessageEnqueued = ''harness.user_message.enqueued''"
| "kind_tag HarnessQueueChanged = ''harness.queue.changed''"
| "kind_tag TrackReportEdited = ''track.report_edited''"
| "kind_tag TrackWakeRequested = ''track.wake_requested''"
| "kind_tag (AssistantInputRequested _ _) = ''assistant.input_requested''"
| "kind_tag OverlaySet = ''overlay.set''"
| "kind_tag OverlayDeleted = ''overlay.deleted''"
| "kind_tag TerminalDeleted = ''terminal.deleted''"
| "kind_tag PluginState = ''plugin.state''"
| "kind_tag PluginToolRegistered = ''plugin.tool.registered''"
| "kind_tag PluginDataChanged = ''plugin.data.changed''"
| "kind_tag CodexHook = ''codex.hook''"
| "kind_tag ClaudeHook = ''claude.hook''"
| "kind_tag CodexWorkerRequested = ''codex.worker_requested''"
| "kind_tag TerminalWorkerRequested = ''terminal.worker_requested''"
| "kind_tag TaskCompleted = ''task.completed''"
| "kind_tag TaskFailed = ''task.failed''"
| "kind_tag PlanUpdated = ''plan.updated''"
| "kind_tag TaskDispatched = ''task.dispatched''"
| "kind_tag TaskGitDeliverySettled = ''task.git_delivery_settled''"
| "kind_tag TaskContextFrozen = ''task.context_frozen''"
| "kind_tag TaskContextAdvanced = ''task.context_advanced''"
| "kind_tag WorkspaceLeased = ''workspace.leased''"
| "kind_tag WorkspaceReleased = ''workspace.released''"
| "kind_tag ForgePrMerged = ''forge.pr.merged''"
| "kind_tag AskRequested = ''ask.requested''"
| "kind_tag AskAnswered = ''ask.answered''"
| "kind_tag AskWithdrawn = ''ask.withdrawn''"
| "kind_tag (ProposalSubmitted _) = ''proposal.submitted''"
| "kind_tag (ProposalResolved _ _) = ''proposal.resolved''"
| "kind_tag ForgeScanCompleted = ''forge.scan.completed''"
| "kind_tag ForgePrOpened = ''forge.pr.opened''"
| "kind_tag ForgePrPublished = ''forge.pr.published''"
| "kind_tag ForgePrDiffRead = ''forge.pr.diff.read''"
| "kind_tag ForgePrChecks = ''forge.pr.checks''"
| "kind_tag ForgeCiEvidenceRead = ''forge.ci.evidence.read''"
| "kind_tag ForgeIssueRead = ''forge.issue.read''"
| "kind_tag ForgeIssueCreated = ''forge.issue.created''"
| "kind_tag ForgeIssueSearched = ''forge.issue.searched''"
| "kind_tag ForgeIssueClosed = ''forge.issue.closed''"
| "kind_tag WorktreeProvisioned = ''worktree.provisioned''"
| "kind_tag WorktreeCommitted = ''worktree.committed''"
| "kind_tag WorktreeRemoved = ''worktree.removed''"
| "kind_tag TaskGateResult = ''task.gate_result''"
| "kind_tag TaskRegateRequested = ''task.regate_requested''"

end
