(* ===== verification/Role_Gate.thy ===== *)
theory Role_Gate
  imports Actors
begin

text \<open>
  The authorisation gate at the single write entry (crates/calm-truth/src/role\_gate.rs) with the
  two caches it reads (card\_role\_cache.rs, track\_area\_cache.rs). \<open>enforce_role\<close> is the sequence of
  the source's checks; each numbered section of the source is one definition here.

  A violation keeps the values its message is formatted from. Where the message is made by
  \<open>format!\<close> with text the text is built here; where it is the derived \<open>Debug\<close> form of a value
  (\<open>{actor:?}\<close>, \<open>{scope:?}\<close>) the value itself stands for its text.
\<close>

section \<open>Caches\<close>

record card_cache_entry =
  entry_role :: card_role
  entry_track :: track_id

type_synonym card_role_cache = "card_id \<rightharpoonup> card_cache_entry"
type_synonym track_area_cache = "track_id \<rightharpoonup> area_id"

definition cache_get :: "card_role_cache \<Rightarrow> card_id \<Rightarrow> card_role option" where
  "cache_get cache c = map_option entry_role (cache c)"

definition track_of :: "card_role_cache \<Rightarrow> card_id \<Rightarrow> track_id option" where
  "track_of cache c = map_option entry_track (cache c)"

definition cache_insert :: "card_role_cache \<Rightarrow> card_id \<Rightarrow> card_role \<Rightarrow> track_id \<Rightarrow> card_role_cache" where
  "cache_insert cache c r t = cache(c \<mapsto> \<lparr>entry_role = r, entry_track = t\<rparr>)"

definition publish_pair ::
  "card_role_cache \<Rightarrow> card_id \<times> card_cache_entry \<Rightarrow> card_id \<times> card_cache_entry \<Rightarrow> card_role_cache" where
  "publish_pair cache old new = cache(fst old \<mapsto> snd old, fst new \<mapsto> snd new)"

definition cache_remove :: "card_role_cache \<Rightarrow> card_id \<Rightarrow> card_role_cache" where
  "cache_remove cache c = cache(c := None)"

definition area_of :: "track_area_cache \<Rightarrow> track_id \<Rightarrow> area_id option" where
  "area_of areas t = areas t"

definition area_insert :: "track_area_cache \<Rightarrow> track_id \<Rightarrow> area_id \<Rightarrow> track_area_cache" where
  "area_insert areas t a = areas(t \<mapsto> a)"

definition area_remove :: "track_area_cache \<Rightarrow> track_id \<Rightarrow> track_area_cache" where
  "area_remove areas t = areas(t := None)"

text \<open>
  The boot-time seeds: \<open>rows\<close> is what the query returns, or its error. The card cache is replaced
  as a whole, and only by rows that all decode; the area cache is cleared first.
\<close>

fun seed_entries ::
  "card_role_cache \<Rightarrow> (string \<times> string \<times> string) list \<Rightarrow> (card_role_cache, string) result" where
  "seed_entries entries [] = Inr entries"
| "seed_entries entries ((i, r, t) # rows) =
     and_then (card_role_try_from r)
       (\<lambda>role. seed_entries (cache_insert entries i role t) rows)"

definition cache_seed_from_db ::
  "card_role_cache \<Rightarrow> ((string \<times> string \<times> string) list, string) result \<Rightarrow>
     card_role_cache \<times> (unit, string) result" where
  "cache_seed_from_db cache rows =
     (case and_then rows (seed_entries Map.empty) of
        Inl e \<Rightarrow> (cache, Inl e) | Inr entries \<Rightarrow> (entries, Inr ()))"

definition area_seed_from_db ::
  "track_area_cache \<Rightarrow> ((string \<times> string) list, string) result \<Rightarrow>
     track_area_cache \<times> (unit, string) result" where
  "area_seed_from_db areas rows =
     (case rows of
        Inl e \<Rightarrow> (Map.empty, Inl e)
      | Inr rs \<Rightarrow> (foldl (\<lambda>m (t, a). area_insert m t a) Map.empty rs, Inr ()))"

section \<open>A write-through cache\<close>

text \<open>What the gate's callers rely on of either cache: reads after an insert and after a removal.\<close>

locale keyed_cache =
  fixes look :: "'m \<Rightarrow> 'k \<Rightarrow> 'v option"
    and ins :: "'m \<Rightarrow> 'k \<Rightarrow> 'v \<Rightarrow> 'm"
    and del :: "'m \<Rightarrow> 'k \<Rightarrow> 'm"
  assumes look_ins: "look (ins m k v) j = (if j = k then Some v else look m j)"
    and look_del: "look (del m k) j = (if j = k then None else look m j)"
begin

text \<open>Inserting rows one by one keeps the last row of a key.\<close>

lemma look_rows:
  "look (foldl (\<lambda>m (k, v). ins m k v) m rows) j =
     (case map_of (rev rows) j of None \<Rightarrow> look m j | Some v \<Rightarrow> Some v)"
  by (induction rows rule: rev_induct) (auto simp: look_ins)

lemma look_del_ins: "look (del (ins m k v) k) j = (if j = k then None else look m j)"
  by (simp add: look_ins look_del)

end

interpretation role_cache: keyed_cache
  "\<lambda>m c. m c" "\<lambda>m c e. cache_insert m c (entry_role e) (entry_track e)" cache_remove
  by unfold_locales (auto simp: cache_insert_def cache_remove_def)

interpretation area_cache: keyed_cache area_of area_insert area_remove
  by unfold_locales (auto simp: area_of_def area_insert_def area_remove_def)

lemma cache_get_insert:
  "cache_get (cache_insert m c r t) j = (if j = c then Some r else cache_get m j)"
  by (simp add: cache_get_def cache_insert_def)

lemma track_of_insert:
  "track_of (cache_insert m c r t) j = (if j = c then Some t else track_of m j)"
  by (simp add: track_of_def cache_insert_def)

lemma area_seed_look:
  "area_of (fst (area_seed_from_db areas (Inr rows))) t = map_of (rev rows) t"
  using area_cache.look_rows [of Map.empty rows t]
  by (simp add: area_seed_from_db_def area_of_def split: option.splits)

section \<open>Violations\<close>

datatype actor_text = Text string | Debug actor_id

datatype scope_text = ScopeText string event_scope

datatype role_violation =
    EmptyAiCardId
  | SessionActorUnresolved session_id
  | SessionRowMissing session_id
  | SessionNotActive session_id
  | CardlessSessionDenied session_id
  | SessionResolutionError session_id
  | SessionPlannerRoleMismatch session_id card_id
  | NotPlannerForTrack actor_text
  | NotPlannerForDispatch actor_text
  | NotKernelForTaskDispatched actor_text
  | NotKernelForTaskContextFrozen actor_text
  | NotKernelForTaskContextAdvanced actor_text
  | NotKernelForTaskGitDeliverySettled actor_text
  | InvalidAssistantInput
  | NotKernelForTrackWakeRequested actor_text
  | NotKernelForTaskGateResult actor_text
  | NotPlannerForAsk actor_text
  | NotUserForAskAnswered actor_text
  | NotPlannerForAskWithdrawn actor_text
  | NotPlannerForTaskRegate actor_text
  | NotSubmitterPluginForProposalSubmitted actor_text string
  | NotUserForProposalResolved string actor_text
  | NotSubmitterPluginForProposalWithdrawn actor_text string
  | WorkerOutOfScope card_id scope_text
  | AssistantOutOfScope card_id scope_text
  | UnknownCard card_id
  | RoleLookupFailed string

definition parens :: "string \<Rightarrow> string \<Rightarrow> string" where
  "parens label i = label @ ''('' @ i @ '')''"

text \<open>The text a refused actor is reported with by the sections that match on every actor.\<close>

fun claimed :: "actor_id \<Rightarrow> actor_text" where
  "claimed User = Text ''User''"
| "claimed (Plugin n) = Text (parens ''Plugin'' n)"
| "claimed (AiPlanner c) = Text (parens ''AiPlanner'' c)"
| "claimed (AiCodex c) = Text (parens ''AiCodex'' c)"
| "claimed (AiClaude c) = Text (parens ''AiClaude'' c)"
| "claimed (AiManagedCard c) = Text (parens ''AiManagedCard'' c)"
| "claimed a = Debug a"

definition printed :: "actor_id \<Rightarrow> actor_text" where
  "printed a = Text (actor_display a)"

section \<open>The gate, section by section\<close>

definition is_kernel :: "actor_id \<Rightarrow> bool" where
  "is_kernel a \<longleftrightarrow> a = Kernel \<or> a = KernelDispatcher"

definition gate_identity :: "actor_id \<Rightarrow> card_role_cache \<Rightarrow> (unit, role_violation) result" where
  "gate_identity actor cache =
     (case actor_card_id actor of
        Some [] \<Rightarrow> Inl EmptyAiCardId
      | _ \<Rightarrow>
         (case session_of actor of
            Some [] \<Rightarrow> Inl (SessionActorUnresolved [])
          | _ \<Rightarrow>
             (case actor of
                AiManagedCard c \<Rightarrow>
                  if cache_get cache c \<noteq> Some Assistant then Inl (UnknownCard c) else Inr ()
              | _ \<Rightarrow> Inr ())))"

definition gate_planner_event ::
  "(actor_text \<Rightarrow> role_violation) \<Rightarrow> actor_id \<Rightarrow> card_role_cache \<Rightarrow> (unit, role_violation) result" where
  "gate_planner_event violation actor cache =
     (case actor of
        User \<Rightarrow> Inr () | Kernel \<Rightarrow> Inr () | KernelDispatcher \<Rightarrow> Inr ()
      | Plugin _ \<Rightarrow> Inr ()
      | AiPlanner c \<Rightarrow>
          if cache_get cache c \<noteq> Some Planner then Inl (violation (claimed actor)) else Inr ()
      | AiCodex _ \<Rightarrow> Inl (violation (claimed actor))
      | AiClaude _ \<Rightarrow> Inl (violation (claimed actor))
      | AiManagedCard _ \<Rightarrow> Inl (violation (claimed actor))
      | AiPlannerSession s \<Rightarrow> Inl (SessionActorUnresolved s)
      | AiCodexSession s \<Rightarrow> Inl (SessionActorUnresolved s)
      | AiClaudeSession s \<Rightarrow> Inl (SessionActorUnresolved s)
      | AiManagedSession s \<Rightarrow> Inl (SessionActorUnresolved s))"

definition gate_track_updated ::
  "actor_id \<Rightarrow> wire_event \<Rightarrow> card_role_cache \<Rightarrow> (unit, role_violation) result" where
  "gate_track_updated actor event cache =
     (if event = TrackUpdated then gate_planner_event NotPlannerForTrack actor cache else Inr ())"

definition is_dispatch :: "wire_event \<Rightarrow> bool" where
  "is_dispatch event \<longleftrightarrow>
     event = CodexWorkerRequested \<or> event = TerminalWorkerRequested \<or> event = PlanUpdated"

definition gate_dispatch ::
  "actor_id \<Rightarrow> wire_event \<Rightarrow> card_role_cache \<Rightarrow> (unit, role_violation) result" where
  "gate_dispatch actor event cache =
     (if is_dispatch event then gate_planner_event NotPlannerForDispatch actor cache else Inr ())"

text \<open>Records of the kernel; \<open>strict\<close> ones are refused from the user as well.\<close>

definition gate_kernel_event ::
  "bool \<Rightarrow> (actor_text \<Rightarrow> role_violation) \<Rightarrow> actor_id \<Rightarrow> (unit, role_violation) result" where
  "gate_kernel_event strict violation actor =
     (case actor of
        Kernel \<Rightarrow> Inr () | KernelDispatcher \<Rightarrow> Inr ()
      | User \<Rightarrow> if strict then Inl (violation (claimed actor)) else Inr ()
      | Plugin _ \<Rightarrow> Inl (violation (claimed actor))
      | AiPlanner _ \<Rightarrow> Inl (violation (claimed actor))
      | AiCodex _ \<Rightarrow> Inl (violation (claimed actor))
      | AiClaude _ \<Rightarrow> Inl (violation (claimed actor))
      | AiManagedCard _ \<Rightarrow> Inl (violation (claimed actor))
      | AiPlannerSession s \<Rightarrow> Inl (SessionActorUnresolved s)
      | AiCodexSession s \<Rightarrow> Inl (SessionActorUnresolved s)
      | AiClaudeSession s \<Rightarrow> Inl (SessionActorUnresolved s)
      | AiManagedSession s \<Rightarrow> Inl (SessionActorUnresolved s))"

definition gate_task_dispatched :: "actor_id \<Rightarrow> wire_event \<Rightarrow> (unit, role_violation) result" where
  "gate_task_dispatched actor event =
     (if event = TaskDispatched then gate_kernel_event False NotKernelForTaskDispatched actor else Inr ())"

definition gate_context_frozen :: "actor_id \<Rightarrow> wire_event \<Rightarrow> (unit, role_violation) result" where
  "gate_context_frozen actor event =
     (if event = TaskContextFrozen then gate_kernel_event True NotKernelForTaskContextFrozen actor
      else Inr ())"

definition gate_git_delivery :: "actor_id \<Rightarrow> wire_event \<Rightarrow> (unit, role_violation) result" where
  "gate_git_delivery actor event =
     (if event = TaskGitDeliverySettled \<and> \<not> is_kernel actor
      then Inl (NotKernelForTaskGitDeliverySettled (Debug actor)) else Inr ())"

definition gate_assistant_input ::
  "actor_id \<Rightarrow> wire_event \<Rightarrow> event_scope \<Rightarrow> (unit, role_violation) result" where
  "gate_assistant_input actor event scope =
     (case event of
        AssistantInputRequested c t \<Rightarrow>
          if \<not> is_kernel actor \<or> scope_card scope \<noteq> Some c \<or> scope_track scope \<noteq> Some t
          then Inl InvalidAssistantInput else Inr ()
      | _ \<Rightarrow> Inr ())"

definition gate_track_wake :: "actor_id \<Rightarrow> wire_event \<Rightarrow> (unit, role_violation) result" where
  "gate_track_wake actor event =
     (if event = TrackWakeRequested \<and> \<not> is_kernel actor
      then Inl (NotKernelForTrackWakeRequested (Debug actor)) else Inr ())"

definition gate_context_advanced :: "actor_id \<Rightarrow> wire_event \<Rightarrow> (unit, role_violation) result" where
  "gate_context_advanced actor event =
     (if event = TaskContextAdvanced then gate_kernel_event True NotKernelForTaskContextAdvanced actor
      else Inr ())"

definition gate_gate_result :: "actor_id \<Rightarrow> wire_event \<Rightarrow> (unit, role_violation) result" where
  "gate_gate_result actor event =
     (if event = TaskGateResult then gate_kernel_event False NotKernelForTaskGateResult actor else Inr ())"

definition is_planner :: "actor_id \<Rightarrow> card_role_cache \<Rightarrow> bool" where
  "is_planner actor cache =
     (case actor of AiPlanner c \<Rightarrow> cache_get cache c = Some Planner | _ \<Rightarrow> False)"

definition gate_ask_requested ::
  "actor_id \<Rightarrow> wire_event \<Rightarrow> card_role_cache \<Rightarrow> (unit, role_violation) result" where
  "gate_ask_requested actor event cache =
     (if event = AskRequested \<and> \<not> is_planner actor cache
      then Inl (NotPlannerForAsk (printed actor)) else Inr ())"

definition gate_ask_answered :: "actor_id \<Rightarrow> wire_event \<Rightarrow> (unit, role_violation) result" where
  "gate_ask_answered actor event =
     (if event = AskAnswered \<and> actor \<noteq> User then Inl (NotUserForAskAnswered (printed actor)) else Inr ())"

definition gate_ask_withdrawn ::
  "actor_id \<Rightarrow> wire_event \<Rightarrow> card_role_cache \<Rightarrow> (unit, role_violation) result" where
  "gate_ask_withdrawn actor event cache =
     (if event = AskWithdrawn \<and> \<not> is_planner actor cache
      then Inl (NotPlannerForAskWithdrawn (printed actor)) else Inr ())"

definition gate_regate ::
  "actor_id \<Rightarrow> wire_event \<Rightarrow> card_role_cache \<Rightarrow> (unit, role_violation) result" where
  "gate_regate actor event cache =
     (if event = TaskRegateRequested \<and> \<not> is_planner actor cache
      then Inl (NotPlannerForTaskRegate (printed actor)) else Inr ())"

definition gate_proposal_submitted :: "actor_id \<Rightarrow> wire_event \<Rightarrow> (unit, role_violation) result" where
  "gate_proposal_submitted actor event =
     (case event of
        ProposalSubmitted p \<Rightarrow>
          if actor = Plugin p then Inr ()
          else Inl (NotSubmitterPluginForProposalSubmitted (printed actor) p)
      | _ \<Rightarrow> Inr ())"

definition gate_proposal_resolved :: "actor_id \<Rightarrow> wire_event \<Rightarrow> (unit, role_violation) result" where
  "gate_proposal_resolved actor event =
     (case event of
        ProposalResolved p dec \<Rightarrow>
          if dec = Withdrawn then
            (if actor = Plugin p then Inr ()
             else Inl (NotSubmitterPluginForProposalWithdrawn (printed actor) p))
          else
            (if actor = User then Inr ()
             else Inl (NotUserForProposalResolved (proposal_decision_str dec) (printed actor)))
      | _ \<Rightarrow> Inr ())"

section \<open>Containment of card-bound actors\<close>

definition enforce_card_scope ::
  "card_id \<Rightarrow> event_scope \<Rightarrow> card_role_cache \<Rightarrow> track_area_cache \<Rightarrow> (card_id \<Rightarrow> track_id \<Rightarrow> bool) \<Rightarrow>
     (card_id \<Rightarrow> scope_text \<Rightarrow> role_violation) \<Rightarrow> (unit, role_violation) result" where
  "enforce_card_scope c scope cache areas target_allowed violation =
     (case scope of
        SCard target strack sarea \<Rightarrow>
          (case track_of cache c of
             None \<Rightarrow> Inl (violation c (ScopeText ''scope.card mismatch: '' scope))
           | Some home \<Rightarrow>
               if \<not> target_allowed target home
               then Inl (violation c (ScopeText ''scope.card mismatch: '' scope))
               else if strack \<noteq> home
               then Inl (violation c
                 (ScopeText (''scope.track mismatch: home='' @ home @ '', scope='') scope))
               else (case area_of areas home of
                  None \<Rightarrow> Inl (RoleLookupFailed (parens ''tracks.area_id'' home))
                | Some home_area \<Rightarrow>
                    if sarea \<noteq> home_area
                    then Inl (violation c
                      (ScopeText (''scope.area mismatch: home='' @ home_area @ '', scope='') scope))
                    else Inr ()))
      | _ \<Rightarrow> Inl (violation c (ScopeText ''scope.card mismatch: '' scope)))"

definition enforce_card_self_scope ::
  "card_id \<Rightarrow> event_scope \<Rightarrow> card_role_cache \<Rightarrow> track_area_cache \<Rightarrow> (unit, role_violation) result" where
  "enforce_card_self_scope c scope cache areas =
     enforce_card_scope c scope cache areas (\<lambda>target home. target = c) WorkerOutOfScope"

definition enforce_assistant_scope ::
  "card_id \<Rightarrow> event_scope \<Rightarrow> card_role_cache \<Rightarrow> track_area_cache \<Rightarrow> (unit, role_violation) result" where
  "enforce_assistant_scope c scope cache areas =
     enforce_card_scope c scope cache areas
       (\<lambda>target home. target = c \<or>
          (cache_get cache target = Some ReportCard \<and> track_of cache target = Some home))
       AssistantOutOfScope"

fun is_own_worker_lifecycle_event :: "actor_id \<Rightarrow> wire_event \<Rightarrow> bool" where
  "is_own_worker_lifecycle_event (AiCodex _) event \<longleftrightarrow>
     event = CodexHook \<or> event = HarnessUserMessageEnqueued"
| "is_own_worker_lifecycle_event (AiClaude _) event \<longleftrightarrow>
     event = ClaudeHook \<or> event = HarnessUserMessageEnqueued"
| "is_own_worker_lifecycle_event (AiManagedCard _) event \<longleftrightarrow> event = HarnessUserMessageEnqueued"
| "is_own_worker_lifecycle_event _ _ \<longleftrightarrow> False"

fun worker_of :: "actor_id \<Rightarrow> (card_id \<times> string) option" where
  "worker_of (AiCodex c) = Some (c, ''AiCodex'')"
| "worker_of (AiClaude c) = Some (c, ''AiClaude'')"
| "worker_of (AiManagedCard c) = Some (c, ''AiManagedCard'')"
| "worker_of _ = None"

text \<open>The suffix of the message in UTF-8 (the dash is \<open>E2 80 94\<close>).\<close>

definition planner_roled_text :: string where
  "planner_roled_text = '' '' @ [CHR 0xE2, CHR 0x80, CHR 0x94]
     @ '' card is Planner-roled but actor variant is not AiPlanner''"

definition gate_containment ::
  "actor_id \<Rightarrow> wire_event \<Rightarrow> event_scope \<Rightarrow> card_role_cache \<Rightarrow> track_area_cache \<Rightarrow> (unit, role_violation) result" where
  "gate_containment actor event scope cache areas =
     (case session_of actor of
        Some s \<Rightarrow> Inl (SessionActorUnresolved s)
      | None \<Rightarrow>
         (case worker_of actor of
            None \<Rightarrow> Inr ()
          | Some (c, label) \<Rightarrow>
             (case cache_get cache c of
                None \<Rightarrow> Inl (UnknownCard c)
              | Some Worker \<Rightarrow> enforce_card_self_scope c scope cache areas
              | Some Planner \<Rightarrow>
                  if is_own_worker_lifecycle_event actor event
                  then enforce_card_self_scope c scope cache areas
                  else Inl (NotPlannerForTrack (Text (parens label c @ planner_roled_text)))
              | Some ReportCard \<Rightarrow> enforce_card_self_scope c scope cache areas
              | Some Assistant \<Rightarrow> enforce_assistant_scope c scope cache areas)))"

fun first_violation :: "(unit, role_violation) result list \<Rightarrow> (unit, role_violation) result" where
  "first_violation [] = Inr ()"
| "first_violation (r # rs) = and_then r (\<lambda>_. first_violation rs)"

definition enforce_role ::
  "actor_id \<Rightarrow> wire_event \<Rightarrow> event_scope \<Rightarrow> card_role_cache \<Rightarrow> track_area_cache \<Rightarrow> (unit, role_violation) result" where
  "enforce_role actor event scope cache areas =
     first_violation
       [gate_identity actor cache,
        gate_track_updated actor event cache,
        gate_dispatch actor event cache,
        gate_task_dispatched actor event,
        gate_context_frozen actor event,
        gate_git_delivery actor event,
        gate_assistant_input actor event scope,
        gate_track_wake actor event,
        gate_context_advanced actor event,
        gate_gate_result actor event,
        gate_ask_requested actor event cache,
        gate_ask_answered actor event,
        gate_ask_withdrawn actor event cache,
        gate_regate actor event cache,
        gate_proposal_submitted actor event,
        gate_proposal_resolved actor event,
        gate_containment actor event scope cache areas]"

end
