(* ===== verification/Gate_Policy.thy ===== *)
theory Gate_Policy
  imports Role_Gate
begin

text \<open>
  What the role gate promises, stated without its order of checks: every event has an authority that
  may write it, every card-bound actor is contained in its home, and an actor named by a session is
  never admitted unresolved. \<open>enforce_role_iff\<close> shows that the sequence of sections in
  \<open>enforce_role\<close> admits exactly the writes this policy permits, and \<open>enforce_role_cong\<close> that a
  decision reads only the cards named by the actor and the scope.
\<close>

section \<open>The policy\<close>

datatype authority =
    PlannerOrTrusted | KernelOrUser | KernelOnly | KernelAt card_id track_id
  | PlannerOnly | UserOnly | OwnPlugin string | Anyone

fun event_authority :: "wire_event \<Rightarrow> authority" where
  "event_authority TrackUpdated = PlannerOrTrusted"
| "event_authority CodexWorkerRequested = PlannerOrTrusted"
| "event_authority TerminalWorkerRequested = PlannerOrTrusted"
| "event_authority PlanUpdated = PlannerOrTrusted"
| "event_authority TaskDispatched = KernelOrUser"
| "event_authority TaskGateResult = KernelOrUser"
| "event_authority TaskContextFrozen = KernelOnly"
| "event_authority TaskContextAdvanced = KernelOnly"
| "event_authority TaskGitDeliverySettled = KernelOnly"
| "event_authority TrackWakeRequested = KernelOnly"
| "event_authority (AssistantInputRequested c t) = KernelAt c t"
| "event_authority AskRequested = PlannerOnly"
| "event_authority AskWithdrawn = PlannerOnly"
| "event_authority TaskRegateRequested = PlannerOnly"
| "event_authority AskAnswered = UserOnly"
| "event_authority (ProposalSubmitted p) = OwnPlugin p"
| "event_authority (ProposalResolved p d) = (if d = Withdrawn then OwnPlugin p else UserOnly)"
| "event_authority _ = Anyone"

definition is_trusted :: "actor_id \<Rightarrow> bool" where
  "is_trusted a \<longleftrightarrow> actor_card_id a = None \<and> session_of a = None"

fun holds :: "authority \<Rightarrow> actor_id \<Rightarrow> event_scope \<Rightarrow> card_role_cache \<Rightarrow> bool" where
  "holds PlannerOrTrusted a s m \<longleftrightarrow> is_trusted a \<or> is_planner a m"
| "holds KernelOrUser a s m \<longleftrightarrow> is_kernel a \<or> a = User"
| "holds KernelOnly a s m \<longleftrightarrow> is_kernel a"
| "holds (KernelAt c t) a s m \<longleftrightarrow> is_kernel a \<and> scope_card s = Some c \<and> scope_track s = Some t"
| "holds PlannerOnly a s m \<longleftrightarrow> is_planner a m"
| "holds UserOnly a s m \<longleftrightarrow> a = User"
| "holds (OwnPlugin p) a s m \<longleftrightarrow> a = Plugin p"
| "holds Anyone a s m \<longleftrightarrow> True"

definition identified :: "actor_id \<Rightarrow> card_role_cache \<Rightarrow> bool" where
  "identified a m \<longleftrightarrow> session_of a = None \<and> actor_card_id a \<noteq> Some [] \<and>
     (case a of AiManagedCard c \<Rightarrow> cache_get m c = Some Assistant | _ \<Rightarrow> True)"

text \<open>The cards a card may write into: itself, and for an assistant its track's report card.\<close>

definition may_target :: "card_role_cache \<Rightarrow> card_id \<Rightarrow> card_id \<Rightarrow> bool" where
  "may_target m c target \<longleftrightarrow> target = c \<or>
     cache_get m c = Some Assistant \<and> cache_get m target = Some ReportCard \<and>
     track_of m target = track_of m c"

definition at_home :: "card_role_cache \<Rightarrow> track_area_cache \<Rightarrow> card_id \<Rightarrow> event_scope \<Rightarrow> bool" where
  "at_home m areas c s =
     (case s of
        SCard target t a \<Rightarrow> may_target m c target \<and> track_of m c = Some t \<and> area_of areas t = Some a
      | _ \<Rightarrow> False)"

definition contained ::
  "actor_id \<Rightarrow> wire_event \<Rightarrow> event_scope \<Rightarrow> card_role_cache \<Rightarrow> track_area_cache \<Rightarrow> bool" where
  "contained a e s m areas =
     (case worker_of a of
        None \<Rightarrow> True
      | Some (c, _) \<Rightarrow> at_home m areas c s \<and>
          (cache_get m c = Some Planner \<longrightarrow> is_own_worker_lifecycle_event a e))"

definition permits ::
  "actor_id \<Rightarrow> wire_event \<Rightarrow> event_scope \<Rightarrow> card_role_cache \<Rightarrow> track_area_cache \<Rightarrow> bool" where
  "permits a e s m areas \<longleftrightarrow>
     identified a m \<and> holds (event_authority e) a s m \<and> contained a e s m areas"

section \<open>The sections of the gate implement the policy\<close>

named_theorems gate_sections "when a section of the gate lets a write through"

lemma first_violation_ok: "is_ok (first_violation rs) \<longleftrightarrow> (\<forall>r \<in> set rs. is_ok r)"
  by (induction rs) (auto simp: is_ok_unit and_then_def split: sum.splits)

text \<open>A refused write is reported with the violation of the first section that refuses it.\<close>

lemma first_violation_app:
  "(\<forall>r \<in> set rs. is_ok r) \<Longrightarrow> first_violation (rs @ Inl v # rs') = Inl v"
  by (induction rs) (auto simp: is_ok_unit)

lemma gate_identity_ok [gate_sections]:
  "is_ok (gate_identity a m) \<longleftrightarrow> actor_card_id a \<noteq> Some [] \<and> session_of a \<noteq> Some [] \<and>
     (case a of AiManagedCard c \<Rightarrow> cache_get m c = Some Assistant | _ \<Rightarrow> True)"
  by (cases a) (auto simp: gate_identity_def split: list.splits)

lemma gate_planner_event_ok [gate_sections]:
  "is_ok (gate_planner_event v a m) \<longleftrightarrow> is_trusted a \<or> is_planner a m"
  by (cases a) (auto simp: gate_planner_event_def is_trusted_def is_planner_def)

lemma gate_kernel_event_ok [gate_sections]:
  "is_ok (gate_kernel_event strict v a) \<longleftrightarrow> is_kernel a \<or> a = User \<and> \<not> strict"
  by (cases a) (auto simp: gate_kernel_event_def is_kernel_def)

lemmas planner_sections = gate_track_updated_def gate_dispatch_def is_dispatch_def
lemmas kernel_sections = gate_task_dispatched_def gate_context_frozen_def gate_git_delivery_def
  gate_assistant_input_def gate_track_wake_def gate_context_advanced_def gate_gate_result_def
lemmas ask_sections = gate_ask_requested_def gate_ask_answered_def gate_ask_withdrawn_def
  gate_regate_def gate_proposal_submitted_def gate_proposal_resolved_def

text \<open>The sections that look at the kind of event.\<close>

definition event_sections ::
  "actor_id \<Rightarrow> wire_event \<Rightarrow> event_scope \<Rightarrow> card_role_cache \<Rightarrow> (unit, role_violation) result list" where
  "event_sections a e s m =
     [gate_track_updated a e m, gate_dispatch a e m, gate_task_dispatched a e,
      gate_context_frozen a e, gate_git_delivery a e, gate_assistant_input a e s,
      gate_track_wake a e, gate_context_advanced a e, gate_gate_result a e,
      gate_ask_requested a e m, gate_ask_answered a e, gate_ask_withdrawn a e m,
      gate_regate a e m, gate_proposal_submitted a e, gate_proposal_resolved a e]"

lemma event_sections_ok:
  "(\<forall>r \<in> set (event_sections a e s m). is_ok r) \<longleftrightarrow> holds (event_authority e) a s m"
  by (cases e) (simp_all add: event_sections_def planner_sections kernel_sections ask_sections
      gate_sections is_kernel_def)

lemma enforce_role_sections:
  "enforce_role a e s m areas =
     first_violation (gate_identity a m # event_sections a e s m @ [gate_containment a e s m areas])"
  by (simp add: enforce_role_def event_sections_def)

lemma enforce_card_scope_ok:
  "is_ok (enforce_card_scope c s m areas allowed v) \<longleftrightarrow>
     (\<exists>target t a. s = SCard target t a \<and> track_of m c = Some t \<and> allowed target t \<and>
        area_of areas t = Some a)"
  by (cases s) (auto simp: enforce_card_scope_def split: option.splits)

lemma gate_containment_ok:
  "is_ok (gate_containment a e s m areas) \<longleftrightarrow>
     session_of a = None \<and> contained a e s m areas"
proof (cases "worker_of a")
  case None
  then show ?thesis by (auto simp: gate_containment_def contained_def split: option.splits)
next
  case (Some w)
  then have "session_of a = None" by (cases a) auto
  moreover obtain c label where w: "w = (c, label)" by (cases w)
  moreover have "cache_get m c = None \<longleftrightarrow> track_of m c = None"
    by (simp add: cache_get_def track_of_def)
  ultimately show ?thesis using Some
    by (cases "cache_get m c"; cases s)
      (auto simp: gate_containment_def contained_def at_home_def may_target_def
        enforce_card_self_scope_def enforce_assistant_scope_def enforce_card_scope_ok
        split: card_role.splits)
qed

lemma enforce_role_permits: "is_ok (enforce_role a e s m areas) \<longleftrightarrow> permits a e s m areas"
proof -
  have "is_ok (enforce_role a e s m areas) \<longleftrightarrow>
      is_ok (gate_identity a m) \<and> holds (event_authority e) a s m \<and>
      session_of a = None \<and> contained a e s m areas"
    by (simp add: enforce_role_sections first_violation_ok event_sections_ok [symmetric]
        gate_containment_ok ball_Un conj_ac del: first_violation.simps)
  then show ?thesis
    by (auto simp: permits_def identified_def gate_sections)
qed

section \<open>What a decision reads\<close>

definition same_view ::
  "actor_id \<Rightarrow> event_scope \<Rightarrow> card_role_cache \<times> track_area_cache \<Rightarrow>
     card_role_cache \<times> track_area_cache \<Rightarrow> bool" where
  "same_view a s v v' \<longleftrightarrow>
     (\<forall>c. actor_card_id a = Some c \<longrightarrow> c \<noteq> [] \<longrightarrow> fst v c = fst v' c \<and>
        (\<forall>en. fst v c = Some en \<longrightarrow> snd v (entry_track en) = snd v' (entry_track en))) \<and>
     (\<forall>c. scope_card s = Some c \<longrightarrow> fst v c = fst v' c)"

lemma enforce_role_empty_card: "actor_card_id a = Some [] \<Longrightarrow> enforce_role a e s m areas = Inl EmptyAiCardId"
  by (simp add: enforce_role_def gate_identity_def)

lemma gate_identity_cong:
  "(\<And>c. actor_card_id a = Some c \<Longrightarrow> m c = m' c) \<Longrightarrow> gate_identity a m = gate_identity a m'"
  by (cases a) (auto simp: gate_identity_def cache_get_def split: list.splits)

lemma is_planner_cong:
  "(\<And>c. actor_card_id a = Some c \<Longrightarrow> m c = m' c) \<Longrightarrow> is_planner a m = is_planner a m'"
  by (cases a) (auto simp: is_planner_def cache_get_def)

lemma gate_planner_event_cong:
  "(\<And>c. actor_card_id a = Some c \<Longrightarrow> m c = m' c) \<Longrightarrow>
     gate_planner_event v a m = gate_planner_event v a m'"
  by (cases a) (auto simp: gate_planner_event_def cache_get_def)

lemma event_sections_cong:
  assumes "\<And>c. actor_card_id a = Some c \<Longrightarrow> m c = m' c"
  shows "event_sections a e s m = event_sections a e s m'"
  using gate_planner_event_cong [of a m m', OF assms] is_planner_cong [of a m m', OF assms]
  by (simp add: event_sections_def planner_sections ask_sections)

lemma enforce_card_scope_cong:
  assumes "m c = m' c" and "\<And>en. m c = Some en \<Longrightarrow> areas (entry_track en) = areas' (entry_track en)"
    and "\<And>target t. scope_card s = Some target \<Longrightarrow> track_of m c = Some t \<Longrightarrow> al target t = al' target t"
  shows "enforce_card_scope c s m areas al v = enforce_card_scope c s m' areas' al' v"
  using assms by (cases s) (auto simp: enforce_card_scope_def track_of_def area_of_def split: option.splits)

lemma gate_containment_cong:
  assumes "\<And>c. actor_card_id a = Some c \<Longrightarrow> m c = m' c"
    and "\<And>c en. actor_card_id a = Some c \<Longrightarrow> m c = Some en \<Longrightarrow>
      areas (entry_track en) = areas' (entry_track en)"
    and "\<And>c. scope_card s = Some c \<Longrightarrow> m c = m' c"
  shows "gate_containment a e s m areas = gate_containment a e s m' areas'"
proof (cases "worker_of a")
  case None
  then show ?thesis by (simp add: gate_containment_def split: option.split)
next
  case (Some w)
  obtain c label where w: "w = (c, label)" by (cases w)
  have c: "actor_card_id a = Some c" using Some w by (cases a) auto
  have "enforce_card_self_scope c s m areas = enforce_card_self_scope c s m' areas'"
    unfolding enforce_card_self_scope_def
    by (rule enforce_card_scope_cong) (use assms c in auto)
  moreover have "enforce_assistant_scope c s m areas = enforce_assistant_scope c s m' areas'"
    unfolding enforce_assistant_scope_def
    by (rule enforce_card_scope_cong) (use assms c in \<open>auto simp: cache_get_def track_of_def\<close>)
  moreover have "cache_get m c = cache_get m' c" using assms(1) [OF c] by (simp add: cache_get_def)
  moreover have "session_of a = None" using Some by (cases a) auto
  ultimately show ?thesis using Some w
    by (simp add: gate_containment_def split: option.split card_role.split)
qed

lemma enforce_role_cong:
  assumes "same_view a s (m, areas) (m', areas')"
  shows "enforce_role a e s m areas = enforce_role a e s m' areas'"
proof (cases "actor_card_id a = Some []")
  case True
  then show ?thesis by (simp add: enforce_role_empty_card)
next
  case False
  then have "\<And>c. actor_card_id a = Some c \<Longrightarrow> m c = m' c"
    using assms by (auto simp: same_view_def)
  moreover have "\<And>c en. actor_card_id a = Some c \<Longrightarrow> m c = Some en \<Longrightarrow>
      areas (entry_track en) = areas' (entry_track en)"
    using assms False by (auto simp: same_view_def)
  moreover have "\<And>c. scope_card s = Some c \<Longrightarrow> m c = m' c" using assms by (auto simp: same_view_def)
  ultimately show ?thesis
    using gate_identity_cong [of a m m'] event_sections_cong [of a m m' e s]
      gate_containment_cong [of a m m' areas areas' s e]
    by (simp add: enforce_role_sections)
qed

end
