(* ===== verification/Session_Store.thy ===== *)
theory Session_Store
  imports Actors
begin

text \<open>
  The \<open>worker_sessions\<close> table (crates/calm-truth/src/db/sqlite/session\_row.rs): the session entity of
  crates/calm-types/src/worker.rs, its row, the decoder, and the operations that write the table,
  with their SQL statements read as updates of a map from ids to rows.

  The database engine and the JSON library are parameters. \<open>admit\<close> is the schema (constraints,
  unique indexes, foreign keys, triggers that refuse): a statement whose result it does not accept
  fails and changes nothing. \<open>serde\<close> is what the code uses of serde\_json. An operation that returns
  an error has no table in its result, since its transaction is rolled back.
\<close>

section \<open>The entity and its row\<close>

datatype truth_error =
    NotFound string | Conflict string | BadRequest string | Forbidden string
  | Db | Serde string | Internal string

record 'j serde =
  from_str :: "string \<Rightarrow> ('j, string) result"
  to_str :: "'j \<Rightarrow> (string, string) result"
  get_key :: "'j \<Rightarrow> string \<Rightarrow> 'j option"
  as_str :: "'j \<Rightarrow> string option"
  as_provider :: "'j \<Rightarrow> agent_provider option"

record 'j worker_session =
  ws_id :: session_id
  ws_track_id :: track_id
  ws_provider :: worker_provider_kind
  ws_mode :: session_mode
  ws_contract :: worker_contract
  ws_parent_session_id :: "session_id option"
  ws_requester_session_id :: "session_id option"
  ws_state :: worker_session_state
  ws_mcp_token_hash :: "string option"
  ws_thread_id :: "string option"
  ws_agent_session_id :: "string option"
  ws_active_turn_id :: "string option"
  ws_terminal_run_id :: "string option"
  ws_card_id :: "card_id option"
  ws_handle_state_json :: "'j option"
  ws_liveness :: liveness_tag
  ws_liveness_probed_at_ms :: "int option"
  ws_exit_code :: "int option"
  ws_exit_interpretation :: "string option"
  ws_spawn_op_id :: "string option"
  ws_last_activity_ms :: "int option"
  ws_last_thread_status :: "string option"
  ws_created_at_ms :: int
  ws_updated_at_ms :: int
  ws_completed_at_ms :: "int option"

text \<open>A row holds the enums as text, and three columns the entity does not show.\<close>

record session_row =
  r_id :: session_id
  r_track_id :: track_id
  r_provider :: string
  r_mode :: string
  r_contract :: string
  r_parent_session_id :: "session_id option"
  r_requester_session_id :: "session_id option"
  r_state :: string
  r_mcp_token_hash :: "string option"
  r_thread_id :: "string option"
  r_agent_session_id :: "string option"
  r_active_turn_id :: "string option"
  r_terminal_run_id :: "string option"
  r_card_id :: "card_id option"
  r_handle_state_json :: "string option"
  r_liveness :: string
  r_liveness_probed_at_ms :: "int option"
  r_exit_code :: "int option"
  r_exit_interpretation :: "string option"
  r_spawn_op_id :: "string option"
  r_last_activity_ms :: "int option"
  r_last_thread_status :: "string option"
  r_created_at_ms :: int
  r_updated_at_ms :: int
  r_completed_at_ms :: "int option"
  r_provider_execution_json :: "string option"
  r_last_turn_completed_ms :: "int option"
  r_queue_harvested_at_ms :: "int option"

type_synonym session_table = "session_id \<rightharpoonup> session_row"

section \<open>State transitions\<close>

fun worker_session_status_transition_allowed ::
  "worker_session_state \<Rightarrow> worker_session_state \<Rightarrow> bool" where
  "worker_session_status_transition_allowed Starting to \<longleftrightarrow>
     to \<in> {Running, Idle, TurnPending, Failed, Exited}"
| "worker_session_status_transition_allowed Running to \<longleftrightarrow> to \<in> {Idle, Failed, Exited}"
| "worker_session_status_transition_allowed Idle to \<longleftrightarrow> to \<in> {Running, Failed, Exited}"
| "worker_session_status_transition_allowed TurnPending to \<longleftrightarrow> to \<in> {Running, Failed, Exited}"
| "worker_session_status_transition_allowed Failed to \<longleftrightarrow> False"
| "worker_session_status_transition_allowed Exited to \<longleftrightarrow> False"
| "worker_session_status_transition_allowed Superseded to \<longleftrightarrow> False"

lemma transition_from_active:
  "worker_session_status_transition_allowed from to \<Longrightarrow> is_active_authority from"
  by (cases "from") auto

section \<open>Reading a row\<close>

definition worker_session_parse ::
  "string \<Rightarrow> ('a, string) result \<Rightarrow> ('a, truth_error) result" where
  "worker_session_parse column r =
     (case r of
        Inl message \<Rightarrow> Inl (Internal (''invalid worker_sessions.'' @ column @ '': '' @ message))
      | Inr a \<Rightarrow> Inr a)"

definition provider_decode_text :: "('a, string) result \<Rightarrow> ('a, string) result" where
  "provider_decode_text r =
     (case r of
        Inl v \<Rightarrow> Inl (''unknown worker_sessions.provider value `'' @ v @ ''`'') | Inr a \<Rightarrow> Inr a)"

definition json_opt ::
  "('a \<Rightarrow> ('b, string) result) \<Rightarrow> 'a option \<Rightarrow> ('b option, truth_error) result" where
  "json_opt f v =
     (case v of
        None \<Rightarrow> Inr None
      | Some t \<Rightarrow> (case f t of Inl e \<Rightarrow> Inl (Serde e) | Inr j \<Rightarrow> Inr (Some j)))"

definition worker_session_from_row ::
  "'j serde \<Rightarrow> session_row \<Rightarrow> ('j worker_session, truth_error) result" where
  "worker_session_from_row js row =
     and_then (json_opt (from_str js) (r_handle_state_json row)) (\<lambda>handle.
     and_then (worker_session_parse ''provider''
       (provider_decode_text (provider_kind_try_from (r_provider row)))) (\<lambda>provider.
     and_then (worker_session_parse ''mode'' (session_mode_try_from (r_mode row))) (\<lambda>mode.
     and_then (worker_session_parse ''contract'' (contract_try_from (r_contract row))) (\<lambda>contract.
     and_then (worker_session_parse ''state'' (session_state_try_from (r_state row))) (\<lambda>state.
     and_then (worker_session_parse ''liveness'' (liveness_try_from (r_liveness row))) (\<lambda>liveness.
     Inr \<lparr>ws_id = r_id row, ws_track_id = r_track_id row, ws_provider = provider, ws_mode = mode,
       ws_contract = contract, ws_parent_session_id = r_parent_session_id row,
       ws_requester_session_id = r_requester_session_id row, ws_state = state,
       ws_mcp_token_hash = r_mcp_token_hash row, ws_thread_id = r_thread_id row,
       ws_agent_session_id = r_agent_session_id row, ws_active_turn_id = r_active_turn_id row,
       ws_terminal_run_id = r_terminal_run_id row, ws_card_id = r_card_id row,
       ws_handle_state_json = handle, ws_liveness = liveness,
       ws_liveness_probed_at_ms = r_liveness_probed_at_ms row, ws_exit_code = r_exit_code row,
       ws_exit_interpretation = r_exit_interpretation row, ws_spawn_op_id = r_spawn_op_id row,
       ws_last_activity_ms = r_last_activity_ms row,
       ws_last_thread_status = r_last_thread_status row, ws_created_at_ms = r_created_at_ms row,
       ws_updated_at_ms = r_updated_at_ms row, ws_completed_at_ms = r_completed_at_ms row\<rparr>))))))"

definition session_get_tx ::
  "'j serde \<Rightarrow> (session_id \<Rightarrow> (session_row option, truth_error) result) \<Rightarrow> session_id \<Rightarrow>
     ('j worker_session option, truth_error) result" where
  "session_get_tx js fetch i =
     and_then (fetch i) (\<lambda>row.
       case row of
         None \<Rightarrow> Inr None
       | Some r \<Rightarrow> and_then (worker_session_from_row js r) (\<lambda>s. Inr (Some s)))"

abbreviation fetch_row :: "session_table \<Rightarrow> session_id \<Rightarrow> (session_row option, truth_error) result" where
  "fetch_row t i \<equiv> Inr (t i)"

section \<open>Writing the table\<close>

definition sql_write ::
  "(session_table \<Rightarrow> bool) \<Rightarrow> session_table \<Rightarrow> (session_table, truth_error) result" where
  "sql_write admit t = (if admit t then Inr t else Inl Db)"

text \<open>Read the row back after a statement; \<open>what\<close> names the statement in the error.\<close>

definition reread ::
  "'j serde \<Rightarrow> string \<Rightarrow> session_table \<Rightarrow> session_id \<Rightarrow> (session_table \<times> 'j worker_session, truth_error) result" where
  "reread js what t i =
     and_then (session_get_tx js (fetch_row t) i) (\<lambda>s.
       case s of
         None \<Rightarrow> Inl (Internal (''worker session '' @ i @ '' missing after '' @ what))
       | Some w \<Rightarrow> Inr (t, w))"

definition active_state_text :: "string \<Rightarrow> bool" where
  "active_state_text v \<longleftrightarrow> v \<in> {''starting'', ''running'', ''idle'', ''turn_pending''}"

definition session_set_liveness_tx ::
  "'j serde \<Rightarrow> (session_table \<Rightarrow> bool) \<Rightarrow> session_table \<Rightarrow> session_id \<Rightarrow> liveness_tag \<Rightarrow> int \<Rightarrow>
     (session_table \<times> 'j worker_session option, truth_error) result" where
  "session_set_liveness_tx js admit t i tag probed_at =
     (case t i of
        None \<Rightarrow> Inr (t, None)
      | Some row \<Rightarrow>
          if \<not> active_state_text (r_state row) then Inr (t, None)
          else and_then (sql_write admit
                 (t(i \<mapsto> row\<lparr>r_liveness := liveness_db_str tag,
                              r_liveness_probed_at_ms := Some probed_at\<rparr>)))
               (\<lambda>t'. and_then (reread js ''liveness update'' t' i)
                 (\<lambda>(t', s). Inr (t', Some s))))"

definition session_record_activity_tx ::
  "(session_table \<Rightarrow> bool) \<Rightarrow> session_table \<Rightarrow> session_id \<Rightarrow> int \<Rightarrow> string \<Rightarrow>
     (session_table, truth_error) result" where
  "session_record_activity_tx admit t i at status =
     (case t i of
        None \<Rightarrow> Inr t
      | Some row \<Rightarrow>
          if \<not> active_state_text (r_state row) then Inr t
          else sql_write admit
            (t(i \<mapsto> row\<lparr>r_last_activity_ms := Some at, r_last_thread_status := Some status\<rparr>)))"

text \<open>
  By thread: every active Codex session of the thread, on the given backend when one is named;
  \<open>backends\<close> is the table \<open>worker_session_backends\<close>.
\<close>

definition by_thread_matches ::
  "(session_id \<rightharpoonup> string) \<Rightarrow> string \<Rightarrow> string option \<Rightarrow> session_id \<Rightarrow> session_row \<Rightarrow> bool" where
  "by_thread_matches backends thread backend i row \<longleftrightarrow>
     r_thread_id row = Some thread \<and> r_provider row = ''codex'' \<and> active_state_text (r_state row) \<and>
     (case backend of
        None \<Rightarrow> True
      | Some b \<Rightarrow> (case backends i of None \<Rightarrow> ''default'' | Some x \<Rightarrow> x) = b)"

definition raise_completed :: "int option \<Rightarrow> int option \<Rightarrow> int option" where
  "raise_completed old new =
     (case new of
        None \<Rightarrow> old
      | Some n \<Rightarrow> Some (max (case old of None \<Rightarrow> 0 | Some m \<Rightarrow> m) n))"

definition session_record_activity_by_thread_tx ::
  "(session_table \<Rightarrow> bool) \<Rightarrow> (session_id \<rightharpoonup> string) \<Rightarrow> session_table \<Rightarrow> string \<Rightarrow> int \<Rightarrow> string \<Rightarrow>
     int option \<Rightarrow> string option \<Rightarrow> (session_table, truth_error) result" where
  "session_record_activity_by_thread_tx admit backends t thread at status turn_completed backend =
     sql_write admit (\<lambda>i.
       case t i of
         None \<Rightarrow> None
       | Some row \<Rightarrow> Some
          (if by_thread_matches backends thread backend i row
           then row\<lparr>r_last_activity_ms := Some at, r_last_thread_status := Some status,
                    r_last_turn_completed_ms :=
                      raise_completed (r_last_turn_completed_ms row) turn_completed\<rparr>
           else row))"

section \<open>Inserting a session\<close>

definition acp_session_identity_allowed :: "'j worker_session \<Rightarrow> bool" where
  "acp_session_identity_allowed s \<longleftrightarrow>
     kind_protocol (ws_provider s) \<noteq> Some PrAcp \<or>
     ((ws_contract s = CtPlanner \<or> ws_contract s = CtAssistant) \<and> ws_mode s = Resumable)"

definition row_of_session :: "'j worker_session \<Rightarrow> string option \<Rightarrow> session_row" where
  "row_of_session s handle =
     \<lparr>r_id = ws_id s, r_track_id = ws_track_id s, r_provider = provider_kind_db_str (ws_provider s),
      r_mode = session_mode_db_str (ws_mode s), r_contract = contract_db_str (ws_contract s),
      r_parent_session_id = ws_parent_session_id s,
      r_requester_session_id = ws_requester_session_id s,
      r_state = session_state_db_str (ws_state s), r_mcp_token_hash = ws_mcp_token_hash s,
      r_thread_id = ws_thread_id s, r_agent_session_id = ws_agent_session_id s,
      r_active_turn_id = ws_active_turn_id s, r_terminal_run_id = ws_terminal_run_id s,
      r_card_id = ws_card_id s, r_handle_state_json = handle,
      r_liveness = liveness_db_str (ws_liveness s),
      r_liveness_probed_at_ms = ws_liveness_probed_at_ms s, r_exit_code = ws_exit_code s,
      r_exit_interpretation = ws_exit_interpretation s, r_spawn_op_id = ws_spawn_op_id s,
      r_last_activity_ms = ws_last_activity_ms s, r_last_thread_status = ws_last_thread_status s,
      r_created_at_ms = ws_created_at_ms s, r_updated_at_ms = ws_updated_at_ms s,
      r_completed_at_ms = ws_completed_at_ms s, r_provider_execution_json = None,
      r_last_turn_completed_ms = None, r_queue_harvested_at_ms = None\<rparr>"

definition session_insert_tx ::
  "'j serde \<Rightarrow> (session_table \<Rightarrow> bool) \<Rightarrow> session_table \<Rightarrow> 'j worker_session \<Rightarrow>
     (session_table \<times> 'j worker_session, truth_error) result" where
  "session_insert_tx js admit t s =
     (if \<not> acp_session_identity_allowed s
      then Inl (BadRequest (provider_kind_db_str (ws_provider s)
        @ '' sessions are managed Planner or Assistant conversations that resume, not a ''
        @ session_mode_db_str (ws_mode s) @ '' '' @ contract_db_str (ws_contract s) @ '' session''))
      else and_then (json_opt (to_str js) (ws_handle_state_json s)) (\<lambda>handle.
        if ws_id s \<in> dom t then Inl Db
        else and_then (sql_write admit (t(ws_id s \<mapsto> row_of_session s handle)))
          (\<lambda>t'. reread js ''insert'' t' (ws_id s))))"

section \<open>Transitions\<close>

definition require_unclaimed :: "session_table \<Rightarrow> session_id \<Rightarrow> (unit, truth_error) result" where
  "require_unclaimed t i =
     (case t i of
        Some row \<Rightarrow>
          if r_provider_execution_json row \<noteq> None
          then Inl (Conflict ''provider execution retains its current carrier'') else Inr ()
      | None \<Rightarrow> Inr ())"

definition worker_session_current_state_tx ::
  "session_table \<Rightarrow> session_id \<Rightarrow> (worker_session_state, truth_error) result" where
  "worker_session_current_state_tx t i =
     (case t i of
        None \<Rightarrow> Inl (NotFound (''worker session '' @ i))
      | Some row \<Rightarrow> worker_session_parse ''state'' (session_state_try_from (r_state row)))"

definition illegal_transition :: "session_id \<Rightarrow> worker_session_state \<Rightarrow> worker_session_state \<Rightarrow> truth_error" where
  "illegal_transition i from to =
     Conflict (''illegal worker session state transition '' @ i @ '': ''
       @ session_state_db_str from @ '' -> '' @ session_state_db_str to)"

definition update_in_state ::
  "(session_table \<Rightarrow> bool) \<Rightarrow> string \<Rightarrow> session_table \<Rightarrow> session_id \<Rightarrow> worker_session_state \<Rightarrow>
     (session_row \<Rightarrow> session_row) \<Rightarrow> (session_table, truth_error) result" where
  "update_in_state admit what t i from f =
     (case t i of
        Some row \<Rightarrow>
          if r_state row = session_state_db_str from then sql_write admit (t(i \<mapsto> f row))
          else Inl (Conflict (''worker session '' @ i @ '' changed during '' @ what))
      | None \<Rightarrow> Inl (Conflict (''worker session '' @ i @ '' changed during '' @ what)))"

definition transition_row ::
  "worker_session_state \<Rightarrow> int \<Rightarrow> int option \<Rightarrow> session_row \<Rightarrow> session_row" where
  "transition_row to now completed row =
     row\<lparr>r_state := session_state_db_str to,
         r_mcp_token_hash :=
           (if r_contract row = ''assistant'' \<and> completed \<noteq> None then None else r_mcp_token_hash row),
         r_updated_at_ms := now,
         r_completed_at_ms := (if completed \<noteq> None then completed else r_completed_at_ms row)\<rparr>"

definition session_state_transition_at_tx ::
  "'j serde \<Rightarrow> (session_table \<Rightarrow> bool) \<Rightarrow> session_table \<Rightarrow> session_id \<Rightarrow> worker_session_state \<Rightarrow> int \<Rightarrow>
     int option \<Rightarrow> (session_table \<times> 'j worker_session, truth_error) result" where
  "session_state_transition_at_tx js admit t i to now completed =
     and_then (if is_terminal to \<or> completed \<noteq> None then require_unclaimed t i else Inr ()) (\<lambda>_.
     and_then (worker_session_current_state_tx t i) (\<lambda>from.
       if \<not> worker_session_status_transition_allowed from to then Inl (illegal_transition i from to)
       else and_then (update_in_state admit ''state transition'' t i from (transition_row to now completed))
         (\<lambda>t'. reread js ''transition'' t' i)))"

definition session_state_transition_tx ::
  "'j serde \<Rightarrow> (session_table \<Rightarrow> bool) \<Rightarrow> session_table \<Rightarrow> int \<Rightarrow> session_id \<Rightarrow> worker_session_state \<Rightarrow>
     (session_table \<times> 'j worker_session, truth_error) result" where
  "session_state_transition_tx js admit t now i to =
     session_state_transition_at_tx js admit t i to now (if is_terminal to then Some now else None)"

definition exit_row ::
  "worker_session_state \<Rightarrow> int \<Rightarrow> int option \<Rightarrow> string \<Rightarrow> session_row \<Rightarrow> session_row" where
  "exit_row to probed_at code interp row =
     row\<lparr>r_state := session_state_db_str to,
         r_mcp_token_hash := (if r_contract row = ''assistant'' then None else r_mcp_token_hash row),
         r_liveness := ''exited'', r_liveness_probed_at_ms := Some probed_at, r_exit_code := code,
         r_exit_interpretation := Some interp, r_completed_at_ms := Some probed_at,
         r_updated_at_ms := probed_at\<rparr>"

definition session_commit_exit_tx ::
  "'j serde \<Rightarrow> (session_table \<Rightarrow> bool) \<Rightarrow> session_table \<Rightarrow> session_id \<Rightarrow> worker_session_state \<Rightarrow> int \<Rightarrow>
     int option \<Rightarrow> string \<Rightarrow> (session_table \<times> 'j worker_session, truth_error) result" where
  "session_commit_exit_tx js admit t i to probed_at code interp =
     and_then (require_unclaimed t i) (\<lambda>_.
     and_then (worker_session_current_state_tx t i) (\<lambda>from.
       if \<not> worker_session_status_transition_allowed from to then Inl (illegal_transition i from to)
       else and_then (update_in_state admit ''exit commit'' t i from (exit_row to probed_at code interp))
         (\<lambda>t'. reread js ''exit commit'' t' i)))"

end
