(* ===== verification/Decision_Gate.thy ===== *)
theory Decision_Gate
  imports Gate_Policy Session_Store
begin

text \<open>
  Authority resolved in the write transaction (crates/calm-truth/src/decision\_gate.rs). The trait
  \<open>WriteTx\<close> is the record \<open>write_tx\<close> of its reads; \<open>sqlite_tx\<close> is its implementation on a SQLite
  transaction, over the rows the queries return. A query may fail: every read is a result.
\<close>

section \<open>Reads of the transaction\<close>

record 'j write_tx =
  read_track_root_session_id :: "track_id \<Rightarrow> (session_id option, truth_error) result"
  read_worker_session :: "session_id \<Rightarrow> ('j worker_session option, truth_error) result"
  read_card_role :: "card_id \<Rightarrow> (card_role option, truth_error) result"
  read_card_track :: "card_id \<Rightarrow> (track_id option, truth_error) result"
  read_card_binding :: "card_id \<Rightarrow> ((string \<times> 'j \<times> string option) option, truth_error) result"
  read_track_area :: "track_id \<Rightarrow> (area_id option, truth_error) result"

text \<open>What the queries return: a session row, columns of a card and of a track.\<close>

record sqlite_rows =
  sel_session :: "session_id \<Rightarrow> (session_row option, truth_error) result"
  sel_card_role :: "card_id \<Rightarrow> (string option, truth_error) result"
  sel_card_track :: "card_id \<Rightarrow> (string option, truth_error) result"
  sel_card_binding :: "card_id \<Rightarrow> ((string \<times> string \<times> string option) option, truth_error) result"
  sel_track_area :: "track_id \<Rightarrow> (string option, truth_error) result"
  sel_track_root :: "track_id \<Rightarrow> (string option option, truth_error) result"

definition sqlite_read_track_root ::
  "sqlite_rows \<Rightarrow> track_id \<Rightarrow> (session_id option, truth_error) result" where
  "sqlite_read_track_root db t =
     and_then (sel_track_root db t) (\<lambda>row. Inr (case row of None \<Rightarrow> None | Some i \<Rightarrow> i))"

definition sqlite_read_card_role ::
  "sqlite_rows \<Rightarrow> card_id \<Rightarrow> (card_role option, truth_error) result" where
  "sqlite_read_card_role db c =
     and_then (sel_card_role db c) (\<lambda>row.
       case row of
         None \<Rightarrow> Inr None
       | Some v \<Rightarrow>
          (case card_role_try_from v of
             Inl e \<Rightarrow> Inl (Internal (''cards.role decode: '' @ e)) | Inr r \<Rightarrow> Inr (Some r)))"

definition sqlite_read_card_binding ::
  "'j serde \<Rightarrow> sqlite_rows \<Rightarrow> card_id \<Rightarrow> ((string \<times> 'j \<times> string option) option, truth_error) result" where
  "sqlite_read_card_binding js db c =
     and_then (sel_card_binding db c) (\<lambda>row.
       case row of
         None \<Rightarrow> Inr None
       | Some (knd, payload, session) \<Rightarrow>
          (case from_str js payload of
             Inl e \<Rightarrow> Inl (Serde e) | Inr v \<Rightarrow> Inr (Some (knd, v, session))))"

section \<open>Resolving a session\<close>

definition PLANNER_PROVIDER_PAYLOAD_KEY :: string where
  "PLANNER_PROVIDER_PAYLOAD_KEY = ''planner_provider''"

definition ASSISTANT_PROVIDER_PAYLOAD_KEY :: string where
  "ASSISTANT_PROVIDER_PAYLOAD_KEY = ''assistant_provider''"

text \<open>
  The execution contract of a card of the given role: \<open>None\<close> refuses, \<open>Some None\<close> asks nothing
  further, \<open>Some (Some key)\<close> asks for the provider stored under the key of the card's payload.
\<close>

definition contract_key ::
  "'j serde \<Rightarrow> 'j \<Rightarrow> card_role option \<Rightarrow> worker_contract \<Rightarrow> string option option" where
  "contract_key js payload role contract =
     (case (role, contract) of
        (Some Planner, CtPlanner) \<Rightarrow> Some (Some PLANNER_PROVIDER_PAYLOAD_KEY)
      | (Some Assistant, CtAssistant) \<Rightarrow>
          if Option.bind (get_key js payload ''harness_profile'') (as_str js) = Some ''assistant''
          then Some (Some ASSISTANT_PROVIDER_PAYLOAD_KEY) else None
      | (Some Worker, CtExecutor) \<Rightarrow> Some None
      | (Some Worker, CtValidator) \<Rightarrow> Some None
      | _ \<Rightarrow> None)"

definition provider_bound ::
  "'j serde \<Rightarrow> string \<Rightarrow> 'j \<Rightarrow> string \<Rightarrow> 'j worker_session \<Rightarrow> bool" where
  "provider_bound js knd payload key session \<longleftrightarrow>
     knd = ''codex'' \<and> ws_mode session = Resumable \<and> ws_provider session \<noteq> WpTerminal \<and>
     map_option kind_of_provider (Option.bind (get_key js payload key) (as_provider js))
       = Some (ws_provider session)"

definition sqlite_read_worker_session ::
  "'j serde \<Rightarrow> sqlite_rows \<Rightarrow> session_id \<Rightarrow> ('j worker_session option, truth_error) result" where
  "sqlite_read_worker_session js db i =
     and_then (session_get_tx js (sel_session db) i) (\<lambda>found.
     case found of None \<Rightarrow> Inr None | Some session \<Rightarrow>
       if \<not> is_active_authority (ws_state session) then Inr (Some session)
       else (case ws_card_id session of None \<Rightarrow> Inr None | Some c \<Rightarrow>
         and_then (sqlite_read_card_binding js db c) (\<lambda>binding.
         case binding of None \<Rightarrow> Inr None | Some (knd, payload, current) \<Rightarrow>
           if current \<noteq> Some i then Inr None
           else and_then (sel_card_track db c) (\<lambda>track.
             if track \<noteq> Some (ws_track_id session) then Inr None
             else and_then (sqlite_read_card_role db c) (\<lambda>role.
               case contract_key js payload role (ws_contract session) of
                 None \<Rightarrow> Inr None
               | Some None \<Rightarrow> Inr (Some session)
               | Some (Some key) \<Rightarrow>
                   if provider_bound js knd payload key session then Inr (Some session)
                   else Inr None)))))"

definition sqlite_tx :: "'j serde \<Rightarrow> sqlite_rows \<Rightarrow> 'j write_tx" where
  "sqlite_tx js db =
     \<lparr>read_track_root_session_id = sqlite_read_track_root db,
      read_worker_session = sqlite_read_worker_session js db,
      read_card_role = sqlite_read_card_role db,
      read_card_track = sel_card_track db,
      read_card_binding = sqlite_read_card_binding js db,
      read_track_area = sel_track_area db\<rparr>"

section \<open>The resolving gate\<close>

definition synthetic_actor ::
  "actor_id \<Rightarrow> session_id \<Rightarrow> 'j worker_session \<Rightarrow> card_id \<Rightarrow> card_role_cache \<Rightarrow>
     (actor_id, role_violation) result" where
  "synthetic_actor actor i session c cache =
     (case actor of
        AiPlannerSession _ \<Rightarrow>
          if cache_get cache c \<noteq> Some Planner then Inl (SessionPlannerRoleMismatch i c)
          else Inr (AiPlanner c)
      | AiCodexSession _ \<Rightarrow> Inr (AiCodex c)
      | AiClaudeSession _ \<Rightarrow> Inr (AiClaude c)
      | AiManagedSession _ \<Rightarrow>
          if ws_contract session \<noteq> CtAssistant then Inl (SessionActorUnresolved i)
          else Inr (AiManagedCard c)
      | _ \<Rightarrow> Inl (SessionActorUnresolved i))"

fun is_managed_session :: "actor_id \<Rightarrow> bool" where
  "is_managed_session (AiManagedSession _) = True"
| "is_managed_session _ = False"

definition resolve_session ::
  "'j write_tx \<Rightarrow> actor_id \<Rightarrow> session_id \<Rightarrow> card_role_cache \<Rightarrow> (actor_id, role_violation) result" where
  "resolve_session tx actor i cache =
     (if i = [] then Inl (SessionRowMissing i)
      else case read_worker_session tx i of
        Inl _ \<Rightarrow> Inl (SessionResolutionError i)
      | Inr None \<Rightarrow> Inl (SessionRowMissing i)
      | Inr (Some session) \<Rightarrow>
          if \<not> is_active_authority (ws_state session) then Inl (SessionNotActive i)
          else if ws_contract session = CtAssistant \<and> \<not> is_managed_session actor
          then Inl (SessionActorUnresolved i)
          else (case ws_card_id session of
             None \<Rightarrow> Inl (CardlessSessionDenied i)
           | Some c \<Rightarrow> synthetic_actor actor i session c cache))"

definition enforce_role_resolving_session ::
  "'j write_tx \<Rightarrow> actor_id \<Rightarrow> wire_event \<Rightarrow> event_scope \<Rightarrow> card_role_cache \<Rightarrow> track_area_cache \<Rightarrow>
     (unit, role_violation) result" where
  "enforce_role_resolving_session tx actor event scope cache areas =
     (case session_of actor of
        None \<Rightarrow> enforce_role actor event scope cache areas
      | Some i \<Rightarrow> and_then (resolve_session tx actor i cache)
          (\<lambda>synthetic. enforce_role synthetic event scope cache areas))"

section \<open>Caches filled from the transaction\<close>

fun push_distinct :: "string list \<Rightarrow> string list \<Rightarrow> string list" where
  "push_distinct acc [] = acc"
| "push_distinct acc (x # xs) =
     push_distinct (if x = [] \<or> x \<in> set acc then acc else acc @ [x]) xs"

definition cards_to_read :: "actor_id \<Rightarrow> event_scope \<Rightarrow> card_id option \<Rightarrow> card_id list" where
  "cards_to_read actor scope extra =
     (let of_opt = (\<lambda>x. case x of None \<Rightarrow> [] | Some c \<Rightarrow> [c])
      in push_distinct [] (of_opt (actor_card_id actor) @ of_opt (scope_card scope) @ of_opt extra))"

definition lookup_failed :: "string \<Rightarrow> string \<Rightarrow> ('a, truth_error) result \<Rightarrow> ('a, role_violation) result" where
  "lookup_failed column key r =
     (case r of Inl _ \<Rightarrow> Inl (RoleLookupFailed (parens column key)) | Inr a \<Rightarrow> Inr a)"

fun hydrate_cards ::
  "'j write_tx \<Rightarrow> card_role_cache \<Rightarrow> track_id list \<Rightarrow> card_id list \<Rightarrow>
     (card_role_cache \<times> track_id list, role_violation) result" where
  "hydrate_cards tx cache tracks [] = Inr (cache, tracks)"
| "hydrate_cards tx cache tracks (c # cs) =
     and_then (lookup_failed ''cards.role'' c (read_card_role tx c)) (\<lambda>role.
     and_then (lookup_failed ''cards.track_id'' c (read_card_track tx c)) (\<lambda>home.
       case (role, home) of
         (Some r, Some h) \<Rightarrow>
           hydrate_cards tx (cache_insert cache c r h)
             (if h \<in> set tracks then tracks else tracks @ [h]) cs
       | _ \<Rightarrow> hydrate_cards tx cache tracks cs))"

fun hydrate_areas ::
  "'j write_tx \<Rightarrow> track_area_cache \<Rightarrow> track_id list \<Rightarrow> (track_area_cache, role_violation) result" where
  "hydrate_areas tx areas [] = Inr areas"
| "hydrate_areas tx areas (t # ts) =
     and_then (lookup_failed ''tracks.area_id'' t (read_track_area tx t)) (\<lambda>area.
       hydrate_areas tx (case area of None \<Rightarrow> areas | Some a \<Rightarrow> area_insert areas t a) ts)"

definition hydrate_role_caches_from_tx ::
  "'j write_tx \<Rightarrow> actor_id \<Rightarrow> event_scope \<Rightarrow> card_id option \<Rightarrow>
     (card_role_cache \<times> track_area_cache, role_violation) result" where
  "hydrate_role_caches_from_tx tx actor scope extra =
     and_then
       (hydrate_cards tx Map.empty (case scope_track scope of None \<Rightarrow> [] | Some t \<Rightarrow> [t])
         (cards_to_read actor scope extra))
       (\<lambda>(cache, tracks). and_then (hydrate_areas tx Map.empty tracks) (\<lambda>areas. Inr (cache, areas)))"

definition session_card :: "'j write_tx \<Rightarrow> actor_id \<Rightarrow> card_id option" where
  "session_card tx actor =
     (case session_of actor of
        Some i \<Rightarrow>
          if i = [] then None
          else (case read_worker_session tx i of Inr (Some row) \<Rightarrow> ws_card_id row | _ \<Rightarrow> None)
      | None \<Rightarrow> None)"

definition enforce_role_resolving_session_from_tx ::
  "'j write_tx \<Rightarrow> actor_id \<Rightarrow> wire_event \<Rightarrow> event_scope \<Rightarrow> (unit, role_violation) result" where
  "enforce_role_resolving_session_from_tx tx actor event scope =
     and_then (hydrate_role_caches_from_tx tx actor scope (session_card tx actor))
       (\<lambda>(cache, areas). enforce_role_resolving_session tx actor event scope cache areas)"

section \<open>Decisions for a principal\<close>

datatype principal = PUser | PKernel | PAgent session_id track_id area_id

datatype gate_decision = Allow | Deny string

definition into_result :: "gate_decision \<Rightarrow> (unit, truth_error) result" where
  "into_result d = (case d of Allow \<Rightarrow> Inr () | Deny message \<Rightarrow> Inl (Forbidden message))"

text \<open>The derived \<open>Debug\<close> form of the two enums the messages print.\<close>

fun state_debug :: "worker_session_state \<Rightarrow> string" where
  "state_debug Starting = ''Starting''" | "state_debug Running = ''Running''"
| "state_debug Idle = ''Idle''" | "state_debug TurnPending = ''TurnPending''"
| "state_debug Exited = ''Exited''" | "state_debug Failed = ''Failed''"
| "state_debug Superseded = ''Superseded''"

fun role_debug :: "card_role \<Rightarrow> string" where
  "role_debug Worker = ''Worker''" | "role_debug Planner = ''Planner''"
| "role_debug ReportCard = ''ReportCard''" | "role_debug Assistant = ''Assistant''"

definition decide_card_authority ::
  "principal \<Rightarrow> 'j write_tx \<Rightarrow> track_id \<Rightarrow> card_id option \<Rightarrow> card_role list \<Rightarrow>
     (gate_decision, truth_error) result" where
  "decide_card_authority p tx track expected roles =
     (case p of
        PAgent i _ _ \<Rightarrow>
          and_then (read_worker_session tx i) (\<lambda>found.
          case found of None \<Rightarrow> Inr (Deny (''session '' @ i @ '' has no session row'')) | Some session \<Rightarrow>
          if \<not> is_active_authority (ws_state session)
          then Inr (Deny (''session '' @ i @ '' is no longer an active authority (state ''
                 @ state_debug (ws_state session) @ '')''))
          else (case ws_card_id session of
            None \<Rightarrow> Inr (Deny (''session '' @ i @ '' is not bound to a card''))
          | Some c \<Rightarrow>
            if expected \<noteq> None \<and> expected \<noteq> Some c
            then Inr (Deny (''session '' @ i @ '' card binding changed''))
            else and_then (read_card_role tx c) (\<lambda>role.
            case role of
              None \<Rightarrow> Inr (Deny (''session '' @ i @ '' is bound to unknown card '' @ c))
            | Some r \<Rightarrow>
              if r \<notin> set roles
              then Inr (Deny (''session '' @ i @ '' card '' @ c @ '' has role '' @ role_debug r
                     @ '', which may not record''))
              else and_then (read_card_track tx c) (\<lambda>home.
              case home of
                None \<Rightarrow> Inr (Deny (''session '' @ i @ '' card '' @ c @ '' has no resolvable track''))
              | Some h \<Rightarrow>
                if h \<noteq> track
                then Inr (Deny (''session '' @ i @ '' card '' @ c @ '' lives on track '' @ h
                       @ '', not '' @ track))
                else Inr Allow))))
      | _ \<Rightarrow> Inr (Deny ''principal is not an agent session''))"

definition decide_recorder ::
  "principal \<Rightarrow> 'j write_tx \<Rightarrow> track_id \<Rightarrow> (gate_decision, truth_error) result" where
  "decide_recorder p tx track = decide_card_authority p tx track None [Planner, Assistant]"

definition decide_planner ::
  "principal \<Rightarrow> 'j write_tx \<Rightarrow> track_id \<Rightarrow> (gate_decision, truth_error) result" where
  "decide_planner p tx track = decide_card_authority p tx track None [Planner]"

definition decide_card_write ::
  "principal \<Rightarrow> 'j write_tx \<Rightarrow> track_id \<Rightarrow> card_id \<Rightarrow> card_role \<Rightarrow> (gate_decision, truth_error) result" where
  "decide_card_write p tx track c role = decide_card_authority p tx track (Some c) [role]"

definition recorder_grant ::
  "principal \<Rightarrow> 'j write_tx \<Rightarrow> track_id \<Rightarrow> (bool, truth_error) result" where
  "recorder_grant p tx track = and_then (decide_recorder p tx track) (\<lambda>d. Inr (d = Allow))"

end
