(* ===== verification/Gate_Authority.thy ===== *)
theory Gate_Authority
  imports Decision_Gate
begin

text \<open>
  What the resolving gate guarantees. The caches filled from the transaction agree with the database
  on everything a decision reads (\<open>hydrated_view\<close>), so the gate run on them decides as it would on
  the whole database; a session actor is admitted only through a live row that its card still points
  at and whose contract its card's role allows (\<open>sqlite_session_bound\<close>).
\<close>

section \<open>The database as caches\<close>

definition db_card_cache :: "'j write_tx \<Rightarrow> card_role_cache" where
  "db_card_cache tx c =
     (case (read_card_role tx c, read_card_track tx c) of
        (Inr (Some r), Inr (Some t)) \<Rightarrow> Some \<lparr>entry_role = r, entry_track = t\<rparr>
      | _ \<Rightarrow> None)"

definition db_area_cache :: "'j write_tx \<Rightarrow> track_area_cache" where
  "db_area_cache tx t = (case read_track_area tx t of Inr a \<Rightarrow> a | Inl _ \<Rightarrow> None)"

definition reads_ok :: "'j write_tx \<Rightarrow> bool" where
  "reads_ok tx \<longleftrightarrow> (\<forall>c. is_ok (read_card_role tx c) \<and> is_ok (read_card_track tx c)) \<and>
     (\<forall>t. is_ok (read_track_area tx t))"

lemma lookup_failed_Inr [simp]: "lookup_failed column key r = Inr a \<longleftrightarrow> r = Inr a"
  by (cases r) (auto simp: lookup_failed_def)

text \<open>When a chain of fallible reads succeeds.\<close>

lemma case_option_Inr:
  "(case x of None \<Rightarrow> a | Some y \<Rightarrow> f y) = Inr b \<longleftrightarrow>
     x = None \<and> a = Inr b \<or> (\<exists>y. x = Some y \<and> f y = Inr b)"
  by (cases x) auto

lemma if_Inr: "(if P then a else a') = Inr b \<longleftrightarrow> P \<and> a = Inr b \<or> \<not> P \<and> a' = Inr b"
  by auto

lemmas chain_Inr = and_then_Inr case_option_Inr if_Inr

section \<open>Hydration reads the database\<close>

text \<open>One card: its entry is the database's, and its home track is among those read next.\<close>

lemma hydrate_cards_Cons:
  assumes "hydrate_cards tx m ts (c # cs) = Inr r"
  shows "\<exists>ts1. hydrate_cards tx (case db_card_cache tx c of None \<Rightarrow> m | Some en \<Rightarrow> m(c \<mapsto> en)) ts1 cs = Inr r \<and>
    set ts \<subseteq> set ts1 \<and> (\<forall>en. db_card_cache tx c = Some en \<longrightarrow> entry_track en \<in> set ts1)"
proof -
  obtain role home where rd: "read_card_role tx c = Inr role" "read_card_track tx c = Inr home"
    using assms by (auto simp: and_then_Inr)
  show ?thesis
  proof (cases "role = None \<or> home = None")
    case True
    then have "db_card_cache tx c = None" using rd by (auto simp: db_card_cache_def split: option.splits)
    moreover have "hydrate_cards tx m ts cs = Inr r"
      using assms rd True by (auto simp: lookup_failed_def split: option.splits)
    ultimately show ?thesis by auto
  next
    case False
    then obtain x h where x: "role = Some x" "home = Some h" by auto
    then have "db_card_cache tx c = Some \<lparr>entry_role = x, entry_track = h\<rparr>"
      using rd by (simp add: db_card_cache_def)
    moreover have "hydrate_cards tx (cache_insert m c x h)
        (if h \<in> set ts then ts else ts @ [h]) cs = Inr r"
      using assms rd x by (simp add: lookup_failed_def)
    ultimately show ?thesis
      by (intro exI [of _ "if h \<in> set ts then ts else ts @ [h]"]) (auto simp: cache_insert_def)
  qed
qed

lemma hydrate_cards_cache:
  assumes "hydrate_cards tx m ts cs = Inr (m', ts')"
  shows "m' c = (if c \<in> set cs \<and> db_card_cache tx c \<noteq> None then db_card_cache tx c else m c)"
  using assms
proof (induction cs arbitrary: m ts)
  case Nil
  then show ?case by simp
next
  case (Cons d cs)
  then obtain ts1 where
    "hydrate_cards tx (case db_card_cache tx d of None \<Rightarrow> m | Some en \<Rightarrow> m(d \<mapsto> en)) ts1 cs = Inr (m', ts')"
    using hydrate_cards_Cons by blast
  from Cons.IH [OF this] show ?case by (auto split: option.splits)
qed

lemma hydrate_cards_tracks:
  assumes "hydrate_cards tx m ts cs = Inr (m', ts')"
  shows "set ts \<subseteq> set ts' \<and>
    (\<forall>c \<in> set cs. \<forall>en. db_card_cache tx c = Some en \<longrightarrow> entry_track en \<in> set ts')"
  using assms
proof (induction cs arbitrary: m ts)
  case Nil
  then show ?case by simp
next
  case (Cons d cs)
  then obtain m1 ts1 where h: "hydrate_cards tx m1 ts1 cs = Inr (m', ts')"
      and "set ts \<subseteq> set ts1" "\<forall>en. db_card_cache tx d = Some en \<longrightarrow> entry_track en \<in> set ts1"
    using hydrate_cards_Cons by blast
  then show ?case using Cons.IH [OF h] by auto
qed

lemma hydrate_areas_cache:
  assumes "hydrate_areas tx areas ts = Inr areas'"
  shows "areas' t = (if t \<in> set ts \<and> db_area_cache tx t \<noteq> None then db_area_cache tx t else areas t)"
  using assms
  by (induction ts arbitrary: areas)
    (auto simp: and_then_Inr db_area_cache_def area_insert_def split: option.splits if_splits)

lemma hydrate_cards_ok:
  assumes "reads_ok tx"
  shows "\<exists>m' ts'. hydrate_cards tx m ts cs = Inr (m', ts')"
proof (induction cs arbitrary: m ts)
  case Nil
  then show ?case by simp
next
  case (Cons c cs)
  obtain role home where "read_card_role tx c = Inr role" "read_card_track tx c = Inr home"
    using assms by (auto simp: reads_ok_def is_ok_def split: sum.splits) (metis sum.exhaust)
  then show ?case using Cons.IH by (auto simp: lookup_failed_def split: option.split)
qed

lemma hydrate_areas_ok:
  assumes "reads_ok tx"
  shows "\<exists>areas'. hydrate_areas tx areas ts = Inr areas'"
proof (induction ts arbitrary: areas)
  case Nil
  then show ?case by simp
next
  case (Cons t ts)
  obtain a where "read_track_area tx t = Inr a"
    using assms by (auto simp: reads_ok_def is_ok_def split: sum.splits) (metis sum.exhaust)
  then show ?case using Cons.IH by (auto simp: lookup_failed_def)
qed

lemma set_push_distinct: "set (push_distinct acc xs) = set acc \<union> (set xs - {[]})"
  by (induction acc xs rule: push_distinct.induct) auto

lemma set_cards_to_read:
  "set (cards_to_read a s x) =
     {c. (actor_card_id a = Some c \<or> scope_card s = Some c \<or> x = Some c) \<and> c \<noteq> []}"
  by (auto simp: cards_to_read_def Let_def set_push_distinct split: option.splits)

lemma hydrate_ok: "reads_ok tx \<Longrightarrow> \<exists>v. hydrate_role_caches_from_tx tx a s x = Inr v"
  unfolding hydrate_role_caches_from_tx_def
  using hydrate_cards_ok [of tx] hydrate_areas_ok [of tx] by (fastforce simp: and_then_Inr)

text \<open>The hydrated caches show an actor on one of the cards read what the database shows it.\<close>

lemma hydrated_view:
  assumes h: "hydrate_role_caches_from_tx tx a s x = Inr (m, areas)"
    and no_empty: "db_card_cache tx [] = None"
  shows "c = [] \<or> c \<in> set (cards_to_read a s x) \<Longrightarrow> m c = db_card_cache tx c"
    and "c \<in> set (cards_to_read a s x) \<Longrightarrow> db_card_cache tx c = Some en \<Longrightarrow>
      areas (entry_track en) = db_area_cache tx (entry_track en)"
proof -
  obtain ts0 ts where ts: "hydrate_cards tx Map.empty ts0 (cards_to_read a s x) = Inr (m, ts)"
      and ar: "hydrate_areas tx Map.empty ts = Inr areas"
    using h by (auto simp: hydrate_role_caches_from_tx_def and_then_Inr)
  show "m c = db_card_cache tx c" if "c = [] \<or> c \<in> set (cards_to_read a s x)"
    using that hydrate_cards_cache [OF ts, of c] no_empty by auto
  show "areas (entry_track en) = db_area_cache tx (entry_track en)"
    if "c \<in> set (cards_to_read a s x)" "db_card_cache tx c = Some en"
    using hydrate_areas_cache [OF ar, of "entry_track en"] hydrate_cards_tracks [OF ts] that by auto
qed

lemma hydrated_same_view:
  assumes h: "hydrate_role_caches_from_tx tx a s x = Inr (m, areas)"
    and no_empty: "db_card_cache tx [] = None"
    and own: "\<And>c. actor_card_id b = Some c \<Longrightarrow> c \<noteq> [] \<Longrightarrow> c \<in> set (cards_to_read a s x)"
  shows "same_view b s (m, areas) (db_card_cache tx, db_area_cache tx)"
proof -
  have "scope_card s = Some c \<Longrightarrow> c = [] \<or> c \<in> set (cards_to_read a s x)" for c
    by (auto simp: set_cards_to_read)
  then show ?thesis
    using hydrated_view [OF h no_empty] own by (auto simp: same_view_def)
qed

section \<open>The gate on hydrated caches is the gate on the database\<close>

lemma resolve_session_card:
  assumes "session_of a = Some i" and "resolve_session tx a i m = Inr b"
  shows "actor_card_id b = session_card tx a"
  using assms
  by (cases a) (auto simp: resolve_session_def session_card_def synthetic_actor_def
      split: sum.splits option.splits if_splits)

lemma resolve_session_cong:
  assumes "\<And>c. session_card tx a = Some c \<Longrightarrow> m c = m' c" and "session_of a = Some i"
  shows "resolve_session tx a i m = resolve_session tx a i m'"
  using assms
  by (cases a) (auto simp: resolve_session_def session_card_def synthetic_actor_def cache_get_def
      split: sum.splits option.splits)

lemma hydrated_gate:
  assumes h: "hydrate_role_caches_from_tx tx a s (session_card tx a) = Inr (m, areas)"
    and no_empty: "db_card_cache tx [] = None"
  shows "enforce_role_resolving_session tx a e s m areas =
    enforce_role_resolving_session tx a e s (db_card_cache tx) (db_area_cache tx)"
proof (cases "session_of a")
  case None
  have "same_view a s (m, areas) (db_card_cache tx, db_area_cache tx)"
    by (rule hydrated_same_view [OF h no_empty]) (auto simp: set_cards_to_read)
  then show ?thesis using None by (simp add: enforce_role_resolving_session_def enforce_role_cong)
next
  case (Some i)
  have "m c = db_card_cache tx c" if "session_card tx a = Some c" for c
    using hydrated_view(1) [OF h no_empty, of c] that by (cases "c = []") (auto simp: set_cards_to_read)
  then have r: "resolve_session tx a i m = resolve_session tx a i (db_card_cache tx)"
    using Some by (rule resolve_session_cong)
  show ?thesis
  proof (cases "resolve_session tx a i m")
    case (Inl v)
    then show ?thesis using Some r by (simp add: enforce_role_resolving_session_def)
  next
    case (Inr b)
    have "same_view b s (m, areas) (db_card_cache tx, db_area_cache tx)"
      by (rule hydrated_same_view [OF h no_empty])
        (auto simp: set_cards_to_read resolve_session_card [OF Some Inr])
    then show ?thesis
      using Some Inr r enforce_role_cong by (simp add: enforce_role_resolving_session_def)
  qed
qed

section \<open>Who a session actor acts for\<close>

lemma resolve_session_Inr:
  assumes "resolve_session tx a i m = Inr b"
  shows "\<exists>session c. read_worker_session tx i = Inr (Some session) \<and> is_active_authority (ws_state session) \<and>
    ws_card_id session = Some c \<and> synthetic_actor a i session c m = Inr b \<and>
    (ws_contract session = CtAssistant \<longrightarrow> is_managed_session a)"
  using assms by (auto simp: resolve_session_def split: sum.splits option.splits if_splits)

lemma from_tx_cases:
  assumes "enforce_role_resolving_session_from_tx tx a e s = Inr ()" and "db_card_cache tx [] = None"
  shows "\<exists>b. (case session_of a of None \<Rightarrow> b = a | Some i \<Rightarrow> resolve_session tx a i (db_card_cache tx) = Inr b) \<and>
    permits b e s (db_card_cache tx) (db_area_cache tx)"
proof -
  obtain m areas where h: "hydrate_role_caches_from_tx tx a s (session_card tx a) = Inr (m, areas)"
      and g: "enforce_role_resolving_session tx a e s m areas = Inr ()"
    using assms(1) by (auto simp: enforce_role_resolving_session_from_tx_def and_then_Inr)
  show ?thesis
    using g unfolding hydrated_gate [OF h assms(2)]
    by (auto simp: enforce_role_resolving_session_def and_then_Inr split: option.splits
        simp flip: enforce_role_permits)
qed

text \<open>A read that fails among the cards a decision needs is a refusal.\<close>

lemma hydrate_cards_fails:
  assumes "c \<in> set cs" and "read_card_role tx c = Inl err \<or> read_card_track tx c = Inl err"
  shows "\<exists>subject. hydrate_cards tx m ts cs = Inl (RoleLookupFailed subject)"
  using assms(1)
proof (induction cs arbitrary: m ts)
  case Nil
  then show ?case by simp
next
  case (Cons d cs)
  show ?case
  proof (cases "read_card_role tx d"; cases "read_card_track tx d")
    fix r h assume rd: "read_card_role tx d = Inr r" "read_card_track tx d = Inr h"
    then have "c \<in> set cs" using Cons.prems assms(2) by auto
    then show ?thesis using Cons.IH rd by (auto simp: lookup_failed_def split: option.split)
  qed (auto simp: lookup_failed_def)
qed

text \<open>An active session the SQLite transaction resolves is the one its card is bound to.\<close>

definition bound_session ::
  "'j serde \<Rightarrow> sqlite_rows \<Rightarrow> session_id \<Rightarrow> 'j worker_session \<Rightarrow> card_id \<Rightarrow> bool" where
  "bound_session js db i session c \<longleftrightarrow>
     session_get_tx js (sel_session db) i = Inr (Some session) \<and>
     is_active_authority (ws_state session) \<and> ws_card_id session = Some c \<and>
     sel_card_track db c = Inr (Some (ws_track_id session)) \<and>
     (\<exists>knd payload role key.
        sqlite_read_card_binding js db c = Inr (Some (knd, payload, Some i)) \<and>
        sqlite_read_card_role db c = Inr (Some role) \<and>
        contract_key js payload (Some role) (ws_contract session) = Some key \<and>
        (\<forall>k. key = Some k \<longrightarrow> provider_bound js knd payload k session))"

lemma contract_key_Some: "contract_key js payload role ct = Some key \<Longrightarrow> \<exists>r. role = Some r"
  by (cases role) (auto simp: contract_key_def)

lemma sqlite_session_bound:
  assumes "read_worker_session (sqlite_tx js db) i = Inr (Some session)"
    and "is_active_authority (ws_state session)" and "ws_card_id session = Some c"
  shows "bound_session js db i session c"
proof -
  have r: "sqlite_read_worker_session js db i = Inr (Some session)"
    using assms(1) by (simp add: sqlite_tx_def)
  then have g: "session_get_tx js (sel_session db) i = Inr (Some session)"
    by (auto simp: sqlite_read_worker_session_def chain_Inr case_prod_beta)
  obtain knd payload role key where
      "sqlite_read_card_binding js db c = Inr (Some (knd, payload, Some i))"
      and "sel_card_track db c = Inr (Some (ws_track_id session))"
      and "sqlite_read_card_role db c = Inr role"
      and "contract_key js payload role (ws_contract session) = Some key"
      and "\<forall>x. key = Some x \<longrightarrow> provider_bound js knd payload x session"
    using r g assms(2,3) by (auto simp: sqlite_read_worker_session_def chain_Inr)
  then show ?thesis
    unfolding bound_session_def using g assms(2,3) contract_key_Some by metis
qed

lemma bound_sessionD:
  assumes "bound_session js db i session c"
  shows "is_active_authority (ws_state session)" and "ws_card_id session = Some c"
    and "sel_card_track db c = Inr (Some (ws_track_id session))"
  using assms by (simp_all add: bound_session_def)

text \<open>And conversely: the active sessions it resolves are exactly the bound ones.\<close>

lemma bound_session_read:
  assumes "bound_session js db i session c"
  shows "read_worker_session (sqlite_tx js db) i = Inr (Some session)"
proof -
  obtain knd payload role key where
      "sqlite_read_card_binding js db c = Inr (Some (knd, payload, Some i))"
      "sqlite_read_card_role db c = Inr (Some role)"
      "contract_key js payload (Some role) (ws_contract session) = Some key"
      "\<forall>k. key = Some k \<longrightarrow> provider_bound js knd payload k session"
    using assms unfolding bound_session_def by blast
  then show ?thesis
    using assms
    by (cases key) (simp_all add: bound_session_def sqlite_tx_def sqlite_read_worker_session_def)
qed

lemma sqlite_session_iff:
  "read_worker_session (sqlite_tx js db) i = Inr (Some session) \<and>
     is_active_authority (ws_state session) \<and> ws_card_id session = Some c \<longleftrightarrow>
   bound_session js db i session c"
  by (metis sqlite_session_bound bound_session_read bound_sessionD(1,2))

lemma decide_card_authority_Allow:
  "decide_card_authority p tx track expected roles = Inr Allow \<longleftrightarrow>
     (\<exists>i t a session c r. p = PAgent i t a \<and> read_worker_session tx i = Inr (Some session) \<and>
        is_active_authority (ws_state session) \<and> ws_card_id session = Some c \<and>
        (expected = None \<or> expected = Some c) \<and> read_card_role tx c = Inr (Some r) \<and>
        r \<in> set roles \<and> read_card_track tx c = Inr (Some track))"
  by (cases p) (auto simp: decide_card_authority_def chain_Inr)

end
