(* ===== verification/Session_Mirror.thy ===== *)
theory Session_Mirror
  imports Session_Store
begin

text \<open>
  The writers of \<open>worker_sessions\<close> that start, supersede, restore and observe a session:
  crates/calm-truth/src/db/sqlite/session\_mirror.rs, the statements of session\_projection.rs and the
  credential writers of session\_row.rs. \<open>session_db\<close> holds the columns of the tables they read or write
  beside the sessions: a card's track and current session, a track's root session, the cards' tokens,
  the ledger of what a session has read of a report, the managed ACP sessions and the terminals.

  Functions of these files that only compose the operations below with a read of the projection
  (\<open>session_start_runtime_tx\<close>, \<open>session_supersede_and_start_tx\<close>, the two restores of a runtime, the writes
  for a card) are sequences of them.

  The database engine is the parameter \<open>adm\<close>, as \<open>admit\<close> in Session\_Store: a statement whose result it
  does not accept fails. An \<open>UPDATE\<close> that matches no row changes nothing. The trigger that counts a
  session's failures writes a column no operation here reads; it is left out.
\<close>

section \<open>The tables\<close>

record card_row =
  cd_track :: track_id
  cd_session :: "session_id option"
  cd_kind :: string
  cd_role :: string
  cd_payload :: string

record track_row =
  tk_root :: "session_id option"
  tk_closed_at :: "int option"
  tk_purpose :: "string option"

record terminal_row =
  tm_exit_code :: "int option"
  tm_signal_killed :: bool

record session_db =
  db_sessions :: session_table
  db_cards :: "card_id \<rightharpoonup> card_row"
  db_tracks :: "track_id \<rightharpoonup> track_row"
  db_tokens :: "card_id \<rightharpoonup> string"
  db_ledger :: "(session_id \<times> card_id) set"
  db_acp :: "session_id set"
  db_terminals :: "string \<rightharpoonup> terminal_row"

text \<open>
  The errors of the projection layer. \<open>SqlMessage\<close> is a message whose text the database wrote,
  \<open>TruthMessage e\<close> one whose text is \<open>e\<close> displayed.
\<close>

datatype repo_error =
    ProviderExecutionRetained session_id
  | Message string | SqlMessage | TruthMessage truth_error
  | IllegalStatusTransition session_id worker_session_state

section \<open>Statements\<close>

definition sql_run :: "'e \<Rightarrow> (session_db \<Rightarrow> bool) \<Rightarrow> session_db \<Rightarrow> (session_db, 'e) result" where
  "sql_run e adm db = (if adm db then Inr db else Inl e)"

text \<open>\<open>UPDATE worker_sessions SET f WHERE id = i AND P\<close>, with whether a row was written.\<close>

definition update_one ::
  "'e \<Rightarrow> (session_db \<Rightarrow> bool) \<Rightarrow> session_db \<Rightarrow> session_id \<Rightarrow> (session_row \<Rightarrow> bool) \<Rightarrow>
     (session_row \<Rightarrow> session_row) \<Rightarrow> (session_db \<times> bool, 'e) result" where
  "update_one e adm db i P f =
     (case db_sessions db i of
        None \<Rightarrow> Inr (db, False)
      | Some r \<Rightarrow>
          if P r
          then and_then (sql_run e adm (db\<lparr>db_sessions := (db_sessions db)(i \<mapsto> f r)\<rparr>))
                 (\<lambda>db'. Inr (db', True))
          else Inr (db, False))"

text \<open>\<open>UPDATE worker_sessions SET f WHERE P\<close>, over all rows.\<close>

definition update_where ::
  "'e \<Rightarrow> (session_db \<Rightarrow> bool) \<Rightarrow> session_db \<Rightarrow> (session_id \<Rightarrow> session_row \<Rightarrow> bool) \<Rightarrow>
     (session_row \<Rightarrow> session_row) \<Rightarrow> (session_db, 'e) result" where
  "update_where e adm db P f =
     sql_run e adm (db\<lparr>db_sessions :=
       (\<lambda>i. map_option (\<lambda>r. if P i r then f r else r) (db_sessions db i))\<rparr>)"

text \<open>An operation of Session\_Store, on the database.\<close>

definition on_sessions ::
  "(session_db \<Rightarrow> bool) \<Rightarrow> session_db \<Rightarrow>
   ((session_table \<Rightarrow> bool) \<Rightarrow> session_table \<Rightarrow> (session_table \<times> 'a, truth_error) result) \<Rightarrow>
   (session_db \<times> 'a, truth_error) result" where
  "on_sessions adm db operation =
     and_then (operation (\<lambda>t. adm (db\<lparr>db_sessions := t\<rparr>)) (db_sessions db))
       (\<lambda>(t, a). Inr (db\<lparr>db_sessions := t\<rparr>, a))"

definition runtime_session_error :: "('a, truth_error) result \<Rightarrow> ('a, repo_error) result" where
  "runtime_session_error r = (case r of Inl e \<Rightarrow> Inl (TruthMessage e) | Inr a \<Rightarrow> Inr a)"

definition require_hit :: "'e \<Rightarrow> (session_db \<times> bool, 'e) result \<Rightarrow> (session_db, 'e) result" where
  "require_hit e r = and_then r (\<lambda>(db, hit). if hit then Inr db else Inl e)"

section \<open>Credentials\<close>

definition session_mcp_token_set_tx ::
  "(session_db \<Rightarrow> bool) \<Rightarrow> session_db \<Rightarrow> session_id \<Rightarrow> string \<Rightarrow> (session_db, truth_error) result" where
  "session_mcp_token_set_tx adm db i hashed =
     require_hit (Internal (''expected 1 worker_sessions mirror row for MCP token session '' @ i @ '', got 0''))
       (update_one Db adm db i (\<lambda>_. True) (\<lambda>r. r\<lparr>r_mcp_token_hash := Some hashed\<rparr>))"

definition session_mcp_token_set_if_active_tx ::
  "(session_db \<Rightarrow> bool) \<Rightarrow> session_db \<Rightarrow> session_id \<Rightarrow> string \<Rightarrow> (session_db, truth_error) result" where
  "session_mcp_token_set_if_active_tx adm db i hashed =
     require_hit (Conflict (''worker session '' @ i
         @ '' is no longer active; its Claude Planner credential was not minted''))
       (update_one Db adm db i (\<lambda>r. active_state_text (r_state r))
         (\<lambda>r. r\<lparr>r_mcp_token_hash := Some hashed\<rparr>))"

datatype claude_planner_scope = ScopeAll | ScopeTrack track_id | ScopeCard card_id

fun in_planner_scope :: "claude_planner_scope \<Rightarrow> session_row \<Rightarrow> bool" where
  "in_planner_scope ScopeAll r = True"
| "in_planner_scope (ScopeTrack t) r \<longleftrightarrow> r_track_id r = t"
| "in_planner_scope (ScopeCard c) r \<longleftrightarrow> r_card_id r = Some c"

definition claude_planner_row :: "claude_planner_scope \<Rightarrow> session_row \<Rightarrow> bool" where
  "claude_planner_row scope r \<longleftrightarrow> r_provider r = ''claude'' \<and>
     r_contract r \<in> {''planner'', ''assistant''} \<and> in_planner_scope scope r"

text \<open>The ids the code returns for its sweep are those of the rows it matches here.\<close>

definition claude_planner_revoke_tx ::
  "(session_db \<Rightarrow> bool) \<Rightarrow> session_db \<Rightarrow> claude_planner_scope \<Rightarrow> (session_db, truth_error) result" where
  "claude_planner_revoke_tx adm db scope =
     update_where Db adm db (\<lambda>_. claude_planner_row scope) (\<lambda>r. r\<lparr>r_mcp_token_hash := None\<rparr>)"

text \<open>
  A card's token and the hashes of all its sessions, live or not. The counts the code compares are read
  in the same transaction as the statements, so they agree.
\<close>

definition revoke_card_credentials_tx ::
  "(session_db \<Rightarrow> bool) \<Rightarrow> session_db \<Rightarrow> card_id \<Rightarrow> (session_db, truth_error) result" where
  "revoke_card_credentials_tx adm db c =
     and_then (sql_run Db adm (db\<lparr>db_tokens := (db_tokens db)(c := None)\<rparr>)) (\<lambda>db.
       update_where Db adm db (\<lambda>_ r. r_card_id r = Some c \<and> r_mcp_token_hash r \<noteq> None)
         (\<lambda>r. r\<lparr>r_mcp_token_hash := None\<rparr>))"

section \<open>Starting a session\<close>

datatype worker_session_kind = KTerminal | KCodexCard | KClaudeCard | KSharedPlanner | KManagedAssistant

record 'j worker_session_init =
  in_id :: session_id
  in_card_id :: card_id
  in_kind :: worker_session_kind
  in_agent_provider :: "agent_provider option"
  in_status :: worker_session_state
  in_terminal_run_id :: "string option"
  in_thread_id :: "string option"
  in_session_id :: "string option"
  in_active_turn_id :: "string option"
  in_handle_state_json :: "'j option"
  in_spawn_op_id :: "string option"
  in_now_ms :: int

definition is_non_codex_agent :: "worker_provider_kind \<Rightarrow> bool" where
  "is_non_codex_agent p \<longleftrightarrow> (case kind_protocol p of None \<Rightarrow> False | Some a \<Rightarrow> a \<noteq> PrCodex)"

definition agent_provider_db_strings :: "(worker_provider_kind \<Rightarrow> bool) \<Rightarrow> string list" where
  "agent_provider_db_strings keep =
     map provider_kind_db_str (filter keep (map kind_of_provider all_providers))"

definition derive_session_identity ::
  "worker_session_kind \<Rightarrow> worker_provider_kind \<times> session_mode \<times> worker_contract" where
  "derive_session_identity knd =
     (let provider = (case knd of
                        KTerminal \<Rightarrow> WpTerminal
                      | KClaudeCard \<Rightarrow> WpClaude
                      | _ \<Rightarrow> WpCodex);
          mode = (case kind_protocol provider of
                    Some PrCodex \<Rightarrow> Resumable | Some PrAcp \<Rightarrow> Resumable | _ \<Rightarrow> Ephemeral);
          contract = (case knd of
                        KSharedPlanner \<Rightarrow> CtPlanner | KManagedAssistant \<Rightarrow> CtAssistant | _ \<Rightarrow> CtExecutor)
      in (provider, mode, contract))"

definition runtime_init_session_identity ::
  "'j worker_session_init \<Rightarrow> (worker_provider_kind \<times> session_mode \<times> worker_contract, repo_error) result" where
  "runtime_init_session_identity ini =
     (if in_kind ini \<notin> {KSharedPlanner, KManagedAssistant} then Inr (derive_session_identity (in_kind ini))
      else case in_agent_provider ini of
        None \<Rightarrow> Inl (Message ((if in_kind ini = KManagedAssistant then ''assistant'' else ''planner'')
                  @ '' runtime init '' @ in_id ini @ '' names no provider''))
      | Some p \<Rightarrow> Inr (kind_of_provider p, Resumable,
                  if in_kind ini = KManagedAssistant then CtAssistant else CtPlanner))"

definition worker_session_from_runtime_init ::
  "'j worker_session_init \<Rightarrow> track_id \<Rightarrow> ('j worker_session, repo_error) result" where
  "worker_session_from_runtime_init ini track =
     and_then (runtime_init_session_identity ini) (\<lambda>(provider, mode, contract).
       Inr \<lparr>ws_id = in_id ini, ws_track_id = track, ws_provider = provider, ws_mode = mode,
         ws_contract = contract, ws_parent_session_id = None, ws_requester_session_id = None,
         ws_state = in_status ini, ws_mcp_token_hash = None, ws_thread_id = in_thread_id ini,
         ws_agent_session_id = in_session_id ini, ws_active_turn_id = in_active_turn_id ini,
         ws_terminal_run_id = in_terminal_run_id ini, ws_card_id = Some (in_card_id ini),
         ws_handle_state_json = in_handle_state_json ini, ws_liveness = LtUnknown,
         ws_liveness_probed_at_ms = None, ws_exit_code = None, ws_exit_interpretation = None,
         ws_spawn_op_id = in_spawn_op_id ini, ws_last_activity_ms = None, ws_last_thread_status = None,
         ws_created_at_ms = in_now_ms ini, ws_updated_at_ms = in_now_ms ini, ws_completed_at_ms = None\<rparr>)"

definition worker_session_track_id_for_card_tx ::
  "session_db \<Rightarrow> card_id \<Rightarrow> (track_id, repo_error) result" where
  "worker_session_track_id_for_card_tx db c =
     (case db_cards db c of
        None \<Rightarrow> Inl (Message (''card '' @ c @ '' missing while mirroring runtime session''))
      | Some row \<Rightarrow> Inr (cd_track row))"

definition require_provider_unclaimed_tx :: "session_db \<Rightarrow> session_id \<Rightarrow> (unit, repo_error) result" where
  "require_provider_unclaimed_tx db i =
     (case db_sessions db i of
        Some r \<Rightarrow> if r_provider_execution_json r \<noteq> None then Inl (ProviderExecutionRetained i) else Inr ()
      | None \<Rightarrow> Inr ())"

definition read_session ::
  "'j serde \<Rightarrow> session_db \<Rightarrow> session_id \<Rightarrow> ('j worker_session option, repo_error) result" where
  "read_session js db i = runtime_session_error (session_get_tx js (fetch_row (db_sessions db)) i)"

definition session_get_required_for_runtime_tx ::
  "'j serde \<Rightarrow> string \<Rightarrow> session_db \<Rightarrow> session_id \<Rightarrow> (session_db \<times> 'j worker_session, repo_error) result" where
  "session_get_required_for_runtime_tx js what db i =
     and_then (read_session js db i) (\<lambda>s.
       case s of
         None \<Rightarrow> Inl (Message (''worker session '' @ i @ '' missing '' @ what))
       | Some w \<Rightarrow> Inr (db, w))"

text \<open>Whether a row is a placeholder the desired session may take over.\<close>

definition deferred_placeholder :: "'j worker_session \<Rightarrow> 'j worker_session \<Rightarrow> bool" where
  "deferred_placeholder existing desired \<longleftrightarrow>
     ws_contract existing = ws_contract desired \<and>
     ws_contract desired \<in> {CtPlanner, CtAssistant, CtExecutor} \<and>
     ws_state existing \<in> {Starting, Superseded} \<and>
     ws_track_id existing = ws_track_id desired \<and> ws_card_id existing = ws_card_id desired \<and>
     ws_provider existing = ws_provider desired \<and> ws_mode existing = ws_mode desired \<and>
     ws_parent_session_id existing = None \<and> ws_requester_session_id existing = None \<and>
     (ws_completed_at_ms existing = None \<or> ws_state existing = Superseded)"

definition refreshed_row :: "'j worker_session \<Rightarrow> string option \<Rightarrow> session_row \<Rightarrow> session_row" where
  "refreshed_row s handle r =
     r\<lparr>r_state := session_state_db_str (ws_state s), r_thread_id := ws_thread_id s,
       r_agent_session_id := ws_agent_session_id s, r_active_turn_id := ws_active_turn_id s,
       r_terminal_run_id := ws_terminal_run_id s, r_handle_state_json := handle,
       r_liveness := liveness_db_str (ws_liveness s),
       r_liveness_probed_at_ms := ws_liveness_probed_at_ms s, r_exit_code := ws_exit_code s,
       r_exit_interpretation := ws_exit_interpretation s, r_spawn_op_id := ws_spawn_op_id s,
       r_created_at_ms := ws_created_at_ms s, r_updated_at_ms := ws_updated_at_ms s,
       r_completed_at_ms := ws_completed_at_ms s, r_queue_harvested_at_ms := None\<rparr>"

definition handle_text ::
  "'j serde \<Rightarrow> 'j option \<Rightarrow> (string option, repo_error) result" where
  "handle_text js v =
     (case v of
        None \<Rightarrow> Inr None
      | Some j \<Rightarrow> (case to_str js j of Inl e \<Rightarrow> Inl (Message e) | Inr t \<Rightarrow> Inr (Some t)))"

definition session_refresh_deferred_placeholder_tx ::
  "'j serde \<Rightarrow> (session_db \<Rightarrow> bool) \<Rightarrow> session_db \<Rightarrow> 'j worker_session \<Rightarrow> 'j worker_session \<Rightarrow>
     (session_db \<times> 'j worker_session, repo_error) result" where
  "session_refresh_deferred_placeholder_tx js adm db existing desired =
     and_then (require_provider_unclaimed_tx db (ws_id desired)) (\<lambda>_.
       if \<not> deferred_placeholder existing desired
       then Inl (Message (''worker session '' @ ws_id desired
              @ '' already exists and is not a compatible deferred placeholder''))
       else and_then (handle_text js (ws_handle_state_json desired)) (\<lambda>handle.
         and_then (require_hit (Message (''deferred placeholder '' @ ws_id desired
                      @ '' changed before runtime mirror refresh''))
             (update_one SqlMessage adm db (ws_id desired)
               (\<lambda>r. r_contract r = contract_db_str (ws_contract desired) \<and>
                    ws_card_id desired \<noteq> None \<and> r_card_id r = ws_card_id desired \<and>
                    r_state r \<in> {''starting'', ''superseded''})
               (refreshed_row desired handle)))
           (\<lambda>db. session_get_required_for_runtime_tx js ''after deferred placeholder refresh'' db
                   (ws_id desired))))"

definition session_insert_or_refresh_start_mirror_tx ::
  "'j serde \<Rightarrow> (session_db \<Rightarrow> bool) \<Rightarrow> session_db \<Rightarrow> 'j worker_session \<Rightarrow>
     (session_db \<times> 'j worker_session, repo_error) result" where
  "session_insert_or_refresh_start_mirror_tx js adm db s =
     and_then (read_session js db (ws_id s)) (\<lambda>found.
       case found of
         Some existing \<Rightarrow> session_refresh_deferred_placeholder_tx js adm db existing s
       | None \<Rightarrow> runtime_session_error
           (on_sessions adm db (\<lambda>admit t. session_insert_tx js admit t s)))"

section \<open>The current session of a card\<close>

definition session_mark_track_root_tx ::
  "(session_db \<Rightarrow> bool) \<Rightarrow> session_db \<Rightarrow> track_id \<Rightarrow> session_id \<Rightarrow> (session_db, truth_error) result" where
  "session_mark_track_root_tx adm db track i =
     (case db_tracks db track of
        None \<Rightarrow> Inl (NotFound (''track '' @ track))
      | Some row \<Rightarrow> sql_run Db adm (db\<lparr>db_tracks := (db_tracks db)(track \<mapsto> row\<lparr>tk_root := Some i\<rparr>)\<rparr>))"

definition card_session_link_tx ::
  "(session_db \<Rightarrow> bool) \<Rightarrow> session_db \<Rightarrow> card_id \<Rightarrow> session_id \<Rightarrow> (session_db, repo_error) result" where
  "card_session_link_tx adm db c i =
     (case db_cards db c of
        None \<Rightarrow> Inl (Message (''card '' @ c @ '' missing while linking worker session '' @ i))
      | Some row \<Rightarrow>
          and_then (case cd_session row of
                      Some old \<Rightarrow> if old \<noteq> i then require_provider_unclaimed_tx db old else Inr ()
                    | None \<Rightarrow> Inr ())
            (\<lambda>_. sql_run SqlMessage adm
                   (db\<lparr>db_cards := (db_cards db)(c \<mapsto> row\<lparr>cd_session := Some i\<rparr>)\<rparr>)))"

text \<open>The card's token, when no other card and no other session carries its hash.\<close>

definition unshared_token :: "session_db \<Rightarrow> card_id \<Rightarrow> session_id \<Rightarrow> string option" where
  "unshared_token db c i =
     (case db_tokens db c of
        None \<Rightarrow> None
      | Some h \<Rightarrow>
          if (\<forall>c'. db_tokens db c' = Some h \<longrightarrow> c' = c) \<and>
             (\<forall>i' r. db_sessions db i' = Some r \<longrightarrow> r_mcp_token_hash r = Some h \<longrightarrow> i' = i)
          then Some h else None)"

definition session_mirror_card_mcp_token_tx ::
  "(session_db \<Rightarrow> bool) \<Rightarrow> session_db \<Rightarrow> card_id \<Rightarrow> 'j worker_session \<Rightarrow> (session_db, repo_error) result" where
  "session_mirror_card_mcp_token_tx adm db c s =
     (if \<not> is_active_authority (ws_state s) \<or> ws_mcp_token_hash s \<noteq> None then Inr db
      else if ws_contract s = CtAssistant \<or> (is_non_codex_agent (ws_provider s) \<and> ws_contract s = CtPlanner)
      then Inr db
      else case unshared_token db c (ws_id s) of
        None \<Rightarrow> Inr db
      | Some h \<Rightarrow> runtime_session_error (session_mcp_token_set_tx adm db (ws_id s) h))"

definition session_repoint_current_links_tx ::
  "(session_db \<Rightarrow> bool) \<Rightarrow> session_db \<Rightarrow> card_id \<Rightarrow> 'j worker_session \<Rightarrow> (session_db, repo_error) result" where
  "session_repoint_current_links_tx adm db c s =
     and_then (session_mirror_card_mcp_token_tx adm db c s) (\<lambda>db.
     and_then (if ws_contract s = CtPlanner \<and> is_active_authority (ws_state s)
               then runtime_session_error (session_mark_track_root_tx adm db (ws_track_id s) (ws_id s))
               else Inr db) (\<lambda>db.
     card_session_link_tx adm db c (ws_id s)))"

definition session_start_mirror_tx ::
  "'j serde \<Rightarrow> (session_db \<Rightarrow> bool) \<Rightarrow> session_db \<Rightarrow> 'j worker_session_init \<Rightarrow>
     (session_db \<times> 'j worker_session, repo_error) result" where
  "session_start_mirror_tx js adm db ini =
     and_then (worker_session_track_id_for_card_tx db (in_card_id ini)) (\<lambda>track.
     and_then (worker_session_from_runtime_init ini track) (\<lambda>s.
     and_then (session_insert_or_refresh_start_mirror_tx js adm db s) (\<lambda>(db, s).
     and_then (session_repoint_current_links_tx adm db (in_card_id ini) s) (\<lambda>db.
     Inr (db, s)))))"

section \<open>Superseding and removing a session\<close>

definition superseded_row :: "int \<Rightarrow> session_row \<Rightarrow> session_row" where
  "superseded_row now r =
     r\<lparr>r_state := ''superseded'', r_updated_at_ms := now,
       r_completed_at_ms := (case r_completed_at_ms r of None \<Rightarrow> Some now | Some at \<Rightarrow> Some at),
       r_mcp_token_hash :=
         (if r_contract r = ''assistant'' \<or>
             (r_provider r \<in> set (agent_provider_db_strings is_non_codex_agent) \<and> r_contract r = ''planner'')
          then None else r_mcp_token_hash r)\<rparr>"

definition clear_session_tx ::
  "'e \<Rightarrow> (session_db \<Rightarrow> bool) \<Rightarrow> session_db \<Rightarrow> session_id \<Rightarrow> (session_db, 'e) result" where
  "clear_session_tx e adm db i =
     sql_run e adm (db\<lparr>db_ledger := {entry \<in> db_ledger db. fst entry \<noteq> i}\<rparr>)"

definition supersede_for_lifecycle_tx ::
  "(session_db \<Rightarrow> bool) \<Rightarrow> session_db \<Rightarrow> session_id \<Rightarrow> int \<Rightarrow> bool \<Rightarrow> (session_db, repo_error) result" where
  "supersede_for_lifecycle_tx adm db i now abandoned =
     and_then (require_provider_unclaimed_tx db i) (\<lambda>_.
     and_then (require_hit (Message (''active worker session '' @ i @ '' not found for supersede''))
         (update_one SqlMessage adm db i
           (\<lambda>r. active_state_text (r_state r) \<or> abandoned \<and> r_state r = ''failed'') (superseded_row now)))
       (\<lambda>db. clear_session_tx SqlMessage adm db i))"

definition session_mark_superseded_tx ::
  "(session_db \<Rightarrow> bool) \<Rightarrow> session_db \<Rightarrow> session_id \<Rightarrow> int \<Rightarrow> (session_db, repo_error) result" where
  "session_mark_superseded_tx adm db i now =
     and_then (require_provider_unclaimed_tx db i) (\<lambda>_.
     and_then (update_one SqlMessage adm db i (\<lambda>_. True) (superseded_row now)) (\<lambda>(db, _).
       clear_session_tx SqlMessage adm db i))"

definition session_mark_queue_harvested_tx ::
  "(session_db \<Rightarrow> bool) \<Rightarrow> session_db \<Rightarrow> session_id \<Rightarrow> int \<Rightarrow> (session_db, repo_error) result" where
  "session_mark_queue_harvested_tx adm db i now =
     and_then (update_one SqlMessage adm db i (\<lambda>r. r_queue_harvested_at_ms r = None)
       (\<lambda>r. r\<lparr>r_queue_harvested_at_ms := Some now\<rparr>)) (\<lambda>(db, _). Inr db)"

definition session_clear_queue_harvested_tx ::
  "(session_db \<Rightarrow> bool) \<Rightarrow> session_db \<Rightarrow> session_id \<Rightarrow> (session_db, repo_error) result" where
  "session_clear_queue_harvested_tx adm db i =
     and_then (update_one SqlMessage adm db i (\<lambda>_. True) (\<lambda>r. r\<lparr>r_queue_harvested_at_ms := None\<rparr>))
       (\<lambda>(db, _). Inr db)"

text \<open>The session a card points to, when it is active.\<close>

definition active_session_of_card :: "session_db \<Rightarrow> card_id \<Rightarrow> session_id option" where
  "active_session_of_card db c =
     (case db_cards db c of
        None \<Rightarrow> None
      | Some row \<Rightarrow> (case cd_session row of
          None \<Rightarrow> None
        | Some i \<Rightarrow> (case db_sessions db i of
            None \<Rightarrow> None
          | Some r \<Rightarrow> if active_state_text (r_state r) then Some i else None)))"

definition session_prepare_deferred_planner_tx ::
  "'j serde \<Rightarrow> (session_db \<Rightarrow> bool) \<Rightarrow> session_db \<Rightarrow> 'j worker_session_init \<Rightarrow>
     (session_db \<times> 'j worker_session, repo_error) result" where
  "session_prepare_deferred_planner_tx js adm db ini =
     (if in_kind ini \<notin> {KSharedPlanner, KManagedAssistant, KCodexCard} \<or> in_status ini \<noteq> Starting
      then Inl (Message ''deferred harness placeholders require a starting managed or plain-chat runtime init'')
      else if in_thread_id ini \<noteq> None \<or> in_terminal_run_id ini \<noteq> None \<or> in_session_id ini \<noteq> None
      then Inl (Message ''deferred planner session placeholders must not have a thread, terminal run, or session'')
      else and_then (case active_session_of_card db (in_card_id ini) of
                       None \<Rightarrow> Inr db
                     | Some old \<Rightarrow>
                         and_then (supersede_for_lifecycle_tx adm db old (in_now_ms ini) False)
                           (\<lambda>db. session_mark_queue_harvested_tx adm db old (in_now_ms ini)))
        (\<lambda>db. session_start_mirror_tx js adm db ini))"

text \<open>
  Removing rows: the tracks' references go first, then the rows, and with them the card's pointer
  (\<open>ON DELETE SET NULL\<close>) and the ledger's entries (\<open>ON DELETE CASCADE\<close>).
\<close>

definition clear_track_roots :: "(session_id \<Rightarrow> bool) \<Rightarrow> session_db \<Rightarrow> session_db" where
  "clear_track_roots gone db =
     db\<lparr>db_tracks := (\<lambda>k. map_option
       (\<lambda>row. row\<lparr>tk_root := (case tk_root row of Some i \<Rightarrow> if gone i then None else Some i | None \<Rightarrow> None)\<rparr>)
       (db_tracks db k))\<rparr>"

definition remove_rows :: "(session_id \<Rightarrow> bool) \<Rightarrow> session_db \<Rightarrow> session_db" where
  "remove_rows gone db =
     db\<lparr>db_sessions := (\<lambda>i. if gone i then None else db_sessions db i),
        db_cards := (\<lambda>c. map_option
          (\<lambda>row. row\<lparr>cd_session := (case cd_session row of Some i \<Rightarrow> if gone i then None else Some i | None \<Rightarrow> None)\<rparr>)
          (db_cards db c)),
        db_ledger := {entry \<in> db_ledger db. \<not> gone (fst entry)},
        db_acp := {i \<in> db_acp db. \<not> gone i}\<rparr>"

definition delete_sessions ::
  "'e \<Rightarrow> (session_db \<Rightarrow> bool) \<Rightarrow> session_db \<Rightarrow> (session_id \<Rightarrow> bool) \<Rightarrow> (session_db, 'e) result" where
  "delete_sessions e adm db gone =
     and_then (sql_run e adm (clear_track_roots gone db)) (\<lambda>db. sql_run e adm (remove_rows gone db))"

definition session_delete_tx ::
  "(session_db \<Rightarrow> bool) \<Rightarrow> session_db \<Rightarrow> session_id \<Rightarrow> (session_db, repo_error) result" where
  "session_delete_tx adm db i =
     and_then (require_provider_unclaimed_tx db i) (\<lambda>_. delete_sessions SqlMessage adm db (\<lambda>j. j = i))"

datatype worker_session_delete_scope = DeleteTrack track_id | DeleteCard card_id

definition in_delete_scope :: "worker_session_delete_scope \<Rightarrow> session_db \<Rightarrow> session_id \<Rightarrow> bool" where
  "in_delete_scope scope db i =
     (case db_sessions db i of
        None \<Rightarrow> False
      | Some r \<Rightarrow> (case scope of DeleteTrack t \<Rightarrow> r_track_id r = t | DeleteCard c \<Rightarrow> r_card_id r = Some c))"

definition sessions_delete_scope_tx ::
  "(session_db \<Rightarrow> bool) \<Rightarrow> session_db \<Rightarrow> worker_session_delete_scope \<Rightarrow> (session_db, truth_error) result" where
  "sessions_delete_scope_tx adm db scope = delete_sessions Db adm db (in_delete_scope scope db)"

section \<open>Status\<close>

definition run_status_from_db :: "string \<Rightarrow> (worker_session_state, repo_error) result" where
  "run_status_from_db v =
     (if v = ''starting'' then Inr Starting
      else if v = ''running'' then Inr Running
      else if v = ''idle'' then Inr Idle
      else if v = ''turn_pending'' then Inr TurnPending
      else if v = ''failed'' then Inr Failed
      else if v = ''exited'' then Inr Exited
      else if v = ''superseded'' then Inr Superseded
      else Inl (Message (''unknown runtime status '' @ [CHR 0x22] @ v @ [CHR 0x22])))"

definition runtime_current_status_tx :: "session_db \<Rightarrow> session_id \<Rightarrow> (worker_session_state, repo_error) result" where
  "runtime_current_status_tx db i =
     (case db_sessions db i of
        None \<Rightarrow> Inl (Message (''runtime '' @ i @ '' not found''))
      | Some r \<Rightarrow> run_status_from_db (r_state r))"

fun runtime_status_transition_allowed :: "worker_session_state \<Rightarrow> worker_session_state \<Rightarrow> bool" where
  "runtime_status_transition_allowed Starting to \<longleftrightarrow> to \<in> {Running, Idle, TurnPending, Failed, Exited}"
| "runtime_status_transition_allowed Running to \<longleftrightarrow> to \<in> {Idle, Failed, Exited}"
| "runtime_status_transition_allowed Idle to \<longleftrightarrow> to \<in> {Running, Failed, Exited}"
| "runtime_status_transition_allowed TurnPending to \<longleftrightarrow> to \<in> {Running, Failed, Exited}"
| "runtime_status_transition_allowed _ to \<longleftrightarrow> False"

definition ensure_runtime_status_transition ::
  "session_id \<Rightarrow> worker_session_state \<Rightarrow> worker_session_state \<Rightarrow> (unit, repo_error) result" where
  "ensure_runtime_status_transition i from to =
     (if runtime_status_transition_allowed from to then Inr () else Inl (IllegalStatusTransition i to))"

definition session_set_status_mirror_tx ::
  "'j serde \<Rightarrow> (session_db \<Rightarrow> bool) \<Rightarrow> session_db \<Rightarrow> session_id \<Rightarrow> worker_session_state \<Rightarrow> int \<Rightarrow>
     (session_db, repo_error) result" where
  "session_set_status_mirror_tx js adm db i status now =
     and_then (runtime_session_error (on_sessions adm db
         (\<lambda>admit t. session_state_transition_at_tx js admit t i status now None)))
       (\<lambda>(db, _). Inr db)"

definition session_complete_mirror_tx ::
  "'j serde \<Rightarrow> (session_db \<Rightarrow> bool) \<Rightarrow> session_db \<Rightarrow> session_id \<Rightarrow> worker_session_state \<Rightarrow> int \<Rightarrow>
     (session_db, repo_error) result" where
  "session_complete_mirror_tx js adm db i status now =
     and_then (require_provider_unclaimed_tx db i) (\<lambda>_.
     and_then (runtime_session_error (on_sessions adm db
         (\<lambda>admit t. session_state_transition_at_tx js admit t i status now (Some now))))
       (\<lambda>(db, _). Inr db))"

definition session_set_status_tx ::
  "'j serde \<Rightarrow> (session_db \<Rightarrow> bool) \<Rightarrow> session_db \<Rightarrow> int \<Rightarrow> session_id \<Rightarrow> worker_session_state \<Rightarrow>
     (session_db, repo_error) result" where
  "session_set_status_tx js adm db now i status =
     (if status = Superseded then Inl (IllegalStatusTransition i status)
      else and_then (runtime_current_status_tx db i) (\<lambda>current.
        and_then (ensure_runtime_status_transition i current status) (\<lambda>_.
          session_set_status_mirror_tx js adm db i status now)))"

definition session_complete_tx ::
  "'j serde \<Rightarrow> (session_db \<Rightarrow> bool) \<Rightarrow> session_db \<Rightarrow> int \<Rightarrow> session_id \<Rightarrow> worker_session_state \<Rightarrow>
     (session_db, repo_error) result" where
  "session_complete_tx js adm db now i status =
     (if status \<notin> {Failed, Exited} then Inl (IllegalStatusTransition i status)
      else and_then (runtime_current_status_tx db i) (\<lambda>current.
        and_then (ensure_runtime_status_transition i current status) (\<lambda>_.
          session_complete_mirror_tx js adm db i status now)))"

definition session_fail_if_active_tx ::
  "(session_db \<Rightarrow> bool) \<Rightarrow> session_db \<Rightarrow> session_id \<Rightarrow> int \<Rightarrow> (session_db, repo_error) result" where
  "session_fail_if_active_tx adm db i now =
     and_then (update_one SqlMessage adm db i
         (\<lambda>r. r_provider_execution_json r = None \<and> active_state_text (r_state r))
         (\<lambda>r. r\<lparr>r_state := ''failed'',
                r_mcp_token_hash := (if r_contract r = ''assistant'' then None else r_mcp_token_hash r),
                r_updated_at_ms := now, r_completed_at_ms := Some now\<rparr>))
       (\<lambda>(db, _). Inr db)"

definition session_set_harness_observation_tx ::
  "(session_db \<Rightarrow> bool) \<Rightarrow> session_db \<Rightarrow> session_id \<Rightarrow> worker_session_state \<Rightarrow> string option \<Rightarrow> string option \<Rightarrow>
     int \<Rightarrow> (session_db, repo_error) result" where
  "session_set_harness_observation_tx adm db i status thread active_turn now =
     and_then (update_one SqlMessage adm db i
         (\<lambda>r. (r_provider_execution_json r = None \<or> thread = None \<or> r_thread_id r = None \<or>
                r_thread_id r = thread) \<and>
              (r_provider_execution_json r = None \<or>
                session_state_db_str status \<in> {''starting'', ''running'', ''idle'', ''turn_pending'', ''failed''}) \<and>
              active_state_text (r_state r))
         (\<lambda>r. r\<lparr>r_state := session_state_db_str status,
                r_thread_id := (case thread of None \<Rightarrow> r_thread_id r | Some t \<Rightarrow> Some t),
                r_active_turn_id := active_turn, r_updated_at_ms := now\<rparr>))
       (\<lambda>(db, _). Inr db)"

section \<open>Restoring a session\<close>

definition session_restore_failed_carrier_tx ::
  "'j serde \<Rightarrow> (session_db \<Rightarrow> bool) \<Rightarrow> session_db \<Rightarrow> session_id \<Rightarrow> int \<Rightarrow>
     (session_db \<times> 'j worker_session, repo_error) result" where
  "session_restore_failed_carrier_tx js adm db i now =
     and_then (require_hit (Message (''worker session '' @ i
           @ '' is not a failed carrier; cannot restore it to its card''))
         (update_one SqlMessage adm db i
           (\<lambda>r. r_state r = ''failed'' \<and> r_completed_at_ms r = None)
           (\<lambda>r. r\<lparr>r_queue_harvested_at_ms := None, r_updated_at_ms := now\<rparr>)))
       (\<lambda>db. session_get_required_for_runtime_tx js ''while restoring a failed planner carrier'' db i)"

definition session_restore_from_superseded_tx ::
  "'j serde \<Rightarrow> (session_db \<Rightarrow> bool) \<Rightarrow> session_db \<Rightarrow> session_id \<Rightarrow> worker_session_state \<Rightarrow> int \<Rightarrow>
     (session_db \<times> 'j worker_session, repo_error) result" where
  "session_restore_from_superseded_tx js adm db i status now =
     and_then (require_provider_unclaimed_tx db i) (\<lambda>_.
     and_then (update_one SqlMessage adm db i (\<lambda>r. r_state r = ''superseded'')
         (\<lambda>r. r\<lparr>r_state := session_state_db_str status, r_updated_at_ms := now,
                r_completed_at_ms := None, r_queue_harvested_at_ms := None\<rparr>))
       (\<lambda>(db, hit).
         if hit \<or> (\<exists>r\<in>set_option (db_sessions db i). r_state r = session_state_db_str status)
         then session_get_required_for_runtime_tx js ''while restoring old planner harness session'' db i
         else case db_sessions db i of
           Some r \<Rightarrow> Inl (Message (''worker session '' @ i @ '' has state '' @ r_state r
             @ ''; cannot restore old planner harness session to '' @ session_state_db_str status))
         | None \<Rightarrow> Inl (Message (''worker session '' @ i
             @ '' missing while restoring old planner harness session''))))"

section \<open>Single columns\<close>

definition replaces_conversation :: "string option \<Rightarrow> string option \<Rightarrow> session_row \<Rightarrow> bool" where
  "replaces_conversation thread native r \<longleftrightarrow> r_provider_execution_json r \<noteq> None \<and>
     ((r_thread_id r \<noteq> None \<and> r_thread_id r \<noteq> thread) \<or>
      (r_agent_session_id r \<noteq> None \<and> r_agent_session_id r \<noteq> native))"

definition session_bind_attribution_mirror_tx ::
  "(session_db \<Rightarrow> bool) \<Rightarrow> session_db \<Rightarrow> session_id \<Rightarrow> string option \<Rightarrow> string option \<Rightarrow> string option \<Rightarrow> int \<Rightarrow>
     (session_db, repo_error) result" where
  "session_bind_attribution_mirror_tx adm db i thread native active_turn now =
     (if (\<exists>r\<in>set_option (db_sessions db i). replaces_conversation thread native r)
      then Inl (ProviderExecutionRetained i)
      else require_hit (Message (''worker session '' @ i @ '' not found''))
        (update_one SqlMessage adm db i (\<lambda>_. True)
          (\<lambda>r. r\<lparr>r_thread_id := thread, r_agent_session_id := native, r_active_turn_id := active_turn,
                 r_updated_at_ms := now\<rparr>)))"

definition session_clear_terminal_run_id_mirror_tx ::
  "(session_db \<Rightarrow> bool) \<Rightarrow> session_db \<Rightarrow> session_id \<Rightarrow> int \<Rightarrow> (session_db, repo_error) result" where
  "session_clear_terminal_run_id_mirror_tx adm db i now =
     require_hit (Message (''worker session '' @ i @ '' not found''))
       (update_one SqlMessage adm db i (\<lambda>_. True)
         (\<lambda>r. r\<lparr>r_terminal_run_id := None, r_updated_at_ms := now\<rparr>))"

definition session_set_active_turn_mirror_tx ::
  "(session_db \<Rightarrow> bool) \<Rightarrow> session_db \<Rightarrow> session_id \<Rightarrow> string option \<Rightarrow> int \<Rightarrow> (session_db, repo_error) result" where
  "session_set_active_turn_mirror_tx adm db i turn now =
     require_hit (Message (''worker session '' @ i @ '' not found''))
       (update_one SqlMessage adm db i (\<lambda>_. True)
         (\<lambda>r. r\<lparr>r_active_turn_id := turn, r_updated_at_ms := now\<rparr>))"

definition set_handle :: "string option \<Rightarrow> int \<Rightarrow> session_row \<Rightarrow> session_row" where
  "set_handle state_text now r = r\<lparr>r_handle_state_json := state_text, r_updated_at_ms := now\<rparr>"

definition session_set_handle_state_mirror_tx ::
  "(session_db \<Rightarrow> bool) \<Rightarrow> session_db \<Rightarrow> session_id \<Rightarrow> string option \<Rightarrow> int \<Rightarrow>
     (session_db \<times> bool, repo_error) result" where
  "session_set_handle_state_mirror_tx adm db i state_text now =
     update_one SqlMessage adm db i (\<lambda>r. active_state_text (r_state r)) (set_handle state_text now)"

definition session_set_handle_state_of_any_runtime_tx ::
  "'j serde \<Rightarrow> (session_db \<Rightarrow> bool) \<Rightarrow> session_db \<Rightarrow> session_id \<Rightarrow> 'j option \<Rightarrow> int \<Rightarrow>
     (session_db, repo_error) result" where
  "session_set_handle_state_of_any_runtime_tx js adm db i state now =
     and_then (handle_text js state) (\<lambda>state_text.
     and_then (update_one SqlMessage adm db i (\<lambda>_. True) (set_handle state_text now)) (\<lambda>(db, _). Inr db))"

definition session_set_handle_state_of_retired_runtime_tx ::
  "'j serde \<Rightarrow> (session_db \<Rightarrow> bool) \<Rightarrow> session_db \<Rightarrow> session_id \<Rightarrow> 'j option \<Rightarrow> int \<Rightarrow>
     (session_db \<times> bool, repo_error) result" where
  "session_set_handle_state_of_retired_runtime_tx js adm db i state now =
     and_then (handle_text js state) (\<lambda>state_text.
       update_one SqlMessage adm db i (\<lambda>r. \<not> active_state_text (r_state r)) (set_handle state_text now))"

text \<open>A start operation is attached to the current resumable session of a card, and released unsent.\<close>

definition current_resumable :: "session_db \<Rightarrow> card_id \<Rightarrow> session_id \<Rightarrow> session_row \<Rightarrow> bool" where
  "current_resumable db c i r \<longleftrightarrow> r_card_id r = Some c \<and> r_mode r = ''resumable'' \<and>
     active_state_text (r_state r) \<and>
     (\<exists>row\<in>set_option (db_cards db c). cd_session row = Some i \<and> cd_track row = r_track_id r)"

definition session_claim_start_operation_tx ::
  "(session_db \<Rightarrow> bool) \<Rightarrow> session_db \<Rightarrow> card_id \<Rightarrow> session_id \<Rightarrow> string \<Rightarrow>
     (session_db \<times> bool, repo_error) result" where
  "session_claim_start_operation_tx adm db c i op =
     update_one SqlMessage adm db i (\<lambda>r. r_spawn_op_id r = None \<and> current_resumable db c i r)
       (\<lambda>r. r\<lparr>r_spawn_op_id := Some op\<rparr>)"

definition session_release_unstarted_operation_tx ::
  "(session_db \<Rightarrow> bool) \<Rightarrow> session_db \<Rightarrow> card_id \<Rightarrow> session_id \<Rightarrow> string \<Rightarrow>
     (session_db \<times> bool, repo_error) result" where
  "session_release_unstarted_operation_tx adm db c i op =
     update_one SqlMessage adm db i
       (\<lambda>r. r_spawn_op_id r = Some op \<and> r_thread_id r = None \<and> current_resumable db c i r)
       (\<lambda>r. r\<lparr>r_spawn_op_id := None\<rparr>)"

end
