(* ===== verification/Session_Owners.thy ===== *)
theory Session_Owners
  imports Session_Mirror
begin

text \<open>
  The other writers of \<open>worker_sessions\<close>: the claims of provider executions
  (crates/calm-truth/src/db/sqlite/provider\_execution.rs), the recovery of a conversation after a system
  error (session\_system\_error\_recovery.rs), the carrier of a conversation's inputs
  (conversation/carrier.rs), the terminals of workspace executions (workspace\_execution.rs), the server's
  timeout marks (scheduler/) and the revocations of managed ACP sessions (acp\_planner/).

  \<open>sql_json\<close> is what the statements use of the database's JSON functions and \<open>claim_codec\<close> what the code
  uses of serde\_json for a claim; both are parameters.
\<close>

section \<open>Claims of provider executions\<close>

datatype exec_purpose = PTurn string | PCompaction string | PRewindCheck

datatype exec_release = NotRequired | Held | Releasing int | Released int

datatype stop_reason =
    SFinished | SInterrupted | SShutdown | STrackRetired | SKernelRestarted | SDriverLost
  | SReleaseRefused | SSetupFailed | SOutputGap | SStdinTorn

datatype exec_decision = Observing | Stopping stop_reason int

record exec_record =
  ex_execution_id :: string
  ex_purpose :: exec_purpose
  ex_release :: exec_release
  ex_decision :: exec_decision

record exec_claim =
  cl_session :: session_id
  cl_record :: exec_record
  cl_json :: string

record claim_codec =
  claim_to_str :: "exec_record \<Rightarrow> (string, string) result"
  claim_from_str :: "string \<Rightarrow> (exec_record, string) result"

datatype 'a cas = Applied 'a | LostOwnership

definition claim_encode :: "claim_codec \<Rightarrow> session_id \<Rightarrow> exec_record \<Rightarrow> (exec_claim, truth_error) result" where
  "claim_encode codec i ex =
     (case claim_to_str codec ex of
        Inl e \<Rightarrow> Inl (Serde e)
      | Inr json \<Rightarrow> Inr \<lparr>cl_session = i, cl_record = ex, cl_json = json\<rparr>)"

definition claim_decode :: "claim_codec \<Rightarrow> session_id \<Rightarrow> string \<Rightarrow> (exec_claim, truth_error) result" where
  "claim_decode codec i json =
     (case claim_from_str codec json of
        Inl e \<Rightarrow> Inl (Serde e)
      | Inr ex \<Rightarrow> Inr \<lparr>cl_session = i, cl_record = ex, cl_json = json\<rparr>)"

definition claim_load :: "claim_codec \<Rightarrow> session_db \<Rightarrow> session_id \<Rightarrow> (exec_claim option, truth_error) result" where
  "claim_load codec db i =
     (case db_sessions db i of
        None \<Rightarrow> Inl Db
      | Some r \<Rightarrow> (case r_provider_execution_json r of
          None \<Rightarrow> Inr None
        | Some json \<Rightarrow> and_then (claim_decode codec i json) (\<lambda>cl. Inr (Some cl))))"

text \<open>Whether the card of a row points to it.\<close>

definition current_of_card :: "session_db \<Rightarrow> session_id \<Rightarrow> session_row \<Rightarrow> bool" where
  "current_of_card db i r =
     (case r_card_id r of
        None \<Rightarrow> False
      | Some c \<Rightarrow> (case db_cards db c of None \<Rightarrow> False | Some row \<Rightarrow> cd_session row = Some i))"

datatype initial_release = InitialNotRequired | InitialHeld

definition cas_of :: "'a \<Rightarrow> (session_db \<times> bool, truth_error) result \<Rightarrow> (session_db \<times> 'a cas, truth_error) result" where
  "cas_of a r = and_then r (\<lambda>(db, hit). Inr (db, if hit then Applied a else LostOwnership))"

definition admit_execution ::
  "claim_codec \<Rightarrow> (session_db \<Rightarrow> bool) \<Rightarrow> session_db \<Rightarrow> session_id \<Rightarrow> string \<Rightarrow> exec_purpose \<Rightarrow> initial_release \<Rightarrow>
     (session_db \<times> exec_claim cas, truth_error) result" where
  "admit_execution codec adm db i execution why initial =
     (if (\<exists>r\<in>set_option (db_sessions db i). r_terminal_run_id r \<noteq> None)
      then Inl (Conflict ''terminal-bound session cannot hold a provider execution'')
      else and_then (claim_encode codec i
          \<lparr>ex_execution_id = execution, ex_purpose = why,
           ex_release = (case initial of InitialNotRequired \<Rightarrow> NotRequired | InitialHeld \<Rightarrow> Held),
           ex_decision = Observing\<rparr>)
        (\<lambda>cl. cas_of cl (update_one Db adm db i
           (\<lambda>r. r_provider_execution_json r = None \<and>
                (active_state_text (r_state r) \<or> r_state r = ''failed'') \<and> current_of_card db i r)
           (\<lambda>r. r\<lparr>r_provider_execution_json := Some (cl_json cl)\<rparr>))))"

definition compare_exchange ::
  "(session_db \<Rightarrow> bool) \<Rightarrow> session_db \<Rightarrow> session_id \<Rightarrow> exec_claim \<Rightarrow> string option \<Rightarrow>
     (session_db \<times> unit cas, truth_error) result" where
  "compare_exchange adm db i expected next_json =
     cas_of () (update_one Db adm db i (\<lambda>r. r_provider_execution_json r = Some (cl_json expected))
       (\<lambda>r. r\<lparr>r_provider_execution_json := next_json\<rparr>))"

definition replace_claim ::
  "claim_codec \<Rightarrow> (session_db \<Rightarrow> bool) \<Rightarrow> session_db \<Rightarrow> session_id \<Rightarrow> exec_claim \<Rightarrow> exec_record \<Rightarrow>
     (session_db \<times> exec_claim cas, truth_error) result" where
  "replace_claim codec adm db i expected ex =
     and_then (claim_encode codec i ex) (\<lambda>new.
     and_then (compare_exchange adm db i expected (Some (cl_json new))) (\<lambda>(db, c).
       Inr (db, case c of Applied _ \<Rightarrow> Applied new | LostOwnership \<Rightarrow> LostOwnership)))"

definition advance_release ::
  "claim_codec \<Rightarrow> (session_db \<Rightarrow> bool) \<Rightarrow> session_db \<Rightarrow> session_id \<Rightarrow> exec_claim \<Rightarrow> int \<Rightarrow>
     (session_db \<times> exec_claim cas, truth_error) result" where
  "advance_release codec adm db i expected authorized_at =
     (let ex = cl_record expected in
      case ex_release ex of
        Held \<Rightarrow> replace_claim codec adm db i expected (ex\<lparr>ex_release := Releasing authorized_at\<rparr>)
      | Releasing at \<Rightarrow>
          if at = authorized_at
          then replace_claim codec adm db i expected (ex\<lparr>ex_release := Released at\<rparr>)
          else Inl (BadRequest ''invalid provider release transition'')
      | _ \<Rightarrow> Inl (BadRequest ''invalid provider release transition''))"

definition stop_execution ::
  "claim_codec \<Rightarrow> (session_db \<Rightarrow> bool) \<Rightarrow> session_db \<Rightarrow> session_id \<Rightarrow> exec_claim \<Rightarrow> stop_reason \<Rightarrow> int \<Rightarrow>
     (session_db \<times> exec_claim cas, truth_error) result" where
  "stop_execution codec adm db i expected reason at =
     (if ex_decision (cl_record expected) \<noteq> Observing
      then Inl (BadRequest ''provider execution is already stopping'')
      else replace_claim codec adm db i expected ((cl_record expected)\<lparr>ex_decision := Stopping reason at\<rparr>))"

definition clear_on_completion ::
  "(session_db \<Rightarrow> bool) \<Rightarrow> session_db \<Rightarrow> session_id \<Rightarrow> exec_claim \<Rightarrow> (session_db \<times> unit cas, truth_error) result" where
  "clear_on_completion adm db i expected = compare_exchange adm db i expected None"

definition revoke_credential_for_execution ::
  "claim_codec \<Rightarrow> (session_db \<Rightarrow> bool) \<Rightarrow> session_db \<Rightarrow> session_id \<Rightarrow> string \<Rightarrow>
     (session_db \<times> bool, truth_error) result" where
  "revoke_credential_for_execution codec adm db i execution =
     and_then (claim_load codec db i) (\<lambda>found.
       case found of
         Some current \<Rightarrow>
           if ex_execution_id (cl_record current) = execution
           then update_one Db adm db i (\<lambda>r. r_provider_execution_json r = Some (cl_json current))
                  (\<lambda>r. r\<lparr>r_mcp_token_hash := None\<rparr>)
           else Inr (db, False)
       | None \<Rightarrow> Inr (db, False))"

section \<open>Recovery after a system error\<close>

datatype sql_value = SqlText string | SqlInt int | SqlJson string

record sql_json =
  json_extract :: "string \<Rightarrow> string \<Rightarrow> sql_value option"
  json_set :: "string \<Rightarrow> (string \<times> sql_value option) list \<Rightarrow> string"
  json_remove :: "string \<Rightarrow> string \<Rightarrow> string"

definition sql_trim :: "string \<Rightarrow> string" where
  "sql_trim v = rev (dropWhile (\<lambda>c. c = CHR '' '') (rev (dropWhile (\<lambda>c. c = CHR '' '') v)))"

text \<open>The thread a failed conversation continues: the row's, or else its snapshot's.\<close>

definition recovery_thread :: "sql_json \<Rightarrow> session_row \<Rightarrow> string \<Rightarrow> sql_value option" where
  "recovery_thread sj r handle =
     (case r_thread_id r of
        Some t \<Rightarrow> if sql_trim t = '''' then json_extract sj handle ''$.last_thread_id''
                  else Some (SqlText (sql_trim t))
      | None \<Rightarrow> json_extract sj handle ''$.last_thread_id'')"

definition wedged_by_system_error :: "sql_json \<Rightarrow> string \<Rightarrow> bool" where
  "wedged_by_system_error sj handle \<longleftrightarrow>
     json_extract sj handle ''$.mode'' = Some (SqlText ''harness'') \<and>
     json_extract sj handle ''$.phase'' = Some (SqlText ''wedged'') \<and>
     json_extract sj handle ''$.wedged_reason'' = Some (SqlText ''system_error'')"

definition recoverable_role :: "sql_json \<Rightarrow> card_row \<Rightarrow> track_row \<Rightarrow> session_row \<Rightarrow> bool" where
  "recoverable_role sj cr track r \<longleftrightarrow>
     cd_role cr = ''planner'' \<and> r_contract r = ''planner'' \<and> tk_purpose track \<noteq> Some ''area-chat'' \<or>
     cd_role cr = ''assistant'' \<and> r_contract r = ''assistant'' \<and>
       json_extract sj (cd_payload cr) ''$.assistant_provider'' = Some (SqlText ''codex'') \<and>
       json_extract sj (cd_payload cr) ''$.harness_profile'' = Some (SqlText ''assistant'') \<or>
     cd_role cr = ''worker'' \<and> r_contract r = ''executor'' \<and>
       json_extract sj (cd_payload cr) ''$.harness_profile'' = Some (SqlText ''plain_chat'')"

definition recovery_row ::
  "sql_json \<Rightarrow> session_db \<Rightarrow> card_id \<Rightarrow> session_id \<Rightarrow> string \<Rightarrow> string option" where
  "recovery_row sj db c i thread =
     (case (db_sessions db i, db_cards db c) of
        (Some r, Some cr) \<Rightarrow>
          (case (db_tracks db (cd_track cr), r_handle_state_json r) of
             (Some track, Some handle) \<Rightarrow>
               if cd_session cr = Some i \<and> r_card_id r = Some c \<and> r_track_id r = cd_track cr \<and>
                  r_provider r = ''codex'' \<and> r_state r = ''failed'' \<and> r_completed_at_ms r = None \<and>
                  r_queue_harvested_at_ms r = None \<and> r_terminal_run_id r = None \<and>
                  r_active_turn_id r = None \<and> tk_closed_at track = None \<and> cd_kind cr = ''codex'' \<and>
                  recoverable_role sj cr track r \<and> wedged_by_system_error sj handle \<and>
                  json_extract sj handle ''$.schema_version'' = Some (SqlInt 1) \<and>
                  recovery_thread sj r handle = Some (SqlText thread) \<and>
                  json_extract sj handle ''$.last_thread_id'' \<in> {None, Some (SqlText thread)}
               then Some handle else None
           | _ \<Rightarrow> None)
      | _ \<Rightarrow> None)"

definition recovery_matches ::
  "'j serde \<Rightarrow> sql_json \<Rightarrow> session_db \<Rightarrow> card_id \<Rightarrow> session_id \<Rightarrow> string \<Rightarrow> 'j \<Rightarrow> (bool, truth_error) result" where
  "recovery_matches js sj db c i thread snapshot =
     and_then (json_opt (from_str js) (recovery_row sj db c i thread)) (\<lambda>found. Inr (found = Some snapshot))"

definition session_resume_system_error_tx ::
  "'j serde \<Rightarrow> sql_json \<Rightarrow> (session_db \<Rightarrow> bool) \<Rightarrow> session_db \<Rightarrow> int \<Rightarrow> card_id \<Rightarrow> session_id \<Rightarrow> string \<Rightarrow> 'j \<Rightarrow>
     (session_db \<times> bool, truth_error) result" where
  "session_resume_system_error_tx js sj adm db now c i thread snapshot =
     and_then (recovery_matches js sj db c i thread snapshot) (\<lambda>ok.
       if \<not> ok then Inr (db, False)
       else update_one Db adm db i (\<lambda>r. r_state r = ''failed'')
         (\<lambda>r. r\<lparr>r_state := ''idle'', r_thread_id := Some thread,
                r_handle_state_json := map_option (\<lambda>h. json_set sj h
                  [(''$.phase'', Some (SqlText ''idle'')), (''$.wedged_reason'', None)]) (r_handle_state_json r),
                r_updated_at_ms := now\<rparr>))"

definition session_set_failed_harness_snapshot_tx ::
  "'j serde \<Rightarrow> sql_json \<Rightarrow> (session_db \<Rightarrow> bool) \<Rightarrow> session_db \<Rightarrow> int \<Rightarrow> card_id \<Rightarrow> session_id \<Rightarrow> 'j \<Rightarrow>
     (session_db \<times> bool, truth_error) result" where
  "session_set_failed_harness_snapshot_tx js sj adm db now c i snapshot =
     (case to_str js snapshot of
        Inl e \<Rightarrow> Inl (Serde e)
      | Inr json \<Rightarrow> update_one Db adm db i
          (\<lambda>r. r_card_id r = Some c \<and> r_state r = ''failed'' \<and> r_completed_at_ms r = None \<and>
               r_queue_harvested_at_ms r = None \<and> current_of_card db i r \<and>
               (case r_handle_state_json r of None \<Rightarrow> False | Some h \<Rightarrow> wedged_by_system_error sj h))
          (set_handle (Some json) now))"

section \<open>Carriers of a conversation's inputs\<close>

text \<open>A carrier names its card, its session and the snapshot it was last saved with.\<close>

record input_carrier =
  ca_card_id :: card_id
  ca_worker_session_id :: session_id
  ca_original_snapshot :: string

definition carrier_row :: "session_db \<Rightarrow> input_carrier \<Rightarrow> session_row \<Rightarrow> bool" where
  "carrier_row db ca r \<longleftrightarrow> r_card_id r = Some (ca_card_id ca) \<and> r_state r = ''failed'' \<and>
     r_handle_state_json r = Some (ca_original_snapshot ca) \<and>
     (\<exists>cr\<in>set_option (db_cards db (ca_card_id ca)).
        cd_session cr = Some (ca_worker_session_id ca) \<and> cd_track cr = r_track_id r)"

definition restore_interrupt_timeout_carrier_tx ::
  "(session_db \<Rightarrow> bool) \<Rightarrow> session_db \<Rightarrow> int \<Rightarrow> input_carrier \<Rightarrow> (session_db, truth_error) result" where
  "restore_interrupt_timeout_carrier_tx adm db now ca =
     require_hit (Conflict ''interrupt_timeout carrier is no longer the restorable failed carrier'')
       (update_one Db adm db (ca_worker_session_id ca)
         (\<lambda>r. carrier_row db ca r \<and> r_completed_at_ms r = None)
         (\<lambda>r. r\<lparr>r_state := ''idle'', r_active_turn_id := None, r_updated_at_ms := now\<rparr>))"

definition complete_failed_carrier_observation_tx ::
  "(session_db \<Rightarrow> bool) \<Rightarrow> session_db \<Rightarrow> int \<Rightarrow> input_carrier \<Rightarrow> string \<Rightarrow> string \<Rightarrow> (session_db, truth_error) result" where
  "complete_failed_carrier_observation_tx adm db now ca thread turn =
     require_hit (Conflict ''failed END observation no longer names its current carrier'')
       (update_one Db adm db (ca_worker_session_id ca)
         (\<lambda>r. carrier_row db ca r \<and> r_thread_id r = Some thread \<and>
              r_active_turn_id r \<in> {None, Some turn})
         (\<lambda>r. r\<lparr>r_active_turn_id := None, r_updated_at_ms := now\<rparr>))"

section \<open>Terminals of workspace executions\<close>

definition bound_to_alias :: "session_db \<Rightarrow> string \<Rightarrow> session_row \<Rightarrow> bool" where
  "bound_to_alias db alias r =
     (case r_terminal_run_id r of
        None \<Rightarrow> False
      | Some k \<Rightarrow> k \<in> dom (db_terminals db) \<and> ''term:'' @ k = alias)"

definition terminal_spawned_tx ::
  "(session_db \<Rightarrow> bool) \<Rightarrow> session_db \<Rightarrow> string \<Rightarrow> int \<Rightarrow> (session_db, truth_error) result" where
  "terminal_spawned_tx adm db alias at =
     update_where Db adm db (\<lambda>_ r. r_state r = ''starting'' \<and> bound_to_alias db alias r)
       (\<lambda>r. r\<lparr>r_state := ''running'', r_updated_at_ms := at\<rparr>)"

definition terminal_settled_tx ::
  "(session_db \<Rightarrow> bool) \<Rightarrow> session_db \<Rightarrow> string \<Rightarrow> int option \<Rightarrow> int \<Rightarrow> (session_db, truth_error) result" where
  "terminal_settled_tx adm db alias code at =
     and_then (sql_run Db adm (db\<lparr>db_terminals := (\<lambda>k. map_option
         (\<lambda>row. if ''term:'' @ k = alias then \<lparr>tm_exit_code = code, tm_signal_killed = (code = None)\<rparr> else row)
         (db_terminals db k))\<rparr>)) (\<lambda>db.
       update_where Db adm db (\<lambda>_ r. active_state_text (r_state r) \<and> bound_to_alias db alias r)
         (\<lambda>r. r\<lparr>r_state := ''exited'', r_updated_at_ms := at, r_completed_at_ms := Some at\<rparr>))"

section \<open>The server's own statements\<close>

text \<open>
  The mark the scheduler leaves on a card's live sessions when their task timed out, and its removal;
  \<open>marker\<close> is the mark printed. What the scheduler then does with the task's lease is not part of the
  table.
\<close>

definition mark_running_timeout_cleanup_rows ::
  "sql_json \<Rightarrow> (session_db \<Rightarrow> bool) \<Rightarrow> session_db \<Rightarrow> card_id \<Rightarrow> string \<Rightarrow> int \<Rightarrow> (session_db, truth_error) result" where
  "mark_running_timeout_cleanup_rows sj adm db c marker now =
     update_where Db adm db (\<lambda>_ r. r_card_id r = Some c \<and> active_state_text (r_state r))
       (\<lambda>r. set_handle (Some (json_set sj (case r_handle_state_json r of None \<Rightarrow> ''{}'' | Some h \<Rightarrow> h)
              [(''$.timeout_cleanup'', Some (SqlJson marker))])) now r)"

definition clear_timeout_cleanup_row ::
  "sql_json \<Rightarrow> (session_db \<Rightarrow> bool) \<Rightarrow> session_db \<Rightarrow> session_id \<Rightarrow> card_id \<Rightarrow> string \<Rightarrow> int \<Rightarrow>
     (session_db \<times> bool, truth_error) result" where
  "clear_timeout_cleanup_row sj adm db i c marker now =
     update_one Db adm db i
       (\<lambda>r. r_card_id r = Some c \<and>
            (\<exists>h\<in>set_option (r_handle_state_json r).
               json_extract sj h ''$.timeout_cleanup'' = Some (SqlText marker)))
       (\<lambda>r. set_handle (map_option (\<lambda>h. json_remove sj h ''$.timeout_cleanup'') (r_handle_state_json r)) now r)"

definition revoke_owned_tx ::
  "(session_db \<Rightarrow> bool) \<Rightarrow> session_db \<Rightarrow> track_id option \<Rightarrow> (session_db, truth_error) result" where
  "revoke_owned_tx adm db track =
     update_where Db adm db
       (\<lambda>i r. i \<in> db_acp db \<and> (case track of None \<Rightarrow> True | Some t \<Rightarrow> r_track_id r = t))
       (\<lambda>r. r\<lparr>r_mcp_token_hash := None\<rparr>)"

definition revoke_worker ::
  "(session_db \<Rightarrow> bool) \<Rightarrow> session_db \<Rightarrow> session_id \<Rightarrow> (session_db, truth_error) result" where
  "revoke_worker adm db i =
     and_then (update_one Db adm db i (\<lambda>_. True) (\<lambda>r. r\<lparr>r_mcp_token_hash := None\<rparr>)) (\<lambda>(db, _). Inr db)"

text \<open>
  At open, a snapshot of an earlier schema version is rewritten as \<open>encoded\<close>, the same snapshot in the
  current one, if the row still holds the text that was read.
\<close>

definition rewrite_canonical_snapshot ::
  "(session_db \<Rightarrow> bool) \<Rightarrow> session_db \<Rightarrow> session_id \<Rightarrow> string \<Rightarrow> string \<Rightarrow> (session_db, truth_error) result" where
  "rewrite_canonical_snapshot adm db i raw encoded =
     and_then (update_one Db adm db i (\<lambda>r. r_handle_state_json r = Some raw)
       (\<lambda>r. r\<lparr>r_handle_state_json := Some encoded\<rparr>)) (\<lambda>(db, _). Inr db)"

end
