(* ===== verification/Session_Lifecycle.thy ===== *)
theory Session_Lifecycle
  imports Session_Owners
begin

text \<open>
  What the writers of the \<open>worker_sessions\<close> table keep. \<open>session_step\<close> is one successful operation of
  Session\_Store, Session\_Mirror or Session\_Owners, labelled by what it may do beyond an ordinary
  update: bring a session back, or remove rows. Between two removals a row keeps its identity; a session
  that ended stays ended, unless it is brought back; and a session that holds the claim of a provider
  execution is bound to no terminal and is neither exited nor superseded. Inserting a session and reading
  it back is a round trip.
\<close>

section \<open>What an operation does to a row\<close>

definition same_identity :: "session_row \<Rightarrow> session_row \<Rightarrow> bool" where
  "same_identity r r' \<longleftrightarrow>
     r_id r' = r_id r \<and> r_track_id r' = r_track_id r \<and> r_provider r' = r_provider r \<and>
     r_mode r' = r_mode r \<and> r_contract r' = r_contract r \<and> r_card_id r' = r_card_id r \<and>
     r_parent_session_id r' = r_parent_session_id r \<and>
     r_requester_session_id r' = r_requester_session_id r"

definition ended :: "session_row \<Rightarrow> bool" where
  "ended r \<longleftrightarrow> r_state r \<in> {''exited'', ''failed'', ''superseded''}"

definition end_kept :: "session_row \<Rightarrow> session_row \<Rightarrow> bool" where
  "end_kept r r' \<longleftrightarrow> (ended r \<longrightarrow> r_state r' = r_state r \<or> r_state r' = ''superseded'')"

definition claim_ok :: "session_row \<Rightarrow> bool" where
  "claim_ok r \<longleftrightarrow> r_provider_execution_json r = None \<or>
     r_terminal_run_id r = None \<and> r_state r \<noteq> ''exited'' \<and> r_state r \<noteq> ''superseded''"

definition row_step :: "bool \<Rightarrow> session_row \<Rightarrow> session_row \<Rightarrow> bool" where
  "row_step revived r r' \<longleftrightarrow>
     same_identity r r' \<and> (revived \<or> end_kept r r') \<and> (claim_ok r \<longrightarrow> claim_ok r')"

datatype session_label = Updated | Revived session_id | Removed "session_id set"

fun removes :: "session_label \<Rightarrow> session_id \<Rightarrow> bool" where
  "removes (Removed S) i \<longleftrightarrow> i \<in> S"
| "removes _ i \<longleftrightarrow> False"

definition table_step :: "session_label \<Rightarrow> session_table \<Rightarrow> session_table \<Rightarrow> bool" where
  "table_step l t t' \<longleftrightarrow> (\<forall>i r. t i = Some r \<longrightarrow> \<not> removes l i \<longrightarrow>
     (\<exists>r'. t' i = Some r' \<and> row_step (l = Revived i) r r'))"

abbreviation rows_step :: "session_label \<Rightarrow> session_db \<Rightarrow> session_db \<Rightarrow> bool" where
  "rows_step l db db' \<equiv> table_step l (db_sessions db) (db_sessions db')"

lemmas row_step_defs = row_step_def same_identity_def end_kept_def

lemma row_step_refl [simp]: "row_step b r r"
  by (simp add: row_step_defs)

lemma row_step_trans: "row_step b r r1 \<Longrightarrow> row_step b r1 r2 \<Longrightarrow> row_step b r r2"
  unfolding row_step_defs ended_def by auto

lemma row_step_weaken: "row_step False r r' \<Longrightarrow> row_step b r r'"
  by (simp add: row_step_def)

lemma table_step_refl [simp]: "table_step l t t"
  by (simp add: table_step_def)

lemma table_step_trans: "table_step l a b \<Longrightarrow> table_step l b c \<Longrightarrow> table_step l a c"
  unfolding table_step_def using row_step_trans by (metis (no_types, lifting))

lemma table_step_weaken: "table_step Updated t t' \<Longrightarrow> table_step l t t'"
  unfolding table_step_def using row_step_weaken by (metis removes.simps(2) session_label.distinct(1))

lemma table_step_upd: "t i = Some r \<Longrightarrow> row_step (l = Revived i) r r' \<Longrightarrow> table_step l t (t(i \<mapsto> r'))"
  by (auto simp: table_step_def)

lemma table_step_new: "t i = None \<Longrightarrow> table_step l t (t(i \<mapsto> r'))"
  by (auto simp: table_step_def)

section \<open>Operations of the store\<close>

lemma sql_write_Inr [simp]: "sql_write admit t = Inr t' \<longleftrightarrow> admit t \<and> t' = t"
  by (auto simp: sql_write_def)

lemma reread_table: "reread js what t i = Inr (t', w) \<Longrightarrow> t' = t"
  by (auto simp: reread_def and_then_Inr split: option.splits)

lemma worker_session_parse_Inr [simp]: "worker_session_parse column r = Inr a \<longleftrightarrow> r = Inr a"
  by (cases r) (auto simp: worker_session_parse_def)

lemma active_not_ended: "active_state_text (r_state r) \<Longrightarrow> \<not> ended r"
  by (auto simp: active_state_text_def ended_def)

lemma active_db_str: "active_state_text (session_state_db_str st) \<longleftrightarrow> is_active_authority st"
  by (cases st) (simp_all add: active_state_text_def)

lemma current_state_Inr:
  "worker_session_current_state_tx t i = Inr st \<longleftrightarrow>
     (\<exists>row. t i = Some row \<and> r_state row = session_state_db_str st)"
  by (auto simp: worker_session_current_state_tx_def state_column.decode_iff split: option.splits)

lemma update_in_state_Inr:
  "update_in_state admit what t i st f = Inr t' \<longleftrightarrow>
     (\<exists>row. t i = Some row \<and> r_state row = session_state_db_str st \<and> admit t' \<and> t' = t(i \<mapsto> f row))"
  by (auto simp: update_in_state_def split: option.splits)

text \<open>An update of an active row that keeps its identity, its claim and its terminal.\<close>

lemma active_row_step:
  assumes "active_state_text (r_state r)" and "same_identity r r'"
    and "r_provider_execution_json r' = r_provider_execution_json r"
    and "r_terminal_run_id r' = r_terminal_run_id r"
    and "r_provider_execution_json r = None \<or> r_state r' \<noteq> ''exited'' \<and> r_state r' \<noteq> ''superseded''"
  shows "row_step b r r'"
  using assms active_not_ended [OF assms(1)] by (auto simp: row_step_def end_kept_def claim_ok_def)

lemma unclaimed_row:
  "require_unclaimed t i = Inr () \<Longrightarrow> t i = Some row \<Longrightarrow> r_provider_execution_json row = None"
  by (simp add: require_unclaimed_def split: if_splits)

lemma guarded_update:
  assumes upd: "update_in_state admit what t i st f = Inr t'"
    and allowed: "worker_session_status_transition_allowed st to"
    and f: "\<And>row. same_identity row (f row)" "\<And>row. r_state (f row) = session_state_db_str to"
      "\<And>row. r_provider_execution_json (f row) = r_provider_execution_json row"
      "\<And>row. r_terminal_run_id (f row) = r_terminal_run_id row"
    and unclaimed: "is_terminal to \<Longrightarrow> require_unclaimed t i = Inr ()"
  shows "table_step l t t'"
proof -
  obtain row where row: "t i = Some row" "r_state row = session_state_db_str st"
      and t': "t' = t(i \<mapsto> f row)"
    using upd by (auto simp: update_in_state_Inr)
  have "active_state_text (r_state row)"
    using transition_from_active [OF allowed] row(2) by (simp add: active_db_str)
  moreover have "r_provider_execution_json row = None \<or>
      r_state (f row) \<noteq> ''exited'' \<and> r_state (f row) \<noteq> ''superseded''"
    using unclaimed unclaimed_row [of t i row] row(1) f(2) [of row] by (cases to) auto
  ultimately have "row_step b row (f row)" for b by (simp add: active_row_step f)
  then show ?thesis using row(1) t' by (simp add: table_step_upd)
qed

lemma transition_row_fields:
  "same_identity row (transition_row to now completed row)"
  "r_state (transition_row to now completed row) = session_state_db_str to"
  "r_provider_execution_json (transition_row to now completed row) = r_provider_execution_json row"
  "r_terminal_run_id (transition_row to now completed row) = r_terminal_run_id row"
  by (simp_all add: same_identity_def transition_row_def)

lemma exit_row_fields:
  "same_identity row (exit_row to at code interp row)"
  "r_state (exit_row to at code interp row) = session_state_db_str to"
  "r_provider_execution_json (exit_row to at code interp row) = r_provider_execution_json row"
  "r_terminal_run_id (exit_row to at code interp row) = r_terminal_run_id row"
  by (simp_all add: same_identity_def exit_row_def)

lemma insert_rows: "session_insert_tx js admit t s = Inr (t', w) \<Longrightarrow> table_step l t t'"
  by (auto simp: session_insert_tx_def and_then_Inr dom_def dest!: reread_table intro!: table_step_new
      split: if_splits)

lemma liveness_rows: "session_set_liveness_tx js admit t i tag at = Inr (t', w) \<Longrightarrow> table_step l t t'"
  by (auto simp: session_set_liveness_tx_def and_then_Inr row_step_defs claim_ok_def dest!: reread_table
      intro!: table_step_upd split: option.splits if_splits)

lemma activity_rows: "session_record_activity_tx admit t i at status = Inr t' \<Longrightarrow> table_step l t t'"
  by (auto simp: session_record_activity_tx_def row_step_defs claim_ok_def intro!: table_step_upd
      split: option.splits if_splits)

lemma thread_rows:
  "session_record_activity_by_thread_tx admit backends t thread at status d backend = Inr t' \<Longrightarrow>
     table_step l t t'"
  by (auto simp: session_record_activity_by_thread_tx_def table_step_def row_step_defs claim_ok_def)

lemma transition_at_rows:
  assumes "session_state_transition_at_tx js admit t i to now completed = Inr (t', w)"
  shows "table_step l t t'"
proof -
  obtain st t1 where "worker_session_status_transition_allowed st to"
      and upd: "update_in_state admit ''state transition'' t i st (transition_row to now completed) = Inr t1"
      and "is_terminal to \<Longrightarrow> require_unclaimed t i = Inr ()"
      and "reread js ''transition'' t1 i = Inr (t', w)"
    using assms by (auto simp: session_state_transition_at_tx_def and_then_Inr split: if_splits)
  then show ?thesis
    using guarded_update [OF upd, of to] transition_row_fields by (metis reread_table)
qed

lemma exit_rows:
  assumes "session_commit_exit_tx js admit t i to at code interp = Inr (t', w)"
  shows "table_step l t t'"
proof -
  obtain st t1 where "worker_session_status_transition_allowed st to"
      and upd: "update_in_state admit ''exit commit'' t i st (exit_row to at code interp) = Inr t1"
      and "require_unclaimed t i = Inr ()" and "reread js ''exit commit'' t1 i = Inr (t', w)"
    using assms by (auto simp: session_commit_exit_tx_def and_then_Inr split: if_splits)
  then show ?thesis
    using guarded_update [OF upd, of to] exit_row_fields by (metis reread_table)
qed

section \<open>Statements\<close>

lemma sql_run_Inr [simp]: "sql_run e adm db = Inr db' \<longleftrightarrow> adm db \<and> db' = db"
  by (auto simp: sql_run_def)

lemma update_one_rows:
  assumes "update_one e adm db i P f = Inr (db', hit)"
    and "\<And>r. db_sessions db i = Some r \<Longrightarrow> P r \<Longrightarrow> row_step (l = Revived i) r (f r)"
  shows "rows_step l db db'"
  using assms
  by (auto simp: update_one_def and_then_Inr intro: table_step_upd split: option.splits if_splits)

lemma update_where_rows:
  assumes "update_where e adm db P f = Inr db'"
    and "\<And>i r. db_sessions db i = Some r \<Longrightarrow> P i r \<Longrightarrow> row_step False r (f r)"
  shows "rows_step l db db'"
  using assms by (auto simp: update_where_def table_step_def intro: row_step_weaken)

lemma require_hit_Inr: "require_hit e x = Inr db \<longleftrightarrow> x = Inr (db, True)"
  by (cases x) (auto simp: require_hit_def split: if_splits)

lemma runtime_session_error_Inr [simp]: "runtime_session_error x = Inr a \<longleftrightarrow> x = Inr a"
  by (cases x) (auto simp: runtime_session_error_def)

lemma cas_of_Inr: "cas_of a x = Inr (db, c) \<Longrightarrow> \<exists>hit. x = Inr (db, hit)"
  by (cases x) (auto simp: cas_of_def)

lemma require_provider_unclaimed_Inr:
  "require_provider_unclaimed_tx db i = Inr () \<longleftrightarrow>
     (\<forall>r. db_sessions db i = Some r \<longrightarrow> r_provider_execution_json r = None)"
  by (auto simp: require_provider_unclaimed_tx_def split: option.splits)

lemma clear_session_rows: "clear_session_tx e adm db i = Inr db' \<Longrightarrow> rows_step l db db'"
  by (auto simp: clear_session_tx_def)

lemma get_required_db:
  "session_get_required_for_runtime_tx js what db i = Inr (db', w) \<Longrightarrow> db' = db"
  by (auto simp: session_get_required_for_runtime_tx_def and_then_Inr split: option.splits)

lemma delete_rows: "delete_sessions e adm db gone = Inr db' \<Longrightarrow> rows_step (Removed {i. gone i}) db db'"
  by (auto simp: delete_sessions_def and_then_Inr table_step_def remove_rows_def clear_track_roots_def)

lemma on_sessions_rows:
  assumes "on_sessions adm db operation = Inr (db', a)"
    and "\<And>admit t'. operation admit (db_sessions db) = Inr (t', a) \<Longrightarrow> table_step l (db_sessions db) t'"
  shows "rows_step l db db'"
  using assms by (auto simp: on_sessions_def and_then_Inr)

section \<open>Operations of the mirror\<close>

lemmas column_defs = row_step_defs claim_ok_def ended_def

lemma token_set_rows:
  "session_mcp_token_set_tx adm db i h = Inr db' \<Longrightarrow> rows_step l db db'"
  "session_mcp_token_set_if_active_tx adm db i h = Inr db' \<Longrightarrow> rows_step l db db'"
  unfolding session_mcp_token_set_tx_def session_mcp_token_set_if_active_tx_def require_hit_Inr
  by (erule update_one_rows, simp add: column_defs)+

lemma revoke_rows:
  "claude_planner_revoke_tx adm db scope = Inr db' \<Longrightarrow> rows_step l db db'"
  "revoke_card_credentials_tx adm db c = Inr db' \<Longrightarrow> rows_step l db db'"
  unfolding claude_planner_revoke_tx_def revoke_card_credentials_tx_def
  by (auto simp: and_then_Inr update_where_def table_step_def column_defs)

lemma repoint_rows:
  assumes "session_repoint_current_links_tx adm db c s = Inr db'"
  shows "rows_step l db db'"
proof -
  obtain db1 db2 where "session_mirror_card_mcp_token_tx adm db c s = Inr db1"
      and 2: "(if ws_contract s = CtPlanner \<and> is_active_authority (ws_state s)
        then runtime_session_error (session_mark_track_root_tx adm db1 (ws_track_id s) (ws_id s))
        else Inr db1) = Inr db2"
      and 3: "card_session_link_tx adm db2 c (ws_id s) = Inr db'"
    using assms by (auto simp: session_repoint_current_links_tx_def and_then_Inr)
  then have "rows_step l db db1"
    by (auto simp: session_mirror_card_mcp_token_tx_def intro: token_set_rows split: if_splits option.splits)
  moreover have "db_sessions db2 = db_sessions db1"
    using 2 by (auto simp: session_mark_track_root_tx_def split: if_splits option.splits)
  moreover have "db_sessions db' = db_sessions db2"
    using 3 by (auto simp: card_session_link_tx_def and_then_Inr split: if_splits option.splits)
  ultimately show ?thesis by simp
qed

text \<open>Taking over a placeholder may bring a superseded session back.\<close>

lemma refresh_rows:
  assumes "session_refresh_deferred_placeholder_tx js adm db existing desired = Inr (db', w)"
  shows "rows_step (Revived (ws_id desired)) db db'"
proof -
  obtain handle db1 where unclaimed: "require_provider_unclaimed_tx db (ws_id desired) = Inr ()"
      and upd: "update_one SqlMessage adm db (ws_id desired)
               (\<lambda>r. r_contract r = contract_db_str (ws_contract desired) \<and>
                    ws_card_id desired \<noteq> None \<and> r_card_id r = ws_card_id desired \<and>
                    r_state r \<in> {''starting'', ''superseded''})
               (refreshed_row desired handle) = Inr (db1, True)"
      and "db' = db1"
    using assms
    by (auto simp: session_refresh_deferred_placeholder_tx_def and_then_Inr require_hit_Inr
        dest: get_required_db split: if_splits)
  have "row_step True r (refreshed_row desired handle r)" if "r_provider_execution_json r = None" for r
    using that by (simp add: row_step_def same_identity_def claim_ok_def refreshed_row_def)
  then show ?thesis
    unfolding \<open>db' = db1\<close> using unclaimed
    by (intro update_one_rows [OF upd]) (simp add: require_provider_unclaimed_Inr)
qed

lemma insert_or_refresh_rows:
  assumes "session_insert_or_refresh_start_mirror_tx js adm db s = Inr (db', w)"
  shows "rows_step (Revived (ws_id s)) db db'"
  using assms
  by (auto simp: session_insert_or_refresh_start_mirror_tx_def and_then_Inr
      intro: refresh_rows elim!: on_sessions_rows dest: insert_rows split: option.splits)

lemma from_init_id: "worker_session_from_runtime_init ini track = Inr s \<Longrightarrow> ws_id s = in_id ini"
  by (auto simp: worker_session_from_runtime_init_def and_then_Inr)

lemma start_mirror_rows:
  assumes "session_start_mirror_tx js adm db ini = Inr (db', w)"
  shows "rows_step (Revived (in_id ini)) db db'"
  using assms unfolding session_start_mirror_tx_def and_then_Inr
  by (auto simp: and_then_Inr dest!: insert_or_refresh_rows repoint_rows [where l = "Revived (in_id ini)"]
      from_init_id intro: table_step_trans)

lemma superseded_row_step:
  "r_provider_execution_json r = None \<Longrightarrow> row_step b r (superseded_row now r)"
  by (simp add: superseded_row_def row_step_defs claim_ok_def)

lemma supersede_rows:
  assumes "supersede_for_lifecycle_tx adm db i now abandoned = Inr db'"
  shows "rows_step l db db'"
proof -
  obtain db1 where unclaimed: "require_provider_unclaimed_tx db i = Inr ()"
      and upd: "update_one SqlMessage adm db i
        (\<lambda>r. active_state_text (r_state r) \<or> abandoned \<and> r_state r = ''failed'') (superseded_row now)
        = Inr (db1, True)"
      and clr: "clear_session_tx SqlMessage adm db1 i = Inr db'"
    using assms by (auto simp: supersede_for_lifecycle_tx_def and_then_Inr require_hit_Inr)
  moreover have "rows_step l db db1"
    using unclaimed by (intro update_one_rows [OF upd])
      (simp add: require_provider_unclaimed_Inr superseded_row_step)
  ultimately show ?thesis by (blast intro: table_step_trans [OF _ clear_session_rows [OF clr]])
qed

lemma mark_superseded_rows:
  assumes "session_mark_superseded_tx adm db i now = Inr db'"
  shows "rows_step l db db'"
proof -
  obtain db1 hit where unclaimed: "require_provider_unclaimed_tx db i = Inr ()"
      and upd: "update_one SqlMessage adm db i (\<lambda>_. True) (superseded_row now) = Inr (db1, hit)"
      and clr: "clear_session_tx SqlMessage adm db1 i = Inr db'"
    using assms by (auto simp: session_mark_superseded_tx_def and_then_Inr)
  moreover have "rows_step l db db1"
    using unclaimed by (intro update_one_rows [OF upd])
      (simp add: require_provider_unclaimed_Inr superseded_row_step)
  ultimately show ?thesis by (blast intro: table_step_trans [OF _ clear_session_rows [OF clr]])
qed

lemma harvested_rows:
  "session_mark_queue_harvested_tx adm db i now = Inr db' \<Longrightarrow> rows_step l db db'"
  "session_clear_queue_harvested_tx adm db i = Inr db' \<Longrightarrow> rows_step l db db'"
  unfolding session_mark_queue_harvested_tx_def session_clear_queue_harvested_tx_def and_then_Inr
  by (auto elim!: update_one_rows simp: column_defs)

lemma prepare_rows:
  assumes "session_prepare_deferred_planner_tx js adm db ini = Inr (db', w)"
  shows "rows_step (Revived (in_id ini)) db db'"
proof -
  obtain db1 where 1: "(case active_session_of_card db (in_card_id ini) of
                       None \<Rightarrow> Inr db
                     | Some old \<Rightarrow>
                         and_then (supersede_for_lifecycle_tx adm db old (in_now_ms ini) False)
                           (\<lambda>db. session_mark_queue_harvested_tx adm db old (in_now_ms ini))) = Inr db1"
      and "session_start_mirror_tx js adm db1 ini = Inr (db', w)"
    using assms by (auto simp: session_prepare_deferred_planner_tx_def and_then_Inr split: if_splits)
  moreover have "rows_step (Revived (in_id ini)) db db1"
    using 1 by (auto simp: and_then_Inr dest!: supersede_rows [where l = "Revived (in_id ini)"]
      harvested_rows [where l = "Revived (in_id ini)"] intro: table_step_trans split: option.splits)
  ultimately show ?thesis using start_mirror_rows table_step_trans by blast
qed

lemma status_rows:
  "session_set_status_mirror_tx js adm db i status now = Inr db' \<Longrightarrow> rows_step l db db'"
  "session_complete_mirror_tx js adm db i status now = Inr db' \<Longrightarrow> rows_step l db db'"
  unfolding session_set_status_mirror_tx_def session_complete_mirror_tx_def
  by (auto simp: and_then_Inr elim!: on_sessions_rows dest: transition_at_rows)

lemma set_status_rows:
  "session_set_status_tx js adm db now i status = Inr db' \<Longrightarrow> rows_step l db db'"
  "session_complete_tx js adm db now i status = Inr db' \<Longrightarrow> rows_step l db db'"
  unfolding session_set_status_tx_def session_complete_tx_def
  by (auto simp: and_then_Inr intro: status_rows split: if_splits)

lemma fail_rows: "session_fail_if_active_tx adm db i now = Inr db' \<Longrightarrow> rows_step l db db'"
  unfolding session_fail_if_active_tx_def and_then_Inr
  by (auto elim!: update_one_rows intro!: active_row_step simp: same_identity_def)

lemma observation_rows:
  "session_set_harness_observation_tx adm db i status thread turn now = Inr db' \<Longrightarrow> rows_step l db db'"
  unfolding session_set_harness_observation_tx_def and_then_Inr
  by (auto elim!: update_one_rows intro!: active_row_step simp: same_identity_def)

lemma restore_failed_rows:
  assumes "session_restore_failed_carrier_tx js adm db i now = Inr (db', w)"
  shows "rows_step l db db'"
proof -
  obtain db1 where upd: "update_one SqlMessage adm db i
           (\<lambda>r. r_state r = ''failed'' \<and> r_completed_at_ms r = None)
           (\<lambda>r. r\<lparr>r_queue_harvested_at_ms := None, r_updated_at_ms := now\<rparr>) = Inr (db1, True)"
      and "session_get_required_for_runtime_tx js ''while restoring a failed planner carrier'' db1 i = Inr (db', w)"
    using assms by (auto simp: session_restore_failed_carrier_tx_def and_then_Inr require_hit_Inr)
  then have "db' = db1" by (simp add: get_required_db)
  then show ?thesis by (simp add: update_one_rows [OF upd] column_defs)
qed

lemma restore_superseded_rows:
  assumes "session_restore_from_superseded_tx js adm db i status now = Inr (db', w)"
  shows "rows_step (Revived i) db db'"
proof -
  obtain db1 hit where unclaimed: "require_provider_unclaimed_tx db i = Inr ()"
      and upd: "update_one SqlMessage adm db i (\<lambda>r. r_state r = ''superseded'')
         (\<lambda>r. r\<lparr>r_state := session_state_db_str status, r_updated_at_ms := now,
                r_completed_at_ms := None, r_queue_harvested_at_ms := None\<rparr>) = Inr (db1, hit)"
      and "session_get_required_for_runtime_tx js ''while restoring old planner harness session'' db1 i
        = Inr (db', w)"
    using assms
    by (auto simp: session_restore_from_superseded_tx_def and_then_Inr split: if_splits option.splits)
  then have "db' = db1" by (simp add: get_required_db)
  then show ?thesis using unclaimed
    by (auto intro!: update_one_rows [OF upd]
        simp: require_provider_unclaimed_Inr row_step_def same_identity_def claim_ok_def)
qed

lemma column_rows:
  "session_bind_attribution_mirror_tx adm db i thread native turn now = Inr db' \<Longrightarrow> rows_step l db db'"
  "session_clear_terminal_run_id_mirror_tx adm db i now = Inr db' \<Longrightarrow> rows_step l db db'"
  "session_set_active_turn_mirror_tx adm db i turn now = Inr db' \<Longrightarrow> rows_step l db db'"
  "session_set_handle_state_mirror_tx adm db i state_text now = Inr (db', hit) \<Longrightarrow> rows_step l db db'"
  "session_set_handle_state_of_any_runtime_tx js adm db i state now = Inr db' \<Longrightarrow> rows_step l db db'"
  "session_set_handle_state_of_retired_runtime_tx js adm db i state now = Inr (db', hit) \<Longrightarrow> rows_step l db db'"
  "session_claim_start_operation_tx adm db c i op = Inr (db', hit) \<Longrightarrow> rows_step l db db'"
  "session_release_unstarted_operation_tx adm db c i op = Inr (db', hit) \<Longrightarrow> rows_step l db db'"
  unfolding session_bind_attribution_mirror_tx_def session_clear_terminal_run_id_mirror_tx_def
    session_set_active_turn_mirror_tx_def session_set_handle_state_mirror_tx_def
    session_set_handle_state_of_any_runtime_tx_def session_set_handle_state_of_retired_runtime_tx_def
    session_claim_start_operation_tx_def session_release_unstarted_operation_tx_def
  by (auto simp: and_then_Inr require_hit_Inr set_handle_def column_defs elim!: update_one_rows
      split: if_splits)

section \<open>Operations of the owners\<close>

lemma claimed_row_step:
  assumes "r_terminal_run_id r = None" and "active_state_text (r_state r) \<or> r_state r = ''failed''"
  shows "row_step b r (r\<lparr>r_provider_execution_json := Some json\<rparr>)"
proof -
  have "r_state r \<noteq> ''exited''" "r_state r \<noteq> ''superseded''"
    using assms(2) by (auto simp: active_state_text_def)
  then show ?thesis using assms(1) by (simp add: row_step_defs claim_ok_def)
qed

lemma claim_rows:
  assumes "admit_execution codec adm db i execution why initial = Inr (db', c)"
  shows "rows_step l db db'"
proof -
  obtain cl where no_terminal: "\<And>r. db_sessions db i = Some r \<Longrightarrow> r_terminal_run_id r = None"
      and cas: "cas_of cl (update_one Db adm db i
           (\<lambda>r. r_provider_execution_json r = None \<and>
                (active_state_text (r_state r) \<or> r_state r = ''failed'') \<and> current_of_card db i r)
           (\<lambda>r. r\<lparr>r_provider_execution_json := Some (cl_json cl)\<rparr>)) = Inr (db', c)"
    using assms by (auto simp: admit_execution_def and_then_Inr split: if_splits)
  show ?thesis
    using cas_of_Inr [OF cas]
    by (elim exE) (rule update_one_rows, assumption, simp only: no_terminal claimed_row_step)
qed

lemma exchange_rows: "compare_exchange adm db i expected next_json = Inr (db', c) \<Longrightarrow> rows_step l db db'"
  unfolding compare_exchange_def
  by (auto dest!: cas_of_Inr elim!: update_one_rows simp: row_step_defs claim_ok_def)

lemma replace_rows: "replace_claim codec adm db i expected ex = Inr (db', c) \<Longrightarrow> rows_step l db db'"
  unfolding replace_claim_def by (auto simp: and_then_Inr intro: exchange_rows)

lemma execution_rows:
  "advance_release codec adm db i expected at = Inr (db', c) \<Longrightarrow> rows_step l db db'"
  "stop_execution codec adm db i expected reason at = Inr (db', c) \<Longrightarrow> rows_step l db db'"
  "clear_on_completion adm db i expected = Inr (db', d) \<Longrightarrow> rows_step l db db'"
  "revoke_credential_for_execution codec adm db i execution = Inr (db', hit) \<Longrightarrow> rows_step l db db'"
  unfolding advance_release_def stop_execution_def clear_on_completion_def revoke_credential_for_execution_def
  by (auto simp: Let_def and_then_Inr column_defs intro: replace_rows exchange_rows elim!: update_one_rows
      split: exec_release.splits if_splits option.splits)

lemma resume_rows:
  "session_resume_system_error_tx js sj adm db now c i thread snapshot = Inr (db', hit) \<Longrightarrow>
     rows_step (Revived i) db db'"
  unfolding session_resume_system_error_tx_def
  by (auto simp: and_then_Inr row_step_def same_identity_def claim_ok_def elim!: update_one_rows split: if_splits)

lemma failed_snapshot_rows:
  "session_set_failed_harness_snapshot_tx js sj adm db now c i snapshot = Inr (db', hit) \<Longrightarrow> rows_step l db db'"
  unfolding session_set_failed_harness_snapshot_tx_def
  by (auto simp: set_handle_def column_defs elim!: update_one_rows split: sum.splits)

lemma restore_carrier_rows:
  "restore_interrupt_timeout_carrier_tx adm db now ca = Inr db' \<Longrightarrow>
     rows_step (Revived (ca_worker_session_id ca)) db db'"
  unfolding restore_interrupt_timeout_carrier_tx_def require_hit_Inr
  by (auto simp: carrier_row_def row_step_def same_identity_def claim_ok_def elim!: update_one_rows)

lemma terminal_rows:
  "terminal_spawned_tx adm db alias at = Inr db' \<Longrightarrow> rows_step l db db'"
  "terminal_settled_tx adm db alias code at = Inr db' \<Longrightarrow> rows_step l db db'"
  unfolding terminal_spawned_tx_def terminal_settled_tx_def
  by (auto simp: and_then_Inr update_where_def table_step_def row_step_defs claim_ok_def ended_def
      bound_to_alias_def active_state_text_def split: option.splits)

lemma server_rows:
  "complete_failed_carrier_observation_tx adm db now ca thread turn = Inr db' \<Longrightarrow> rows_step l db db'"
  "mark_running_timeout_cleanup_rows sj adm db c marker now = Inr db' \<Longrightarrow> rows_step l db db'"
  "clear_timeout_cleanup_row sj adm db i c marker now = Inr (db', hit) \<Longrightarrow> rows_step l db db'"
  "revoke_owned_tx adm db track = Inr db' \<Longrightarrow> rows_step l db db'"
  "revoke_worker adm db i = Inr db' \<Longrightarrow> rows_step l db db'"
  "rewrite_canonical_snapshot adm db i raw encoded = Inr db' \<Longrightarrow> rows_step l db db'"
  unfolding complete_failed_carrier_observation_tx_def mark_running_timeout_cleanup_rows_def
    clear_timeout_cleanup_row_def revoke_owned_tx_def revoke_worker_def rewrite_canonical_snapshot_def
  by (auto simp: and_then_Inr require_hit_Inr set_handle_def column_defs
      elim!: update_one_rows update_where_rows)

section \<open>Runs\<close>

inductive session_step ::
  "'j serde \<Rightarrow> sql_json \<Rightarrow> claim_codec \<Rightarrow> (session_db \<Rightarrow> bool) \<Rightarrow> (session_id \<rightharpoonup> string) \<Rightarrow>
     session_db \<Rightarrow> session_label \<Rightarrow> session_db \<Rightarrow> bool"
  for js sj codec adm backends where
  insert_step:
    "on_sessions adm db (\<lambda>admit t. session_insert_tx js admit t s) = Inr (db', w) \<Longrightarrow>
     session_step js sj codec adm backends db Updated db'"
| liveness_step:
    "on_sessions adm db (\<lambda>admit t. session_set_liveness_tx js admit t i tag at) = Inr (db', x) \<Longrightarrow>
     session_step js sj codec adm backends db Updated db'"
| activity_step:
    "session_record_activity_tx (\<lambda>t. adm (db\<lparr>db_sessions := t\<rparr>)) (db_sessions db) i at status = Inr t' \<Longrightarrow>
     session_step js sj codec adm backends db Updated (db\<lparr>db_sessions := t'\<rparr>)"
| thread_step:
    "session_record_activity_by_thread_tx (\<lambda>t. adm (db\<lparr>db_sessions := t\<rparr>)) backends (db_sessions db)
       thread at status finished backend = Inr t' \<Longrightarrow>
     session_step js sj codec adm backends db Updated (db\<lparr>db_sessions := t'\<rparr>)"
| transition_step:
    "on_sessions adm db (\<lambda>admit t. session_state_transition_tx js admit t now i to) = Inr (db', w) \<Longrightarrow>
     session_step js sj codec adm backends db Updated db'"
| exit_step:
    "on_sessions adm db (\<lambda>admit t. session_commit_exit_tx js admit t i to at code interp) = Inr (db', w) \<Longrightarrow>
     session_step js sj codec adm backends db Updated db'"
| token_step:
    "session_mcp_token_set_tx adm db i hashed = Inr db' \<Longrightarrow>
     session_step js sj codec adm backends db Updated db'"
| token_active_step:
    "session_mcp_token_set_if_active_tx adm db i hashed = Inr db' \<Longrightarrow>
     session_step js sj codec adm backends db Updated db'"
| planner_revoke_step:
    "claude_planner_revoke_tx adm db scope = Inr db' \<Longrightarrow>
     session_step js sj codec adm backends db Updated db'"
| card_revoke_step:
    "revoke_card_credentials_tx adm db c = Inr db' \<Longrightarrow>
     session_step js sj codec adm backends db Updated db'"
| start_step:
    "session_start_mirror_tx js adm db ini = Inr (db', w) \<Longrightarrow>
     session_step js sj codec adm backends db (Revived (in_id ini)) db'"
| prepare_step:
    "session_prepare_deferred_planner_tx js adm db ini = Inr (db', w) \<Longrightarrow>
     session_step js sj codec adm backends db (Revived (in_id ini)) db'"
| supersede_step:
    "supersede_for_lifecycle_tx adm db i now abandoned = Inr db' \<Longrightarrow>
     session_step js sj codec adm backends db Updated db'"
| mark_superseded_step:
    "session_mark_superseded_tx adm db i now = Inr db' \<Longrightarrow>
     session_step js sj codec adm backends db Updated db'"
| delete_step:
    "session_delete_tx adm db i = Inr db' \<Longrightarrow>
     session_step js sj codec adm backends db (Removed {i}) db'"
| delete_scope_step:
    "sessions_delete_scope_tx adm db scope = Inr db' \<Longrightarrow>
     session_step js sj codec adm backends db (Removed {i. in_delete_scope scope db i}) db'"
| harvested_step:
    "session_mark_queue_harvested_tx adm db i now = Inr db' \<Longrightarrow>
     session_step js sj codec adm backends db Updated db'"
| unharvested_step:
    "session_clear_queue_harvested_tx adm db i = Inr db' \<Longrightarrow>
     session_step js sj codec adm backends db Updated db'"
| set_status_step:
    "session_set_status_tx js adm db now i status = Inr db' \<Longrightarrow>
     session_step js sj codec adm backends db Updated db'"
| complete_step:
    "session_complete_tx js adm db now i status = Inr db' \<Longrightarrow>
     session_step js sj codec adm backends db Updated db'"
| fail_step:
    "session_fail_if_active_tx adm db i now = Inr db' \<Longrightarrow>
     session_step js sj codec adm backends db Updated db'"
| observation_step:
    "session_set_harness_observation_tx adm db i status thread turn now = Inr db' \<Longrightarrow>
     session_step js sj codec adm backends db Updated db'"
| restore_failed_step:
    "session_restore_failed_carrier_tx js adm db i now = Inr (db', w) \<Longrightarrow>
     session_step js sj codec adm backends db Updated db'"
| restore_superseded_step:
    "session_restore_from_superseded_tx js adm db i status now = Inr (db', w) \<Longrightarrow>
     session_step js sj codec adm backends db (Revived i) db'"
| repoint_step:
    "session_repoint_current_links_tx adm db c (s :: 'j worker_session) = Inr db' \<Longrightarrow>
     session_step js sj codec adm backends db Updated db'"
| bind_step:
    "session_bind_attribution_mirror_tx adm db i thread native turn now = Inr db' \<Longrightarrow>
     session_step js sj codec adm backends db Updated db'"
| clear_terminal_step:
    "session_clear_terminal_run_id_mirror_tx adm db i now = Inr db' \<Longrightarrow>
     session_step js sj codec adm backends db Updated db'"
| active_turn_step:
    "session_set_active_turn_mirror_tx adm db i turn now = Inr db' \<Longrightarrow>
     session_step js sj codec adm backends db Updated db'"
| handle_step:
    "session_set_handle_state_mirror_tx adm db i state_text now = Inr (db', hit) \<Longrightarrow>
     session_step js sj codec adm backends db Updated db'"
| handle_any_step:
    "session_set_handle_state_of_any_runtime_tx js adm db i state now = Inr db' \<Longrightarrow>
     session_step js sj codec adm backends db Updated db'"
| handle_retired_step:
    "session_set_handle_state_of_retired_runtime_tx js adm db i state now = Inr (db', hit) \<Longrightarrow>
     session_step js sj codec adm backends db Updated db'"
| claim_start_step:
    "session_claim_start_operation_tx adm db c i op = Inr (db', hit) \<Longrightarrow>
     session_step js sj codec adm backends db Updated db'"
| release_start_step:
    "session_release_unstarted_operation_tx adm db c i op = Inr (db', hit) \<Longrightarrow>
     session_step js sj codec adm backends db Updated db'"
| claim_step:
    "admit_execution codec adm db i execution why initial = Inr (db', cas) \<Longrightarrow>
     session_step js sj codec adm backends db Updated db'"
| advance_step:
    "advance_release codec adm db i expected at = Inr (db', cas) \<Longrightarrow>
     session_step js sj codec adm backends db Updated db'"
| stop_step:
    "stop_execution codec adm db i expected reason at = Inr (db', cas) \<Longrightarrow>
     session_step js sj codec adm backends db Updated db'"
| clear_step:
    "clear_on_completion adm db i expected = Inr (db', cleared) \<Longrightarrow>
     session_step js sj codec adm backends db Updated db'"
| revoke_execution_step:
    "revoke_credential_for_execution codec adm db i execution = Inr (db', hit) \<Longrightarrow>
     session_step js sj codec adm backends db Updated db'"
| resume_step:
    "session_resume_system_error_tx js sj adm db now c i thread snapshot = Inr (db', hit) \<Longrightarrow>
     session_step js sj codec adm backends db (Revived i) db'"
| failed_snapshot_step:
    "session_set_failed_harness_snapshot_tx js sj adm db now c i snapshot = Inr (db', hit) \<Longrightarrow>
     session_step js sj codec adm backends db Updated db'"
| restore_carrier_step:
    "restore_interrupt_timeout_carrier_tx adm db now ca = Inr db' \<Longrightarrow>
     session_step js sj codec adm backends db (Revived (ca_worker_session_id ca)) db'"
| failed_end_step:
    "complete_failed_carrier_observation_tx adm db now ca thread turn = Inr db' \<Longrightarrow>
     session_step js sj codec adm backends db Updated db'"
| spawned_step:
    "terminal_spawned_tx adm db alias at = Inr db' \<Longrightarrow>
     session_step js sj codec adm backends db Updated db'"
| settled_step:
    "terminal_settled_tx adm db alias code at = Inr db' \<Longrightarrow>
     session_step js sj codec adm backends db Updated db'"
| timeout_mark_step:
    "mark_running_timeout_cleanup_rows sj adm db c marker now = Inr db' \<Longrightarrow>
     session_step js sj codec adm backends db Updated db'"
| timeout_clear_step:
    "clear_timeout_cleanup_row sj adm db i c marker now = Inr (db', hit) \<Longrightarrow>
     session_step js sj codec adm backends db Updated db'"
| acp_revoke_step:
    "revoke_owned_tx adm db track = Inr db' \<Longrightarrow>
     session_step js sj codec adm backends db Updated db'"
| acp_revoke_one_step:
    "revoke_worker adm db i = Inr db' \<Longrightarrow>
     session_step js sj codec adm backends db Updated db'"
| rewrite_step:
    "rewrite_canonical_snapshot adm db i raw encoded = Inr db' \<Longrightarrow>
     session_step js sj codec adm backends db Updated db'"

lemmas operation_rows =
  on_sessions_rows [OF _ insert_rows] on_sessions_rows [OF _ liveness_rows]
  on_sessions_rows [OF _ exit_rows] on_sessions_rows [OF _ transition_at_rows]
  activity_rows thread_rows token_set_rows revoke_rows start_mirror_rows prepare_rows supersede_rows
  mark_superseded_rows harvested_rows set_status_rows fail_rows observation_rows restore_failed_rows
  restore_superseded_rows repoint_rows column_rows claim_rows execution_rows resume_rows
  failed_snapshot_rows restore_carrier_rows terminal_rows server_rows

lemma delete_operation_rows:
  "session_delete_tx adm db i = Inr db' \<Longrightarrow> rows_step (Removed {i}) db db'"
  "sessions_delete_scope_tx adm db scope = Inr db' \<Longrightarrow>
     rows_step (Removed {i. in_delete_scope scope db i}) db db'"
  unfolding session_delete_tx_def sessions_delete_scope_tx_def
  by (auto simp: and_then_Inr dest: delete_rows)

lemma session_step_rows: "session_step js sj codec adm backends db l db' \<Longrightarrow> rows_step l db db'"
  by (erule session_step.cases)
    (simp_all add: operation_rows delete_operation_rows session_state_transition_tx_def)

inductive session_run ::
  "'j serde \<Rightarrow> sql_json \<Rightarrow> claim_codec \<Rightarrow> (session_db \<Rightarrow> bool) \<Rightarrow> (session_id \<rightharpoonup> string) \<Rightarrow>
     session_db \<Rightarrow> session_label list \<Rightarrow> session_db \<Rightarrow> bool"
  for js sj codec adm backends where
  run_nil: "session_run js sj codec adm backends db [] db"
| run_cons: "session_step js sj codec adm backends db l db1 \<Longrightarrow> session_run js sj codec adm backends db1 ls db' \<Longrightarrow>
    session_run js sj codec adm backends db (l # ls) db'"

lemma session_run_history:
  assumes "session_run js sj codec adm backends db ls db'" and "db_sessions db i = Some r"
    and "\<forall>l\<in>set ls. \<not> removes l i"
  shows "\<exists>r'. db_sessions db' i = Some r' \<and> row_step (Revived i \<in> set ls) r r'"
  using assms
proof (induction arbitrary: r rule: session_run.induct)
  case (run_nil db)
  then show ?case by simp
next
  case (run_cons db l db1 ls db')
  have "\<not> removes l i" using run_cons.prems(2) by simp
  then obtain r1 where r1: "db_sessions db1 i = Some r1" "row_step (l = Revived i) r r1"
    using session_step_rows [OF run_cons.hyps(1)] run_cons.prems(1) unfolding table_step_def by blast
  obtain r2 where r2: "db_sessions db' i = Some r2" "row_step (Revived i \<in> set ls) r1 r2"
    using run_cons.IH [OF r1(1)] run_cons.prems by auto
  have "row_step (Revived i \<in> set (l # ls)) r r1" "row_step (Revived i \<in> set (l # ls)) r1 r2"
    using r1(2) r2(2) by (auto simp: row_step_def)
  then show ?case using r2(1) row_step_trans by blast
qed

section \<open>Insert and read back\<close>

lemma from_row_of_session:
  assumes "json_opt (to_str js) (ws_handle_state_json s) = Inr handle"
    and "\<And>v text. ws_handle_state_json s = Some v \<Longrightarrow> to_str js v = Inr text \<Longrightarrow> from_str js text = Inr v"
  shows "worker_session_from_row js (row_of_session s handle) = Inr s"
proof -
  have "json_opt (from_str js) handle = Inr (ws_handle_state_json s)"
    using assms by (auto simp: json_opt_def split: option.splits sum.splits)
  then show ?thesis
    by (simp add: worker_session_from_row_def row_of_session_def worker_session_parse_def
        provider_decode_text_def provider_column.decode_spell mode_column.decode_spell
        contract_column.decode_spell state_column.decode_spell liveness_column.decode_spell)
qed

lemma insert_roundtrip:
  assumes "\<And>v text. ws_handle_state_json s = Some v \<Longrightarrow> to_str js v = Inr text \<Longrightarrow> from_str js text = Inr v"
    and "session_insert_tx js admit t s = Inr (t', w)"
  shows "w = s \<and> session_get_tx js (fetch_row t') (ws_id s) = Inr (Some s)"
proof -
  obtain handle where h: "json_opt (to_str js) (ws_handle_state_json s) = Inr handle"
      and r: "reread js ''insert'' (t(ws_id s \<mapsto> row_of_session s handle)) (ws_id s) = Inr (t', w)"
    using assms(2) by (auto simp: session_insert_tx_def and_then_Inr split: if_splits)
  have "session_get_tx js (fetch_row (t(ws_id s \<mapsto> row_of_session s handle))) (ws_id s) = Inr (Some s)"
    using from_row_of_session [OF h assms(1)] by (simp add: session_get_tx_def)
  then show ?thesis using r reread_table [OF r] by (auto simp: reread_def and_then_Inr)
qed

end
