(* ===== verification/Gate_Properties.thy ===== *)
theory Gate_Properties
  imports Gate_Authority Session_Lifecycle
begin

text \<open>
  The properties of the authorisation gate and of the session store, with a concrete database that
  shows their hypotheses can hold: a session \<open>s\<close> bound to the card \<open>c\<close> on the track \<open>t\<close> of the area
  \<open>a\<close>, whose role and contract are arguments.
\<close>

section \<open>A concrete database\<close>

definition demo_js :: "unit serde" where
  "demo_js = \<lparr>from_str = (\<lambda>_. Inr ()), to_str = (\<lambda>_. Inr ''null''), get_key = (\<lambda>_ _. Some ()),
     as_str = (\<lambda>_. Some ''assistant''), as_provider = (\<lambda>_. Some ApCodex)\<rparr>"

definition demo_session :: "worker_contract \<Rightarrow> unit worker_session" where
  "demo_session contract =
     \<lparr>ws_id = ''s'', ws_track_id = ''t'', ws_provider = WpCodex, ws_mode = Resumable,
      ws_contract = contract, ws_parent_session_id = None, ws_requester_session_id = None,
      ws_state = Running, ws_mcp_token_hash = Some ''h'', ws_thread_id = None,
      ws_agent_session_id = None, ws_active_turn_id = None, ws_terminal_run_id = None,
      ws_card_id = Some ''c'', ws_handle_state_json = Some (), ws_liveness = LtAlive,
      ws_liveness_probed_at_ms = None, ws_exit_code = None, ws_exit_interpretation = None,
      ws_spawn_op_id = None, ws_last_activity_ms = None, ws_last_thread_status = None,
      ws_created_at_ms = 1, ws_updated_at_ms = 1, ws_completed_at_ms = None\<rparr>"

definition demo_row :: "worker_contract \<Rightarrow> session_row" where
  "demo_row contract = row_of_session (demo_session contract) (Some ''null'')"

definition demo_ended :: session_row where
  "demo_ended = exit_row Exited 5 (Some 0) ''clean'' (demo_row CtExecutor)"

definition demo_session_db :: "session_row \<Rightarrow> session_db" where
  "demo_session_db r =
     \<lparr>db_sessions = [''s'' \<mapsto> r], db_cards = Map.empty, db_tracks = Map.empty, db_tokens = Map.empty,
      db_ledger = {}, db_acp = {}, db_terminals = Map.empty\<rparr>"

definition demo_sql_json :: sql_json where
  "demo_sql_json = \<lparr>json_extract = (\<lambda>_ _. None), json_set = (\<lambda>h _. h), json_remove = (\<lambda>h _. h)\<rparr>"

definition demo_codec :: claim_codec where
  "demo_codec = \<lparr>claim_to_str = (\<lambda>_. Inr ''claim''), claim_from_str = (\<lambda>_. Inl ''no claim'')\<rparr>"

definition demo_db :: "worker_contract \<Rightarrow> card_role \<Rightarrow> sqlite_rows" where
  "demo_db contract role =
     \<lparr>sel_session = (\<lambda>i. Inr (if i = ''s'' then Some (demo_row contract) else None)),
      sel_card_role = (\<lambda>c. Inr (if c = ''c'' then Some (card_role_db_str role) else None)),
      sel_card_track = (\<lambda>c. Inr (if c = ''c'' then Some ''t'' else None)),
      sel_card_binding = (\<lambda>c. Inr (if c = ''c'' then Some (''codex'', ''{}'', Some ''s'') else None)),
      sel_track_area = (\<lambda>t. Inr (if t = ''t'' then Some ''a'' else None)),
      sel_track_root = (\<lambda>t. Inr None)\<rparr>"

abbreviation demo_tx :: "worker_contract \<Rightarrow> card_role \<Rightarrow> unit write_tx" where
  "demo_tx contract role \<equiv> sqlite_tx demo_js (demo_db contract role)"

lemma demo_reads_ok: "reads_ok (demo_tx contract role)"
  by (auto simp: reads_ok_def sqlite_tx_def demo_db_def sqlite_read_card_role_def
      role_column.decode_spell)

lemma demo_no_empty: "db_card_cache (demo_tx contract role) [] = None"
  by (simp add: db_card_cache_def sqlite_tx_def demo_db_def sqlite_read_card_role_def)

section \<open>The gate\<close>

text \<open>
  C2. The sequence of checks of \<open>enforce_role\<close> admits a write exactly when the policy permits it: the
  actor is identified, holds the authority the kind of event asks for, and, when it is bound to a
  card, writes into that card's own home (an assistant also into its track's report card).
\<close>

theorem gate_implements_policy: "is_ok (enforce_role a e s m areas) \<longleftrightarrow> permits a e s m areas"
  by (rule enforce_role_permits)

text \<open>
  C10. With no failing read and no card with an empty id, the gate that fills two throwaway caches
  from the transaction decides every write, with the same violation, as the gate on caches that
  hold the whole database.
\<close>

theorem hydrated_gate_agrees:
  assumes "reads_ok tx" and "db_card_cache tx [] = None"
  shows "enforce_role_resolving_session_from_tx tx a e s =
    enforce_role_resolving_session tx a e s (db_card_cache tx) (db_area_cache tx)"
proof -
  obtain m areas where "hydrate_role_caches_from_tx tx a s (session_card tx a) = Inr (m, areas)"
    using hydrate_ok [OF assms(1)] by (metis surj_pair)
  then show ?thesis
    using hydrated_gate [OF _ assms(2)] by (simp add: enforce_role_resolving_session_from_tx_def)
qed

theorem hydrated_gate_agrees_witness:
  "enforce_role_resolving_session_from_tx (demo_tx CtExecutor Worker) (AiCodexSession ''s'') CodexHook
     (SCard ''c'' ''t'' ''a'') =
   enforce_role_resolving_session (demo_tx CtExecutor Worker) (AiCodexSession ''s'') CodexHook
     (SCard ''c'' ''t'' ''a'') (db_card_cache (demo_tx CtExecutor Worker))
     (db_area_cache (demo_tx CtExecutor Worker))"
  by (rule hydrated_gate_agrees [OF demo_reads_ok demo_no_empty])

text \<open>
  C23. A write the transaction's gate admits is permitted by the policy on the database, for the
  actor itself or, when it is named by a session, for the card actor the session resolves to; no
  read is assumed to succeed.
\<close>

theorem admitted_write_permitted:
  assumes "enforce_role_resolving_session_from_tx tx a e s = Inr ()" and "db_card_cache tx [] = None"
  shows "\<exists>b. (case session_of a of None \<Rightarrow> b = a | Some i \<Rightarrow> resolve_session tx a i (db_card_cache tx) = Inr b) \<and>
    permits b e s (db_card_cache tx) (db_area_cache tx)"
  using assms by (rule from_tx_cases)

lemma demo_worker_admitted:
  "enforce_role_resolving_session_from_tx (demo_tx CtExecutor Worker) (AiCodexSession ''s'') CodexHook
     (SCard ''c'' ''t'' ''a'') = Inr ()"
  by code_simp

lemma demo_planner_admitted:
  "enforce_role_resolving_session_from_tx (demo_tx CtPlanner Planner) (AiPlannerSession ''s'') PlanUpdated
     (STrack ''t'' ''a'') = Inr ()"
  by code_simp

theorem admitted_write_permitted_witness:
  "\<exists>b. (case session_of (AiCodexSession ''s'') of None \<Rightarrow> b = AiCodexSession ''s''
      | Some i \<Rightarrow> resolve_session (demo_tx CtExecutor Worker) (AiCodexSession ''s'') i
          (db_card_cache (demo_tx CtExecutor Worker)) = Inr b) \<and>
    permits b CodexHook (SCard ''c'' ''t'' ''a'') (db_card_cache (demo_tx CtExecutor Worker))
      (db_area_cache (demo_tx CtExecutor Worker))"
  by (rule admitted_write_permitted [OF demo_worker_admitted demo_no_empty])

text \<open>
  C39. A read of a card's role or home track that fails, for any card the decision needs, refuses the
  write with \<open>RoleLookupFailed\<close>: the gate is closed on errors.
\<close>

theorem failed_lookup_refuses:
  assumes "c \<in> set (cards_to_read a s (session_card tx a))"
    and "read_card_role tx c = Inl err \<or> read_card_track tx c = Inl err"
  shows "\<exists>subject. enforce_role_resolving_session_from_tx tx a e s = Inl (RoleLookupFailed subject)"
  using hydrate_cards_fails [OF assms, of Map.empty "case scope_track s of None \<Rightarrow> [] | Some t \<Rightarrow> [t]"]
  by (auto simp: enforce_role_resolving_session_from_tx_def hydrate_role_caches_from_tx_def)

definition broken_tx :: "unit write_tx" where
  "broken_tx = (demo_tx CtExecutor Worker)\<lparr>read_card_track := (\<lambda>_. Inl Db)\<rparr>"

theorem failed_lookup_refuses_witness:
  "\<exists>subject. enforce_role_resolving_session_from_tx broken_tx (AiCodexSession ''s'') CodexHook
     (SCard ''c'' ''t'' ''a'') = Inl (RoleLookupFailed subject)"
  by (rule failed_lookup_refuses [where c = "''c''" and err = Db])
    (simp_all add: set_cards_to_read broken_tx_def)

section \<open>Sessions\<close>

text \<open>
  C1. On a SQLite transaction, a Codex, Claude or managed session whose write is admitted is active,
  is the session its card points at, and writes into a card scope of its own track and that track's
  area: its own card, or, for an assistant, a report card of the same track.
\<close>

theorem session_write_contained:
  assumes ok: "enforce_role_resolving_session_from_tx (sqlite_tx js db) a e s = Inr ()"
    and i: "session_of a = Some i" and np: "a \<noteq> AiPlannerSession i"
    and no_empty: "db_card_cache (sqlite_tx js db) [] = None"
  shows "\<exists>session c target area.
    bound_session js db i session c \<and> s = SCard target (ws_track_id session) area \<and>
    sel_track_area db (ws_track_id session) = Inr (Some area) \<and>
    may_target (db_card_cache (sqlite_tx js db)) c target"
proof -
  let ?m = "db_card_cache (sqlite_tx js db)"
  obtain b where r: "resolve_session (sqlite_tx js db) a i ?m = Inr b"
      and p: "permits b e s ?m (db_area_cache (sqlite_tx js db))"
    using from_tx_cases [OF ok no_empty] i by auto
  obtain session c where "read_worker_session (sqlite_tx js db) i = Inr (Some session)"
      "is_active_authority (ws_state session)" "ws_card_id session = Some c"
      and sy: "synthetic_actor a i session c ?m = Inr b"
    using resolve_session_Inr [OF r] by blast
  then have bound: "bound_session js db i session c" by (simp add: sqlite_session_bound)
  have "\<exists>label. worker_of b = Some (c, label)"
    using sy i np by (cases a) (auto simp: synthetic_actor_def split: if_splits)
  then have home: "at_home ?m (db_area_cache (sqlite_tx js db)) c s"
    using p by (auto simp: permits_def contained_def)
  have "track_of ?m c = None \<or> track_of ?m c = Some (ws_track_id session)"
    using bound by (auto simp: track_of_def db_card_cache_def bound_session_def sqlite_tx_def
        split: sum.splits option.splits)
  then obtain target area where "s = SCard target (ws_track_id session) area" "may_target ?m c target"
      "db_area_cache (sqlite_tx js db) (ws_track_id session) = Some area"
    using home by (auto simp: at_home_def area_of_def split: event_scope.splits)
  then show ?thesis
    using bound by (auto simp: db_area_cache_def sqlite_tx_def split: sum.splits)
qed

theorem session_write_contained_witness:
  "\<exists>session c target area.
    bound_session demo_js (demo_db CtExecutor Worker) ''s'' session c \<and>
    SCard ''c'' ''t'' ''a'' = SCard target (ws_track_id session) area \<and>
    sel_track_area (demo_db CtExecutor Worker) (ws_track_id session) = Inr (Some area) \<and>
    may_target (db_card_cache (demo_tx CtExecutor Worker)) c target"
  by (rule session_write_contained [OF demo_worker_admitted _ _ demo_no_empty]) simp_all

text \<open>
  C24. A planner session that is admitted acts for a card of role Planner that is bound to it: the
  row is active, its contract is the planner's, and the provider the card's payload names is the
  session's own.
\<close>

theorem planner_session_bound:
  assumes ok: "enforce_role_resolving_session_from_tx (sqlite_tx js db) (AiPlannerSession i) e s = Inr ()"
    and no_empty: "db_card_cache (sqlite_tx js db) [] = None"
  shows "\<exists>session c knd payload.
    bound_session js db i session c \<and> sqlite_read_card_role db c = Inr (Some Planner) \<and>
    ws_contract session = CtPlanner \<and>
    sqlite_read_card_binding js db c = Inr (Some (knd, payload, Some i)) \<and>
    provider_bound js knd payload PLANNER_PROVIDER_PAYLOAD_KEY session"
proof -
  let ?m = "db_card_cache (sqlite_tx js db)"
  obtain b where "resolve_session (sqlite_tx js db) (AiPlannerSession i) i ?m = Inr b"
    using from_tx_cases [OF ok no_empty] by auto
  then obtain session c where s: "read_worker_session (sqlite_tx js db) i = Inr (Some session)"
      "is_active_authority (ws_state session)" "ws_card_id session = Some c"
      and sy: "synthetic_actor (AiPlannerSession i) i session c ?m = Inr b"
    using resolve_session_Inr by blast
  have bound: "bound_session js db i session c" using s by (rule sqlite_session_bound)
  have "cache_get ?m c = Some Planner" using sy by (auto simp: synthetic_actor_def split: if_splits)
  then have role: "sqlite_read_card_role db c = Inr (Some Planner)"
    by (auto simp: cache_get_def db_card_cache_def sqlite_tx_def split: sum.splits option.splits)
  obtain knd payload key where k: "sqlite_read_card_binding js db c = Inr (Some (knd, payload, Some i))"
      "contract_key js payload (Some Planner) (ws_contract session) = Some key"
      "\<forall>k. key = Some k \<longrightarrow> provider_bound js knd payload k session"
    using bound role unfolding bound_session_def by auto
  then have "ws_contract session = CtPlanner" "key = Some PLANNER_PROVIDER_PAYLOAD_KEY"
    by (cases "ws_contract session"; simp add: contract_key_def)+
  then show ?thesis using bound role k by blast
qed

theorem planner_session_bound_witness:
  "\<exists>session c knd payload.
    bound_session demo_js (demo_db CtPlanner Planner) ''s'' session c \<and>
    sqlite_read_card_role (demo_db CtPlanner Planner) c = Inr (Some Planner) \<and>
    ws_contract session = CtPlanner \<and>
    sqlite_read_card_binding demo_js (demo_db CtPlanner Planner) c = Inr (Some (knd, payload, Some ''s'')) \<and>
    provider_bound demo_js knd payload PLANNER_PROVIDER_PAYLOAD_KEY session"
  by (rule planner_session_bound [OF demo_planner_admitted demo_no_empty])

text \<open>
  C28. On a SQLite transaction the recorder decision allows exactly the agents whose session is
  active and bound to a card of role Planner or Assistant on the track asked about.
\<close>

theorem recorder_allowed_iff:
  "decide_recorder p (sqlite_tx js db) track = Inr Allow \<longleftrightarrow>
     (\<exists>i t area session c. p = PAgent i t area \<and> bound_session js db i session c \<and>
        ws_track_id session = track \<and>
        sqlite_read_card_role db c \<in> {Inr (Some Planner), Inr (Some Assistant)})"
proof -
  have "read_card_role (sqlite_tx js db) = sqlite_read_card_role db"
    "read_card_track (sqlite_tx js db) = sel_card_track db"
    by (simp_all add: sqlite_tx_def)
  then have "decide_recorder p (sqlite_tx js db) track = Inr Allow \<longleftrightarrow>
     (\<exists>i t area session c r. p = PAgent i t area \<and> bound_session js db i session c \<and>
        sqlite_read_card_role db c = Inr (Some r) \<and> r \<in> {Planner, Assistant} \<and>
        sel_card_track db c = Inr (Some track))"
    by (simp add: decide_recorder_def decide_card_authority_Allow sqlite_session_iff [symmetric] conj_ac)
  then show ?thesis using bound_sessionD(3) [of js db] by fastforce
qed

text \<open>
  C11. Whatever sequence of operations writes the table of sessions (every statement on it in calm-truth
  and in the server, the fixture reset of replay.rs apart), a session's row is there at the end as long as
  none of them deleted it, and keeps its identity: track, provider, mode, contract, card, parent and
  requester. A session that ended stays in the state it ended in or becomes superseded, unless an
  operation brought it back: a start that takes over its placeholder, the restore of a superseded session,
  the recovery of a failed one. And while a provider execution is claimed on a session, the session is
  bound to no terminal and is neither exited nor superseded, if it was so before.
\<close>

theorem session_row_history:
  assumes "session_run js sj codec adm backends db ls db'" and "db_sessions db i = Some r"
    and "\<forall>l\<in>set ls. \<not> removes l i"
  shows "\<exists>r'. db_sessions db' i = Some r' \<and> same_identity r r' \<and>
    (ended r \<and> Revived i \<notin> set ls \<longrightarrow> r_state r' = r_state r \<or> r_state r' = ''superseded'') \<and>
    (claim_ok r \<longrightarrow> claim_ok r')"
  using session_run_history [OF assms] by (auto simp: row_step_def end_kept_def)

lemma demo_supersede_run:
  "session_run demo_js demo_sql_json demo_codec (\<lambda>_. True) Map.empty
     (demo_session_db demo_ended) [Updated] (demo_session_db (superseded_row 7 demo_ended))"
proof (rule run_cons [OF mark_superseded_step run_nil])
  show "session_mark_superseded_tx (\<lambda>_. True) (demo_session_db demo_ended) ''s'' 7
    = Inr (demo_session_db (superseded_row 7 demo_ended))"
    by (simp add: session_mark_superseded_tx_def require_provider_unclaimed_tx_def demo_session_db_def
        demo_ended_def exit_row_def demo_row_def row_of_session_def update_one_def sql_run_def
        clear_session_tx_def)
qed

theorem session_row_history_witness:
  "ended demo_ended \<and> claim_ok demo_ended \<and>
   (\<exists>r'. [''s'' \<mapsto> superseded_row 7 demo_ended] ''s'' = Some r' \<and> same_identity demo_ended r' \<and>
     (r_state r' = r_state demo_ended \<or> r_state r' = ''superseded'') \<and> claim_ok r')"
proof -
  have ended: "ended demo_ended" "claim_ok demo_ended"
    by (simp_all add: ended_def claim_ok_def demo_ended_def exit_row_def demo_row_def row_of_session_def)
  show ?thesis
    using session_row_history [OF demo_supersede_run, of "''s''" demo_ended] ended
    by (simp add: demo_session_db_def)
qed

text \<open>
  C33. A session inserted into the table is returned unchanged, and is what a later read of its id
  returns, provided the JSON library reads back the handle state it printed.
\<close>

theorem session_insert_roundtrip:
  assumes "\<And>v text. ws_handle_state_json s = Some v \<Longrightarrow> to_str js v = Inr text \<Longrightarrow> from_str js text = Inr v"
    and "session_insert_tx js admit t s = Inr (t', w)"
  shows "w = s \<and> session_get_tx js (fetch_row t') (ws_id s) = Inr (Some s)"
  using assms by (rule insert_roundtrip)

lemma demo_insert:
  "session_insert_tx demo_js (\<lambda>_. True) Map.empty (demo_session CtPlanner) =
     Inr ([''s'' \<mapsto> demo_row CtPlanner], demo_session CtPlanner)"
  by (simp add: session_insert_tx_def acp_session_identity_allowed_def kind_protocol_def demo_row_def
      row_of_session_def demo_session_def demo_js_def sql_write_def reread_def session_get_tx_def
      worker_session_from_row_def worker_session_parse_def provider_decode_text_def json_opt_def
      provider_kind_try_from_def session_mode_try_from_def contract_try_from_def
      session_state_try_from_def liveness_try_from_def)

theorem session_insert_roundtrip_witness:
  "demo_session CtPlanner = demo_session CtPlanner \<and>
   session_get_tx demo_js (fetch_row [''s'' \<mapsto> demo_row CtPlanner]) (ws_id (demo_session CtPlanner)) =
     Inr (Some (demo_session CtPlanner))"
  by (rule session_insert_roundtrip [OF _ demo_insert]) (simp add: demo_js_def)

section \<open>Claims the gate does not check again\<close>

text \<open>
  The role of a card a planner actor claims is not looked up for events that anyone may write: an
  \<open>AiPlanner\<close> actor with any non-empty card id is admitted at every scope, even when the cache
  knows no card at all.
\<close>

theorem planner_claim_not_reconfirmed:
  assumes "c \<noteq> []" and "event_authority e = Anyone"
  shows "enforce_role (AiPlanner c) e s Map.empty areas = Inr ()"
  using assms enforce_role_permits [of "AiPlanner c" e s Map.empty areas]
  by (simp add: is_ok_unit permits_def identified_def contained_def)

theorem planner_claim_not_reconfirmed_witness:
  "enforce_role (AiPlanner ''ghost'') CardDeleted SSystem Map.empty Map.empty = Inr ()"
  by (rule planner_claim_not_reconfirmed) simp_all

text \<open>
  A scope written to its four columns is read back, and rows without a kind or with columns
  missing read as the system scope.
\<close>

theorem scope_columns_roundtrip:
  "scope_from_row (Some (scope_kind s)) (scope_area s) (scope_track s) (scope_card s) = s \<and>
   scope_from_row None x y z = SSystem \<and> scope_from_row (Some ''card'') x None z = SSystem"
  by (cases s) (auto simp: scope_from_row_def split: option.split)

end
