(* ===== verification/Harness_Observation.thy ===== *)
theory Harness_Observation
  imports Actors
begin

text \<open>
  The observations pushed into an agent session (crates/calm-types/src/observation.rs): every variant
  with its fields, its tag, its presentation in the transcript, and whether it fires a turn at once.
  The structured payloads that nothing modelled here reads (a task's JSON result, a delivery
  settlement, a verify target, a checks snapshot) are values of the type parameter \<open>'v\<close>.
\<close>

section \<open>Observations\<close>

datatype report_edit_presentation = Legacy | Knowledge string

datatype edit_author = EaPlanner | EaUser | EaAssistant | EaKernel | EaPlugin

record report_block_ref =
  rb_id :: string
  rb_rev :: u32

record report_edit =
  re_presentation :: report_edit_presentation
  re_track_id :: track_id
  re_body_sha256 :: string
  re_body :: string
  re_author :: "edit_author option"
  re_body_before :: "string option"
  re_doc_rev_after :: "u64 option"
  re_blocks_after :: "report_block_ref list option"

datatype hook_kind = CodexStop | ClaudeStop

datatype 'v observation =
    TrackGoal string
  | ReportEdited report_edit
  | ObTaskCompleted string 'v "string option"
  | ObTaskFailed string string
  | WorkerHookStop track_id card_id hook_kind string
  | SystemContext string
  | UserMessage string
  | ObTaskGateResult string string bool "string option" "int option" string int "string option" "'v option"
  | ObTaskGitDeliverySettled string string 'v "string option"
  | TrackWake string string string
  | ObWorkspaceLeased track_id card_id string string
  | ObWorkspaceReleased track_id card_id string
  | ObForgePrMerged track_id u64
  | ObForgeScanCompleted track_id "u64 list"
  | ObForgePrOpened track_id u64
  | ObForgePrChecks track_id u64 string "'v option" "'v option"
  | ObForgeIssueClosed track_id u64
  | ObWorktreeProvisioned track_id card_id string
  | ObWorktreeCommitted track_id card_id string string
  | ObAskAnswered track_id "(string \<times> string) list"

fun type_tag :: "'v observation \<Rightarrow> string" where
  "type_tag (TrackGoal _) = ''track_goal''"
| "type_tag (ReportEdited _) = ''report_edited''"
| "type_tag (ObTaskCompleted _ _ _) = ''task_completed''"
| "type_tag (ObTaskFailed _ _) = ''task_failed''"
| "type_tag (WorkerHookStop _ _ _ _) = ''worker_hook_stop''"
| "type_tag (SystemContext _) = ''system_context''"
| "type_tag (UserMessage _) = ''user_message''"
| "type_tag (ObTaskGateResult _ _ _ _ _ _ _ _ _) = ''task_gate_result''"
| "type_tag (ObTaskGitDeliverySettled _ _ _ _) = ''task_git_delivery_settled''"
| "type_tag (TrackWake _ _ _) = ''track_wake''"
| "type_tag (ObWorkspaceLeased _ _ _ _) = ''workspace_leased''"
| "type_tag (ObWorkspaceReleased _ _ _) = ''workspace_released''"
| "type_tag (ObForgePrMerged _ _) = ''forge_pr_merged''"
| "type_tag (ObForgeScanCompleted _ _) = ''forge_scan_completed''"
| "type_tag (ObForgePrOpened _ _) = ''forge_pr_opened''"
| "type_tag (ObForgePrChecks _ _ _ _ _) = ''forge_pr_checks''"
| "type_tag (ObForgeIssueClosed _ _) = ''forge_issue_closed''"
| "type_tag (ObWorktreeProvisioned _ _ _) = ''worktree_provisioned''"
| "type_tag (ObWorktreeCommitted _ _ _ _) = ''worktree_committed''"
| "type_tag (ObAskAnswered _ _) = ''ask_answered''"

datatype harness_input_presentation =
    PresUser | PresSystem | PresReportEdited | PresTaskCompleted | PresTaskFailed
  | PresWorkerTurnFinished | PresMail | PresPlannerTurnBudget | PresPlannerContextUsage

definition MAIL_WAKE_SOURCE :: string where
  "MAIL_WAKE_SOURCE = ''mail''"

fun input_presentation :: "'v observation \<Rightarrow> harness_input_presentation" where
  "input_presentation (TrackGoal _) = PresUser"
| "input_presentation (UserMessage _) = PresUser"
| "input_presentation (ReportEdited _) = PresReportEdited"
| "input_presentation (ObTaskCompleted _ _ _) = PresTaskCompleted"
| "input_presentation (ObTaskFailed _ _) = PresTaskFailed"
| "input_presentation (WorkerHookStop _ _ _ _) = PresWorkerTurnFinished"
| "input_presentation (TrackWake source _ _) =
     (if source = MAIL_WAKE_SOURCE then PresMail else PresSystem)"
| "input_presentation _ = PresSystem"

fun is_hard_fire :: "'v observation \<Rightarrow> bool" where
  "is_hard_fire (TrackGoal _) = False"
| "is_hard_fire (ReportEdited _) = False"
| "is_hard_fire (ObWorkspaceLeased _ _ _ _) = False"
| "is_hard_fire (ObWorkspaceReleased _ _ _) = False"
| "is_hard_fire _ = True"

fun report_sha256 :: "'v observation \<Rightarrow> string option" where
  "report_sha256 (ReportEdited e) = Some (re_body_sha256 e)"
| "report_sha256 _ = None"

fun is_user_message :: "'v observation \<Rightarrow> bool" where
  "is_user_message (UserMessage _) = True"
| "is_user_message _ = False"

text \<open>The tag determines the variant: only a user message carries the tag of one.\<close>

lemma type_tag_user: "type_tag ob = ''user_message'' \<longleftrightarrow> is_user_message ob"
  by (cases ob) auto

end
