(* ===== verification/Harness_Queue.thy ===== *)
theory Harness_Queue
  imports Harness_Observation
begin

text \<open>
  The pending queue of a harness (crates/calm-server/src/harness/queue.rs): its entries, the
  mutations a person asks for (edit, delete, steer) guarded by the entry's revision, and the folding
  of an entry into the queue's tail. Minted ids and the wall clock are arguments. \<open>Panicked\<close> stands
  for the \<open>expect\<close> and \<open>unreachable!\<close> of the source, which no queue reaches.
\<close>

section \<open>Entries\<close>

type_synonym queue_entry_id = string

record bound_attachment =
  att_id :: string
  att_size :: u64
  att_path :: string

record queue_entry_ref =
  ref_id :: string
  ref_rev :: u32

record user_entry =
  ue_id :: queue_entry_id
  ue_text :: string
  ue_rev :: u32
  ue_queued_at_ms :: int
  ue_envelope_id :: "int option"
  ue_message_ids :: "string list"
  ue_attachments :: "bound_attachment list"

datatype 'v queue_entry =
    UserEntry user_entry
  | LegacyUser string "int option" "string list"
  | SystemEntry "'v observation" "int option" "string list"

definition bump_rev_for_restore :: "'v queue_entry \<Rightarrow> 'v queue_entry \<times> bool" where
  "bump_rev_for_restore e =
     (case e of
        UserEntry u \<Rightarrow>
          (case checked_succ (ue_rev u) of
             None \<Rightarrow> (e, False)
           | Some next \<Rightarrow> (UserEntry (u\<lparr>ue_rev := next\<rparr>), True))
      | _ \<Rightarrow> (e, False))"

definition user_message ::
  "string \<Rightarrow> string \<Rightarrow> int \<Rightarrow> string \<Rightarrow> int option \<Rightarrow> bound_attachment list \<Rightarrow> 'v queue_entry" where
  "user_message entry_id message_id now text envelope attachments =
     UserEntry \<lparr>ue_id = entry_id, ue_text = text, ue_rev = 0, ue_queued_at_ms = now,
       ue_envelope_id = envelope, ue_message_ids = [message_id], ue_attachments = attachments\<rparr>"

definition user_message_moved ::
  "string \<Rightarrow> int \<Rightarrow> string \<Rightarrow> string list \<Rightarrow> queue_entry_ref option \<Rightarrow> 'v queue_entry" where
  "user_message_moved fresh now text mids ref =
     (case ref of
        None \<Rightarrow> LegacyUser text None mids
      | Some r \<Rightarrow> UserEntry \<lparr>ue_id = ref_id r, ue_text = text, ue_rev = ref_rev r,
          ue_queued_at_ms = now, ue_envelope_id = None,
          ue_message_ids = (if mids = [] then [fresh] else mids), ue_attachments = []\<rparr>)"

definition system_entry :: "'v observation \<Rightarrow> int option \<Rightarrow> ('v queue_entry, string) result" where
  "system_entry ob envelope =
     (if is_user_message ob
      then Inl (''QueueEntry::system refuses Observation::UserMessage; ''
        @ ''mint user input through QueueEntry::user_message'')
      else Inr (SystemEntry ob envelope []))"

fun entry_observation :: "'v queue_entry \<Rightarrow> 'v observation" where
  "entry_observation (UserEntry u) = UserMessage (ue_text u)"
| "entry_observation (LegacyUser text _ _) = UserMessage text"
| "entry_observation (SystemEntry ob _ _) = ob"

fun envelope_id :: "'v queue_entry \<Rightarrow> int option" where
  "envelope_id (UserEntry u) = ue_envelope_id u"
| "envelope_id (LegacyUser _ env _) = env"
| "envelope_id (SystemEntry _ env _) = env"

fun set_envelope_id :: "int option \<Rightarrow> 'v queue_entry \<Rightarrow> 'v queue_entry" where
  "set_envelope_id env (UserEntry u) = UserEntry (u\<lparr>ue_envelope_id := env\<rparr>)"
| "set_envelope_id env (LegacyUser text _ mids) = LegacyUser text env mids"
| "set_envelope_id env (SystemEntry ob _ mids) = SystemEntry ob env mids"

fun message_ids :: "'v queue_entry \<Rightarrow> string list" where
  "message_ids (UserEntry u) = ue_message_ids u"
| "message_ids (LegacyUser _ _ mids) = mids"
| "message_ids (SystemEntry _ _ mids) = mids"

fun set_message_ids :: "string list \<Rightarrow> 'v queue_entry \<Rightarrow> 'v queue_entry" where
  "set_message_ids mids (UserEntry u) = UserEntry (u\<lparr>ue_message_ids := mids\<rparr>)"
| "set_message_ids mids (LegacyUser text env _) = LegacyUser text env mids"
| "set_message_ids mids (SystemEntry ob env _) = SystemEntry ob env mids"

fun is_user_authored :: "'v queue_entry \<Rightarrow> bool" where
  "is_user_authored (SystemEntry _ _ _) = False"
| "is_user_authored _ = True"

definition ensure_message_id :: "string \<Rightarrow> 'v queue_entry \<Rightarrow> 'v queue_entry" where
  "ensure_message_id fresh e =
     (if is_user_authored e \<and> message_ids e = [] then set_message_ids [fresh] e else e)"

definition remove_message_ids :: "string set \<Rightarrow> 'v queue_entry \<Rightarrow> 'v queue_entry \<times> bool" where
  "remove_message_ids returned e =
     (let kept = filter (\<lambda>i. i \<notin> returned) (message_ids e)
      in (set_message_ids kept e, message_ids e \<noteq> [] \<and> kept = []))"

fun entry_id :: "'v queue_entry \<Rightarrow> queue_entry_id option" where
  "entry_id (UserEntry u) = Some (ue_id u)"
| "entry_id _ = None"

fun user_view :: "'v queue_entry \<Rightarrow> user_entry option" where
  "user_view (UserEntry u) = Some u"
| "user_view _ = None"

definition user_ref :: "'v queue_entry \<Rightarrow> queue_entry_ref option" where
  "user_ref e = map_option (\<lambda>u. \<lparr>ref_id = ue_id u, ref_rev = ue_rev u\<rparr>) (user_view e)"

fun entry_attachments :: "'v queue_entry \<Rightarrow> bound_attachment list" where
  "entry_attachments (UserEntry u) = ue_attachments u"
| "entry_attachments _ = []"

fun entry_hard_fire :: "'v queue_entry \<Rightarrow> bool" where
  "entry_hard_fire (SystemEntry ob _ _) = is_hard_fire ob"
| "entry_hard_fire _ = is_hard_fire (UserMessage [] :: unit observation)"

fun entry_report_sha256 :: "'v queue_entry \<Rightarrow> string option" where
  "entry_report_sha256 (SystemEntry ob _ _) = report_sha256 ob"
| "entry_report_sha256 _ = None"

fun hook_idempotency_key :: "'v queue_entry \<Rightarrow> string option" where
  "hook_idempotency_key (SystemEntry (WorkerHookStop _ _ _ key) _ _) = (if key = [] then None else Some key)"
| "hook_idempotency_key _ = None"

section \<open>Mutations\<close>

datatype queue_mutation =
    Edit queue_entry_id string u32
  | Delete queue_entry_id u32
  | Steer queue_entry_id u32

fun mutation_entry_id :: "queue_mutation \<Rightarrow> queue_entry_id" where
  "mutation_entry_id (Edit i _ _) = i"
| "mutation_entry_id (Delete i _) = i"
| "mutation_entry_id (Steer i _) = i"

fun if_entry_rev :: "queue_mutation \<Rightarrow> u32" where
  "if_entry_rev (Edit _ _ r) = r"
| "if_entry_rev (Delete _ r) = r"
| "if_entry_rev (Steer _ r) = r"

fun needs_revision :: "queue_mutation \<Rightarrow> bool" where
  "needs_revision (Delete _ _) = False"
| "needs_revision _ = True"

datatype queue_change = Edited | Deleted | Steered | Restored | Dropped

record 'v mutation_applied =
  ma_entry_id :: queue_entry_id
  ma_change :: queue_change
  ma_rev :: u32
  ma_text :: "string option"
  ma_removed :: "'v queue_entry option"
  ma_queue_now_empty :: bool
  ma_remaining_hard_fire :: bool

datatype mutation_refused =
    EntryNotFound
  | StaleRev queue_entry_id string u32
  | AmbiguousId queue_entry_id nat
  | RevisionExhausted queue_entry_id
  | Panicked

definition matching_indices :: "'v queue_entry list \<Rightarrow> queue_entry_id \<Rightarrow> nat list" where
  "matching_indices q i = map fst (filter (\<lambda>(_, e). entry_id e = Some i) (enumerate 0 q))"

definition locate_entry ::
  "'v queue_entry list \<Rightarrow> queue_entry_id \<Rightarrow> u32 \<Rightarrow> (nat, mutation_refused) result" where
  "locate_entry q i r =
     (case matching_indices q i of
        [] \<Rightarrow> Inl EntryNotFound
      | [k] \<Rightarrow>
          (case user_view (q ! k) of
             None \<Rightarrow> Inl Panicked
           | Some v \<Rightarrow>
               if ue_rev v \<noteq> r then Inl (StaleRev i (ue_text v) (ue_rev v)) else Inr k)
      | many \<Rightarrow> Inl (AmbiguousId i (length many)))"

definition remove_at :: "nat \<Rightarrow> 'a list \<Rightarrow> 'a list" where
  "remove_at k xs = take k xs @ drop (Suc k) xs"

definition applied ::
  "queue_entry_id \<Rightarrow> queue_change \<Rightarrow> u32 \<Rightarrow> string option \<Rightarrow> 'v queue_entry option \<Rightarrow> 'v queue_entry list \<Rightarrow>
     'v queue_entry list \<times> 'v mutation_applied" where
  "applied i change r text removed q =
     (q, \<lparr>ma_entry_id = i, ma_change = change, ma_rev = r, ma_text = text, ma_removed = removed,
          ma_queue_now_empty = (q = []), ma_remaining_hard_fire = (\<exists>e \<in> set q. entry_hard_fire e)\<rparr>)"

definition apply_mutation ::
  "'v queue_entry list \<Rightarrow> queue_mutation \<Rightarrow>
     ('v queue_entry list \<times> 'v mutation_applied, mutation_refused) result" where
  "apply_mutation q m =
     and_then (locate_entry q (mutation_entry_id m) (if_entry_rev m)) (\<lambda>k.
       case user_view (q ! k) of
         None \<Rightarrow> Inl Panicked
       | Some u \<Rightarrow>
           if needs_revision m \<and> ue_rev u = - 1 then Inl (RevisionExhausted (mutation_entry_id m))
           else Inr (case m of
              Edit i text _ \<Rightarrow>
                applied i Edited (ue_rev u + 1) (Some text) None
                  (q[k := UserEntry (u\<lparr>ue_text := text, ue_rev := ue_rev u + 1\<rparr>)])
            | Delete i _ \<Rightarrow> applied i Deleted (ue_rev u) None None (remove_at k q)
            | Steer i _ \<Rightarrow> applied i Steered (ue_rev u) None (Some (q ! k)) (remove_at k q)))"

section \<open>Folding into the tail\<close>

datatype fold_outcome = NotFolded | Folded "queue_entry_id option"

definition MAX_ATTACHMENTS_PER_MESSAGE :: nat where
  "MAX_ATTACHMENTS_PER_MESSAGE = 8"

definition usize_max :: nat where
  "usize_max = 2 ^ 64 - 1"

definition saturating_add :: "nat \<Rightarrow> nat \<Rightarrow> nat" where
  "saturating_add a b = min (a + b) usize_max"

definition fold_user_text :: "string \<Rightarrow> string \<Rightarrow> nat \<Rightarrow> string option" where
  "fold_user_text text new_text max_chars =
     (if saturating_add (saturating_add (chars_count text) (chars_count new_text)) 2 > max_chars
      then None else Some (text @ [CHR 10, CHR 10] @ new_text))"

definition new_attachments ::
  "bound_attachment list \<Rightarrow> bound_attachment list \<Rightarrow> bound_attachment list" where
  "new_attachments held incoming =
     filter (\<lambda>a. \<not> (\<exists>h \<in> set held. att_id h = att_id a)) incoming"

definition fold_report_edit :: "report_edit \<Rightarrow> report_edit \<Rightarrow> report_edit option" where
  "fold_report_edit held incoming =
     (if re_track_id held = re_track_id incoming \<and> re_presentation incoming \<noteq> Legacy then Some incoming
      else if re_presentation held = Legacy \<and> re_presentation incoming = Legacy \<and>
        re_track_id held = re_track_id incoming \<and> re_body_before incoming = Some (re_body held)
      then Some (held\<lparr>re_body_sha256 := re_body_sha256 incoming, re_body := re_body incoming,
             re_author := re_author incoming, re_doc_rev_after := re_doc_rev_after incoming,
             re_blocks_after := re_blocks_after incoming\<rparr>)
      else None)"

definition fold_observation :: "'v observation \<Rightarrow> 'v observation \<Rightarrow> 'v observation option" where
  "fold_observation held incoming =
     (case held of
        TrackGoal _ \<Rightarrow> (case incoming of TrackGoal text \<Rightarrow> Some (TrackGoal text) | _ \<Rightarrow> None)
      | ReportEdited e \<Rightarrow>
          (case incoming of ReportEdited f \<Rightarrow> map_option ReportEdited (fold_report_edit e f) | _ \<Rightarrow> None)
      | _ \<Rightarrow> None)"

fun fold_into :: "nat \<Rightarrow> 'v queue_entry \<Rightarrow> 'v queue_entry \<Rightarrow> 'v queue_entry option" where
  "fold_into max_chars (UserEntry u) (UserEntry w) =
     (let merged = new_attachments (ue_attachments u) (ue_attachments w)
      in if ue_rev u = - 1 \<or> length (ue_attachments u) + length merged > MAX_ATTACHMENTS_PER_MESSAGE
         then None
         else map_option (\<lambda>text. UserEntry (u\<lparr>ue_text := text, ue_rev := ue_rev u + 1,
                ue_attachments := ue_attachments u @ merged\<rparr>))
              (fold_user_text (ue_text u) (ue_text w) max_chars))"
| "fold_into max_chars (LegacyUser text env mids) (UserEntry w) =
     (if ue_attachments w = []
      then map_option (\<lambda>t. LegacyUser t env mids) (fold_user_text text (ue_text w) max_chars)
      else None)"
| "fold_into max_chars (SystemEntry held env mids) (SystemEntry incoming _ _) =
     map_option (\<lambda>ob. SystemEntry ob env mids) (fold_observation held incoming)"
| "fold_into _ _ _ = None"

definition try_fold_tail ::
  "'v queue_entry list \<Rightarrow> 'v queue_entry \<Rightarrow> nat \<Rightarrow> 'v queue_entry list \<times> fold_outcome" where
  "try_fold_tail q incoming max_chars =
     (if q = [] then (q, NotFolded)
      else case fold_into max_chars (last q) incoming of
        None \<Rightarrow> (q, NotFolded)
      | Some survivor \<Rightarrow>
          let s = set_message_ids (message_ids survivor @ message_ids incoming)
                    (set_envelope_id (envelope_id incoming) survivor)
          in (butlast q @ [s], Folded (entry_id s)))"

fun is_report_edit :: "'v queue_entry \<Rightarrow> bool" where
  "is_report_edit (SystemEntry (ReportEdited _) _ _) = True"
| "is_report_edit _ = False"

definition try_fold_report_edit_tail ::
  "'v queue_entry list \<Rightarrow> 'v queue_entry \<Rightarrow> 'v queue_entry list \<times> fold_outcome" where
  "try_fold_report_edit_tail q incoming =
     (if is_report_edit incoming \<and> q \<noteq> [] \<and> is_report_edit (last q)
      then try_fold_tail q incoming 0 else (q, NotFolded))"

end
