(* ===== verification/Harness_Intake.thy ===== *)
theory Harness_Intake
  imports Harness_Queue "HOL-Library.While_Combinator"
begin

text \<open>
  What the run loop does with the queue (crates/calm-server/src/harness/run\_loop.rs): admission under
  the length cap with folding and eviction, suppression of repeated hook stops through a bounded
  memory of keys, the debounce state, putting a drained batch back at the head, truncation of a
  loaded snapshot; and the replay of missed events at boot (harness/mod.rs). The state is the record
  \<open>intake\<close> of the fields of \<open>Inner\<close> these functions touch; an \<open>Instant\<close> is a number. A harness whose inputs
  belong to its conversation (\<open>canonical_inputs\<close>) has no queue of its own: \<open>historical_queue\<close> fails there.
\<close>

section \<open>State\<close>

definition MAX_PENDING_QUEUE_LEN :: nat where
  "MAX_PENDING_QUEUE_LEN = 256"

definition RECENT_HOOK_KEY_CACHE_LEN :: nat where
  "RECENT_HOOK_KEY_CACHE_LEN = 256"

definition MAX_FOLDED_USER_MESSAGE_CHARS :: nat where
  "MAX_FOLDED_USER_MESSAGE_CHARS = 4 * 32768"

record debounce_state =
  first_pending_at :: "nat option"
  last_pending_at :: "nat option"
  hard_fire :: bool

definition debounce_default :: debounce_state where
  "debounce_default = \<lparr>first_pending_at = None, last_pending_at = None, hard_fire = False\<rparr>"

record 'v intake =
  pending :: "'v queue_entry list"
  push_watermark :: int
  recent_hook_keys :: "string list"
  recent_hook_key_set :: "string set"
  last_report_body_sha256 :: "string option"
  debounce :: debounce_state
  canonical_inputs :: bool

definition debounce_from_initial_queue :: "nat \<Rightarrow> 'v queue_entry list \<Rightarrow> debounce_state" where
  "debounce_from_initial_queue now q =
     (if q = [] then debounce_default
      else \<lparr>first_pending_at = Some now, last_pending_at = Some now,
            hard_fire = (\<exists>e \<in> set q. entry_hard_fire e)\<rparr>)"

section \<open>Memory of hook keys\<close>

function evict_keys :: "string list \<Rightarrow> string set \<Rightarrow> string list \<times> string set" where
  "evict_keys ks s =
     (if length ks > RECENT_HOOK_KEY_CACHE_LEN then evict_keys (tl ks) (s - {hd ks}) else (ks, s))"
  by pat_completeness auto
termination by (relation "measure (length \<circ> fst)") auto

declare evict_keys.simps [simp del]

definition remember_key :: "string \<Rightarrow> string list \<times> string set \<Rightarrow> string list \<times> string set" where
  "remember_key key m = evict_keys (fst m @ [key]) (insert key (snd m))"

fun recent_hook_keys_from :: "string list \<times> string set \<Rightarrow> 'v queue_entry list \<Rightarrow> string list \<times> string set" where
  "recent_hook_keys_from m [] = m"
| "recent_hook_keys_from m (e # q) =
     recent_hook_keys_from
       (case hook_idempotency_key e of
          None \<Rightarrow> m
        | Some key \<Rightarrow> if key \<in> snd m then m else remember_key key m) q"

definition recent_hook_keys_from_pending_queue :: "'v queue_entry list \<Rightarrow> string list \<times> string set" where
  "recent_hook_keys_from_pending_queue q = recent_hook_keys_from ([], {}) q"

definition suppress_duplicate_hook_stop :: "'v intake \<Rightarrow> 'v queue_entry \<Rightarrow> 'v intake \<times> bool" where
  "suppress_duplicate_hook_stop st e =
     (case hook_idempotency_key e of
        None \<Rightarrow> (st, False)
      | Some key \<Rightarrow>
          if key \<in> recent_hook_key_set st then (st, True)
          else let m = remember_key key (recent_hook_keys st, recent_hook_key_set st)
               in (st\<lparr>recent_hook_keys := fst m, recent_hook_key_set := snd m\<rparr>, False))"

section \<open>Admission\<close>

datatype enqueue_outcome = Unsupported | Rejected | Accepted "queue_entry_id option"

fun position :: "('a \<Rightarrow> bool) \<Rightarrow> 'a list \<Rightarrow> nat option" where
  "position P [] = None"
| "position P (x # xs) = (if P x then Some 0 else map_option Suc (position P xs))"

definition historical_queue :: "'v intake \<Rightarrow> 'v queue_entry list option" where
  "historical_queue st = (if canonical_inputs st then None else Some (pending st))"

definition enqueue_historical ::
  "'v queue_entry list \<Rightarrow> 'v queue_entry \<Rightarrow> 'v queue_entry list \<times> enqueue_outcome" where
  "enqueue_historical q e =
     (case try_fold_report_edit_tail q e of
        (q', Folded i) \<Rightarrow> (q', Accepted i)
      | (_, NotFolded) \<Rightarrow>
          if length q \<ge> MAX_PENDING_QUEUE_LEN then
            (case try_fold_tail q e MAX_FOLDED_USER_MESSAGE_CHARS of
               (q', Folded i) \<Rightarrow> (q', Accepted i)
             | (_, NotFolded) \<Rightarrow>
                 (case position (\<lambda>x. \<not> entry_hard_fire x) q of
                    None \<Rightarrow> (q, Rejected)
                  | Some k \<Rightarrow> (remove_at k q @ [e], Accepted (entry_id e))))
          else (q @ [e], Accepted (entry_id e)))"

definition enqueue_pending_observation ::
  "'v intake \<Rightarrow> 'v queue_entry \<Rightarrow> 'v intake \<times> enqueue_outcome" where
  "enqueue_pending_observation st e =
     (case historical_queue st of
        None \<Rightarrow> (st, Unsupported)
      | Some queue \<Rightarrow> (case enqueue_historical queue e of (q, outcome) \<Rightarrow> (st\<lparr>pending := q\<rparr>, outcome)))"

definition on_observation :: "nat \<Rightarrow> 'v intake \<Rightarrow> 'v queue_entry \<Rightarrow> 'v intake \<times> enqueue_outcome" where
  "on_observation now st e =
     (let st1 = (case envelope_id e of
                   None \<Rightarrow> st
                 | Some env \<Rightarrow> st\<lparr>push_watermark := max (push_watermark st) env\<rparr>);
          (st2, dup) = suppress_duplicate_hook_stop st1 e
      in if dup then (st2, Rejected)
         else let (st3, outcome) = enqueue_pending_observation st2 e
              in if outcome = Rejected then (st3, outcome)
                 else
                   (st3\<lparr>last_report_body_sha256 :=
                          (case entry_report_sha256 e of
                             None \<Rightarrow> last_report_body_sha256 st3 | Some h \<Rightarrow> Some h),
                        debounce :=
                          \<lparr>first_pending_at =
                             (case first_pending_at (debounce st3) of None \<Rightarrow> Some now | Some t \<Rightarrow> Some t),
                           last_pending_at = Some now,
                           hard_fire = (hard_fire (debounce st3) \<or> entry_hard_fire e)\<rparr>\<rparr>,
                    outcome))"

section \<open>Draining and putting back\<close>

definition drain :: "'v intake \<Rightarrow> 'v intake \<times> 'v queue_entry list" where
  "drain st =
     (if pending st = [] then (st, [])
      else (st\<lparr>pending := [], debounce := debounce_default\<rparr>, pending st))"

definition rebuffer_head :: "nat \<Rightarrow> 'v intake \<Rightarrow> 'v queue_entry list \<Rightarrow> 'v intake" where
  "rebuffer_head now st drained =
     st\<lparr>pending := foldl (\<lambda>q e. e # q) (pending st) (rev drained),
        debounce := \<lparr>first_pending_at = Some now, last_pending_at = Some now, hard_fire = True\<rparr>\<rparr>"

definition restore_entries :: "nat \<Rightarrow> 'v intake \<Rightarrow> 'v queue_entry list \<Rightarrow> 'v intake" where
  "restore_entries now st restored =
     (if restored = [] then st
      else rebuffer_head now st (map (\<lambda>e. fst (bump_rev_for_restore e)) restored))"

section \<open>Loading a snapshot\<close>

definition truncate_pending :: "'v queue_entry list \<Rightarrow> 'v queue_entry list \<times> queue_entry_id list" where
  "truncate_pending q =
     (if length q \<le> MAX_PENDING_QUEUE_LEN then (q, [])
      else let drop_count = length q - MAX_PENDING_QUEUE_LEN
           in (drop drop_count q, List.map_filter entry_id (take drop_count q)))"

text \<open>The replay of missed observations, with the watermark and whether any was replayed.\<close>

fun replay_entries ::
  "'v queue_entry list \<times> int \<times> nat \<Rightarrow> (int \<times> 'v observation) list \<Rightarrow> 'v queue_entry list \<times> int \<times> nat" where
  "replay_entries acc [] = acc"
| "replay_entries (q, mark, n) ((i, ob) # obs) =
     replay_entries
       (case system_entry ob (Some i) of
          Inl _ \<Rightarrow> (q, mark, n)
        | Inr e \<Rightarrow>
            ((case try_fold_report_edit_tail q e of
                (q', Folded _) \<Rightarrow> q' | (_, NotFolded) \<Rightarrow> q @ [e]),
             max mark i, Suc n)) obs"

end
