(* ===== verification/Harness_Snapshot.thy ===== *)
theory Harness_Snapshot
  imports Harness_Intake
begin

text \<open>
  The pending queue on disk (crates/calm-server/src/harness/snapshot.rs): four arrays beside each
  other, written together by \<open>set_pending_entries\<close> and zipped by \<open>pending_entries\<close>, where a short
  side reads as absent. The element decoders of serde are a parameter: an element that does not parse
  is \<open>None\<close> (or empty) and keeps its position.
\<close>

section \<open>The stored arrays\<close>

record queue_entry_meta =
  qm_id :: queue_entry_id
  qm_rev :: u32
  qm_queued_at_ms :: int
  qm_attachments :: "bound_attachment list"

record 'v pending_arrays =
  pending_queue :: "'v observation option list"
  pending_envelope_ids :: "int option list"
  pending_entry_meta :: "queue_entry_meta option list"
  pending_message_ids :: "string list list"

definition slot :: "'a option list \<Rightarrow> nat \<Rightarrow> 'a option" where
  "slot xs k = (if k < length xs then xs ! k else None)"

definition slot_ids :: "string list list \<Rightarrow> nat \<Rightarrow> string list" where
  "slot_ids xs k = (if k < length xs then xs ! k else [])"

definition entry_at :: "'v pending_arrays \<Rightarrow> nat \<times> 'v observation option \<Rightarrow> 'v queue_entry option" where
  "entry_at p ko =
     (case snd ko of
        None \<Rightarrow> None
      | Some ob \<Rightarrow>
          let env = slot (pending_envelope_ids p) (fst ko);
              meta = slot (pending_entry_meta p) (fst ko);
              mids = slot_ids (pending_message_ids p) (fst ko)
          in Some (case ob of
               UserMessage text \<Rightarrow>
                 (case meta of
                    Some m \<Rightarrow> UserEntry \<lparr>ue_id = qm_id m, ue_text = text, ue_rev = qm_rev m,
                      ue_queued_at_ms = qm_queued_at_ms m, ue_envelope_id = env,
                      ue_message_ids = mids, ue_attachments = qm_attachments m\<rparr>
                  | None \<Rightarrow> LegacyUser text env mids)
             | _ \<Rightarrow> SystemEntry ob env mids))"

definition pending_entries :: "'v pending_arrays \<Rightarrow> 'v queue_entry list" where
  "pending_entries p = List.map_filter (entry_at p) (enumerate 0 (pending_queue p))"

fun entry_meta :: "'v queue_entry \<Rightarrow> queue_entry_meta option" where
  "entry_meta (UserEntry u) = Some \<lparr>qm_id = ue_id u, qm_rev = ue_rev u,
     qm_queued_at_ms = ue_queued_at_ms u, qm_attachments = ue_attachments u\<rparr>"
| "entry_meta _ = None"

definition set_pending_entries :: "'v queue_entry list \<Rightarrow> 'v pending_arrays" where
  "set_pending_entries es =
     \<lparr>pending_queue = map (\<lambda>e. Some (entry_observation e)) es,
      pending_envelope_ids = map envelope_id es,
      pending_entry_meta = map entry_meta es,
      pending_message_ids = map message_ids es\<rparr>"

definition pending_observations :: "'v pending_arrays \<Rightarrow> 'v observation list" where
  "pending_observations p = List.map_filter id (pending_queue p)"

definition pending_len :: "'v pending_arrays \<Rightarrow> nat" where
  "pending_len p = length (filter (\<lambda>ob. ob \<noteq> None) (pending_queue p))"

section \<open>Decoding\<close>

text \<open>\<open>parse\<close> is serde on one element.\<close>

definition lenient_parallel_array :: "('j \<Rightarrow> 'a option) \<Rightarrow> 'a \<Rightarrow> 'j list \<Rightarrow> 'a list" where
  "lenient_parallel_array parse default_value raw =
     map (\<lambda>v. case parse v of None \<Rightarrow> default_value | Some a \<Rightarrow> a) raw"

fun decode_meta ::
  "('j \<Rightarrow> queue_entry_meta option) \<Rightarrow> string set \<Rightarrow> 'j list \<Rightarrow> queue_entry_meta option list" where
  "decode_meta parse seen [] = []"
| "decode_meta parse seen (v # raw) =
     (case parse v of
        None \<Rightarrow> None # decode_meta parse seen raw
      | Some m \<Rightarrow>
          if qm_id m = [] \<or> qm_id m \<in> seen then None # decode_meta parse seen raw
          else Some m # decode_meta parse (insert (qm_id m) seen) raw)"

definition deserialize_pending_entry_meta ::
  "('j \<Rightarrow> queue_entry_meta option) \<Rightarrow> 'j list \<Rightarrow> queue_entry_meta option list" where
  "deserialize_pending_entry_meta parse raw = decode_meta parse {} raw"

definition truncate_snapshot_pending_queue :: "'v pending_arrays \<Rightarrow> 'v pending_arrays \<times> queue_entry_id list" where
  "truncate_snapshot_pending_queue p =
     (if pending_len p \<le> MAX_PENDING_QUEUE_LEN then (p, [])
      else let (kept, dropped) = truncate_pending (pending_entries p)
           in (set_pending_entries kept, dropped))"

end
