(* ===== verification/Harness_Queue_Facts.thy ===== *)
theory Harness_Queue_Facts
  imports Harness_Snapshot
begin

text \<open>
  Facts on the pending queue. \<open>queue_view\<close> is what a client addresses: the user entry of each id. On
  a queue whose ids are distinct, a mutation is a guarded update of that view (\<open>apply_mutation_spec\<close>);
  folding and admission keep the ids, the message instances and the bounds of the queue; the arrays
  on disk give the queue back.
\<close>

section \<open>The addressable view\<close>

definition users :: "'v queue_entry list \<Rightarrow> user_entry list" where
  "users q = List.map_filter user_view q"

definition unique_ids :: "'v queue_entry list \<Rightarrow> bool" where
  "unique_ids q \<longleftrightarrow> distinct (map ue_id (users q))"

definition queue_view :: "'v queue_entry list \<Rightarrow> queue_entry_id \<rightharpoonup> user_entry" where
  "queue_view q = map_of (map (\<lambda>u. (ue_id u, u)) (users q))"

lemma users_simps [simp]:
  "users [] = []" "users (UserEntry u # q) = u # users q"
  "users (LegacyUser t v ms # q) = users q" "users (SystemEntry ob v ms # q) = users q"
  "users (q @ q') = users q @ users q'"
  by (simp_all add: users_def List.map_filter_def)

lemma set_users: "u \<in> set (users q) \<longleftrightarrow> UserEntry u \<in> set q"
proof (induction q)
  case (Cons e q)
  then show ?case by (cases e) auto
qed simp

lemma entry_id_Some: "entry_id e = Some i \<longleftrightarrow> (\<exists>u. e = UserEntry u \<and> ue_id u = i)"
  by (cases e) auto

lemma set_matching: "set (matching_indices q i) = {k. k < length q \<and> entry_id (q ! k) = Some i}"
  by (force simp: matching_indices_def in_set_enumerate_eq image_iff)

lemma distinct_matching: "distinct (matching_indices q i)"
  by (simp add: matching_indices_def distinct_map_filter)

lemma unique_ids_index:
  assumes "unique_ids q" "j < length q" "k < length q" "entry_id (q ! j) = Some i" "entry_id (q ! k) = Some i"
  shows "j = k"
  using assms
proof (induction q arbitrary: j k)
  case (Cons e q)
  have ids: "entry_id (q ! m) = Some i \<Longrightarrow> m < length q \<Longrightarrow> i \<in> ue_id ` set (users q)" for m
    by (auto simp: entry_id_Some) (metis imageI nth_mem set_users)
  have "unique_ids q" using Cons.prems(1) by (cases e) (auto simp: unique_ids_def)
  moreover have "entry_id e = Some i \<Longrightarrow> i \<notin> ue_id ` set (users q)"
    using Cons.prems(1) by (cases e) (auto simp: unique_ids_def)
  ultimately show ?case using Cons ids by (cases j; cases k) auto
qed simp

lemma matching_unique:
  assumes "unique_ids q" "k < length q" "entry_id (q ! k) = Some i"
  shows "matching_indices q i = [k]"
proof -
  have "set (matching_indices q i) = {k}"
    using assms unique_ids_index [OF assms(1)] by (auto simp: set_matching)
  then show ?thesis using distinct_matching [of q i]
    by (metis distinct.simps(2) empty_iff insertI1 list.exhaust list.set(1) list.set_intros(1,2) singletonD)
qed

lemma queue_view_Some:
  assumes "unique_ids q"
  shows "queue_view q i = Some u \<longleftrightarrow> (\<exists>k < length q. q ! k = UserEntry u \<and> ue_id u = i)"
proof -
  have "queue_view q i = Some u \<longleftrightarrow> u \<in> set (users q) \<and> ue_id u = i"
    using assms by (auto simp: queue_view_def unique_ids_def map_of_eq_Some_iff comp_def)
  then show ?thesis by (metis set_users in_set_conv_nth)
qed

lemma queue_view_None: "queue_view q i = None \<longleftrightarrow> (\<forall>k < length q. entry_id (q ! k) \<noteq> Some i)"
proof -
  have "queue_view q i = None \<longleftrightarrow> (\<forall>u \<in> set (users q). ue_id u \<noteq> i)"
    by (force simp: queue_view_def map_of_eq_None_iff)
  also have "\<dots> \<longleftrightarrow> (\<forall>e \<in> set q. entry_id e \<noteq> Some i)" by (auto simp: set_users entry_id_Some)
  finally show ?thesis by (metis in_set_conv_nth)
qed

section \<open>Mutations\<close>

lemma locate_found:
  assumes "unique_ids q" "k < length q" "q ! k = UserEntry u" "ue_id u = i"
  shows "locate_entry q i r = (if ue_rev u \<noteq> r then Inl (StaleRev i (ue_text u) (ue_rev u)) else Inr k)"
  using matching_unique [OF assms(1,2), of i] assms(3,4) by (simp add: locate_entry_def)

lemma locate_missing: "queue_view q i = None \<Longrightarrow> locate_entry q i r = Inl EntryNotFound"
proof -
  assume "queue_view q i = None"
  then have "set (matching_indices q i) = {}" by (auto simp: queue_view_None set_matching)
  then show ?thesis by (simp add: locate_entry_def)
qed

lemma locate_never_panics: "locate_entry q i r \<noteq> Inl Panicked"
proof -
  have "user_view (q ! k) \<noteq> None" if "matching_indices q i = [k]" for k
  proof -
    have "k \<in> set (matching_indices q i)" using that by simp
    then show ?thesis by (auto simp: set_matching entry_id_Some)
  qed
  then show ?thesis by (auto simp: locate_entry_def split: list.split option.split)
qed

lemma locate_Inr_user: "locate_entry q i r = Inr k \<Longrightarrow> k < length q \<and> (\<exists>u. q ! k = UserEntry u \<and> ue_id u = i)"
proof -
  assume "locate_entry q i r = Inr k"
  then have "matching_indices q i = [k]"
    by (auto simp: locate_entry_def split: list.splits option.splits if_splits)
  then have "k \<in> set (matching_indices q i)" by simp
  then show ?thesis by (auto simp: set_matching entry_id_Some)
qed

lemma apply_mutation_never_panics: "apply_mutation q m \<noteq> Inl Panicked"
proof (cases "locate_entry q (mutation_entry_id m) (if_entry_rev m)")
  case (Inl r)
  then show ?thesis using locate_never_panics by (auto simp: apply_mutation_def)
next
  case (Inr k)
  then show ?thesis using locate_Inr_user [OF Inr] by (auto simp: apply_mutation_def split: if_splits)
qed

lemma users_take_drop: "k < length q \<Longrightarrow> q ! k = UserEntry u \<Longrightarrow>
    users q = users (take k q) @ u # users (drop (Suc k) q)"
  by (metis id_take_nth_drop users_simps(2,5))

lemma users_remove_at: "users (remove_at k q) = users (take k q) @ users (drop (Suc k) q)"
  by (simp add: remove_at_def)

lemma users_update:
  "k < length q \<Longrightarrow> users (q[k := UserEntry v]) = users (take k q) @ v # users (drop (Suc k) q)"
  by (simp add: upd_conv_take_nth_drop)

definition keyed :: "user_entry list \<Rightarrow> queue_entry_id \<rightharpoonup> user_entry" where
  "keyed us = map_of (map (\<lambda>u. (ue_id u, u)) us)"

lemma keyed_None: "keyed us i = None \<longleftrightarrow> i \<notin> ue_id ` set us"
  by (induction us) (auto simp: keyed_def)

lemma keyed_Cons: "keyed (u # us) = (keyed us)(ue_id u \<mapsto> u)"
  by (simp add: keyed_def)

lemma keyed_append: "keyed (us @ ws) = keyed ws ++ keyed us"
  by (simp add: keyed_def)

lemma queue_view_keyed: "queue_view q = keyed (users q)"
  by (simp add: queue_view_def keyed_def)

lemma view_parts:
  assumes "unique_ids q" "k < length q" "q ! k = UserEntry u"
  shows "queue_view (q[k := UserEntry (u\<lparr>ue_text := t, ue_rev := r\<rparr>)]) =
      (queue_view q)(ue_id u \<mapsto> u\<lparr>ue_text := t, ue_rev := r\<rparr>)"
    and "queue_view (remove_at k q) = (queue_view q)(ue_id u := None)"
    and "unique_ids (q[k := UserEntry (u\<lparr>ue_text := t, ue_rev := r\<rparr>)])"
    and "unique_ids (remove_at k q)"
proof -
  have d: "distinct (map ue_id (users (take k q)) @ ue_id u # map ue_id (users (drop (Suc k) q)))"
    using assms by (simp add: unique_ids_def users_take_drop [OF assms(2,3)])
  then show "unique_ids (q[k := UserEntry (u\<lparr>ue_text := t, ue_rev := r\<rparr>)])" "unique_ids (remove_at k q)"
    using assms(2) by (simp_all add: unique_ids_def users_update users_remove_at)
  have none: "keyed (users (take k q)) (ue_id u) = None" "keyed (users (drop (Suc k) q)) (ue_id u) = None"
    using d by (auto simp: keyed_None)
  show "queue_view (q[k := UserEntry (u\<lparr>ue_text := t, ue_rev := r\<rparr>)]) =
      (queue_view q)(ue_id u \<mapsto> u\<lparr>ue_text := t, ue_rev := r\<rparr>)"
    using none assms(2) by (simp add: queue_view_keyed users_update users_take_drop [OF assms(2,3)]
        keyed_append keyed_Cons fun_eq_iff map_add_def split: option.split)
  show "queue_view (remove_at k q) = (queue_view q)(ue_id u := None)"
    using none by (simp add: queue_view_keyed users_remove_at users_take_drop [OF assms(2,3)]
        keyed_append keyed_Cons fun_eq_iff map_add_def split: option.split)
qed

text \<open>What a mutation does to the view, stated on the view alone.\<close>

definition view_mutation ::
  "(queue_entry_id \<rightharpoonup> user_entry) \<Rightarrow> queue_mutation \<Rightarrow>
     ((queue_entry_id \<rightharpoonup> user_entry) \<times> u32, mutation_refused) result" where
  "view_mutation v m =
     (case v (mutation_entry_id m) of
        None \<Rightarrow> Inl EntryNotFound
      | Some u \<Rightarrow>
          if ue_rev u \<noteq> if_entry_rev m then Inl (StaleRev (mutation_entry_id m) (ue_text u) (ue_rev u))
          else if needs_revision m \<and> ue_rev u = - 1 then Inl (RevisionExhausted (mutation_entry_id m))
          else Inr (case m of
             Edit i text _ \<Rightarrow> (v(i \<mapsto> u\<lparr>ue_text := text, ue_rev := ue_rev u + 1\<rparr>), ue_rev u + 1)
           | Delete i _ \<Rightarrow> (v(i := None), ue_rev u)
           | Steer i _ \<Rightarrow> (v(i := None), ue_rev u)))"

definition view_result ::
  "('v queue_entry list \<times> 'v mutation_applied, mutation_refused) result \<Rightarrow>
     ((queue_entry_id \<rightharpoonup> user_entry) \<times> u32, mutation_refused) result" where
  "view_result r = map_sum id (\<lambda>(q, a). (queue_view q, ma_rev a)) r"

lemma apply_mutation_spec:
  assumes "unique_ids q"
  shows "view_result (apply_mutation q m) = view_mutation (queue_view q) m"
proof (cases "queue_view q (mutation_entry_id m)")
  case None
  then show ?thesis
    by (simp add: apply_mutation_def locate_missing view_mutation_def view_result_def)
next
  case (Some u)
  then obtain k where k: "k < length q" "q ! k = UserEntry u" "ue_id u = mutation_entry_id m"
    using queue_view_Some [OF assms] by auto
  note v = view_parts [OF assms k(1,2)]
  show ?thesis
    using locate_found [OF assms k, of "if_entry_rev m"] k(2,3) v(1,2) Some
    by (cases m) (simp_all add: apply_mutation_def view_mutation_def view_result_def applied_def)
qed

lemma apply_mutation_unique:
  assumes "unique_ids q" "apply_mutation q m = Inr (q', a)"
  shows "unique_ids q'"
proof -
  obtain k where "locate_entry q (mutation_entry_id m) (if_entry_rev m) = Inr k"
    using assms(2) by (auto simp: apply_mutation_def and_then_Inr)
  moreover obtain u where k: "k < length q" "q ! k = UserEntry u" using locate_Inr_user calculation by blast
  ultimately show ?thesis
    using assms(2) view_parts(3,4) [OF assms(1) k]
    by (cases m) (auto simp: apply_mutation_def applied_def split: if_splits)
qed

section \<open>Folding\<close>

definition all_message_ids :: "'v queue_entry list \<Rightarrow> string list" where
  "all_message_ids q = concat (map message_ids q)"

lemma set_simps [simp]:
  "entry_id (set_envelope_id v e) = entry_id e" "entry_id (set_message_ids ms e) = entry_id e"
  "message_ids (set_envelope_id v e) = message_ids e" "message_ids (set_message_ids ms e) = ms"
  "envelope_id (set_envelope_id v e) = v" "envelope_id (set_message_ids ms e) = envelope_id e"
  "is_user_authored (set_envelope_id v e) = is_user_authored e"
  "is_user_authored (set_message_ids ms e) = is_user_authored e"
  "entry_attachments (set_envelope_id v e) = entry_attachments e"
  "entry_attachments (set_message_ids ms e) = entry_attachments e"
  by (cases e; simp)+

lemma fold_into_Some:
  assumes "fold_into n e f = Some g"
  shows "entry_id g = entry_id e" "message_ids g = message_ids e" "is_user_authored g = is_user_authored e"
    "is_user_authored f = is_user_authored e"
  using assms by (cases e; cases f; auto simp: Let_def split: if_splits)+

lemma try_fold_Folded:
  assumes "try_fold_tail q e n = (q', Folded i)"
  obtains g where "q \<noteq> []" "fold_into n (last q) e = Some g" "i = entry_id (last q)"
    "q' = butlast q @ [set_message_ids (message_ids g @ message_ids e) (set_envelope_id (envelope_id e) g)]"
  using assms fold_into_Some(1) by (auto simp: try_fold_tail_def Let_def split: if_splits option.splits)

lemma fold_keeps_ids:
  assumes "try_fold_tail q e n = (q', Folded i)"
  shows "map entry_id q' = map entry_id q" and "all_message_ids q' = all_message_ids q @ message_ids e"
proof -
  obtain g where g: "q \<noteq> []" "fold_into n (last q) e = Some g"
    "q' = butlast q @ [set_message_ids (message_ids g @ message_ids e) (set_envelope_id (envelope_id e) g)]"
    using try_fold_Folded [OF assms] by metis
  obtain init l where q: "q = init @ [l]" using g(1) by (metis append_butlast_last_id)
  show "map entry_id q' = map entry_id q" using g(2,3) fold_into_Some(1) [of n l e g] by (simp add: q)
  show "all_message_ids q' = all_message_ids q @ message_ids e"
    using g(2,3) fold_into_Some(2) [of n l e g] by (simp add: q all_message_ids_def)
qed

lemma try_fold_NotFolded: "try_fold_tail q e n = (q', NotFolded) \<Longrightarrow> q' = q"
  by (auto simp: try_fold_tail_def Let_def split: if_splits option.splits)

lemma try_fold_report_Folded:
  "try_fold_report_edit_tail q e = (q', Folded i) \<Longrightarrow> try_fold_tail q e 0 = (q', Folded i)"
  by (auto simp: try_fold_report_edit_tail_def split: if_splits)

lemma try_fold_report_NotFolded: "try_fold_report_edit_tail q e = (q', NotFolded) \<Longrightarrow> q' = q"
  by (auto simp: try_fold_report_edit_tail_def try_fold_NotFolded split: if_splits)

text \<open>The bounds a user entry keeps: its attachments are at most eight, with distinct ids.\<close>

definition attachments_ok :: "'v queue_entry \<Rightarrow> bool" where
  "attachments_ok e \<longleftrightarrow> length (entry_attachments e) \<le> MAX_ATTACHMENTS_PER_MESSAGE \<and>
     distinct (map att_id (entry_attachments e))"

lemma distinct_new_attachments:
  "distinct (map att_id xs) \<Longrightarrow> distinct (map att_id ys) \<Longrightarrow>
     distinct (map att_id (xs @ new_attachments xs ys))"
  by (auto simp: new_attachments_def distinct_map_filter)

lemma fold_into_attachments:
  assumes "fold_into n e f = Some g" "attachments_ok e" "attachments_ok f"
  shows "attachments_ok g"
  using assms
proof (cases e; cases f)
  fix u w assume e: "e = UserEntry u" "f = UserEntry w"
  then show ?thesis
    using assms distinct_new_attachments [of "ue_attachments u" "ue_attachments w"]
    by (auto simp: attachments_ok_def Let_def split: if_splits)
qed (auto simp: attachments_ok_def Let_def split: if_splits)

lemma fold_text_bound: "n < usize_max \<Longrightarrow> fold_user_text t s n = Some r \<Longrightarrow> chars_count r \<le> n"
  by (auto simp: fold_user_text_def saturating_add_def chars_count_def byte_of_def split: if_splits)

section \<open>Admission\<close>

lemma position_Some: "position P xs = Some k \<Longrightarrow> k < length xs \<and> P (xs ! k) \<and> (\<forall>j < k. \<not> P (xs ! j))"
proof (induction xs arbitrary: k)
  case (Cons x xs)
  then show ?case by (auto simp: nth_Cons less_Suc_eq_0_disj split: if_splits nat.splits)
qed simp

lemma position_None: "position P xs = None \<longleftrightarrow> (\<forall>x \<in> set xs. \<not> P x)"
  by (induction xs) auto

lemma soft_entry_system: "\<not> entry_hard_fire e \<Longrightarrow> \<exists>ob v ms. e = SystemEntry ob v ms"
  by (cases e) auto

lemma users_remove_system:
  "k < length q \<Longrightarrow> q ! k = SystemEntry ob v ms \<Longrightarrow> users (remove_at k q) = users q"
  by (metis id_take_nth_drop users_remove_at users_simps(4,5))

lemma length_remove_at [simp]: "k < length xs \<Longrightarrow> length (remove_at k xs) = length xs - 1"
  by (simp add: remove_at_def)

text \<open>The four ways an entry is admitted or refused.\<close>

lemma enqueue_cases:
  assumes "enqueue_historical q e = (q', out)"
  obtains (fold) n i where "try_fold_tail q e n = (q', Folded i)" "out = Accepted i"
      "n = 0 \<or> n = MAX_FOLDED_USER_MESSAGE_CHARS"
  | (evict) k where "length q \<ge> MAX_PENDING_QUEUE_LEN" "k < length q" "\<not> entry_hard_fire (q ! k)"
      "q' = remove_at k q @ [e]" "out = Accepted (entry_id e)"
  | (reject) "length q \<ge> MAX_PENDING_QUEUE_LEN" "\<forall>x \<in> set q. entry_hard_fire x" "q' = q" "out = Rejected"
  | (append) "length q < MAX_PENDING_QUEUE_LEN" "q' = q @ [e]" "out = Accepted (entry_id e)"
proof (cases "try_fold_report_edit_tail q e")
  case (Pair q1 o1)
  show ?thesis
  proof (cases o1)
    case (Folded i)
    then show ?thesis
      using assms Pair try_fold_report_Folded fold by (fastforce simp: enqueue_historical_def)
  next
    case NotFolded
    show ?thesis
    proof (cases "length q \<ge> MAX_PENDING_QUEUE_LEN")
      case False
      then show ?thesis
        using assms Pair NotFolded append by (simp add: enqueue_historical_def)
    next
      case True
      obtain q2 o2 where t: "try_fold_tail q e MAX_FOLDED_USER_MESSAGE_CHARS = (q2, o2)" by fastforce
      show ?thesis
        using assms Pair NotFolded True t fold evict reject position_Some [of "\<lambda>x. \<not> entry_hard_fire x" q]
          position_None [of "\<lambda>x. \<not> entry_hard_fire x" q]
        by (cases o2) (fastforce simp: enqueue_historical_def split: option.splits)+
    qed
  qed
qed

lemma users_entry_ids: "map ue_id (users q) = List.map_filter entry_id q"
proof (induction q)
  case (Cons e q)
  then show ?case by (cases e) (simp_all add: map_filter_simps)
qed (simp add: map_filter_simps)

lemma same_entry_ids_users:
  assumes "map entry_id q' = map entry_id q"
  shows "map ue_id (users q') = map ue_id (users q)"
  using assms
proof (induction q arbitrary: q')
  case (Cons e q)
  then obtain f r where "q' = f # r" "entry_id f = entry_id e" "map entry_id r = map entry_id q" by auto
  then show ?case using Cons.IH by (cases e; cases f) auto
qed simp

lemma enqueue_ids:
  assumes "enqueue_historical q e = (q', out)"
  shows "map ue_id (users q') = map ue_id (users q) \<or>
    map ue_id (users q') = map ue_id (users q) @ map ue_id (users [e])"
  using assms
proof (cases rule: enqueue_cases)
  case (fold n i)
  then show ?thesis using same_entry_ids_users fold_keeps_ids(1) by blast
next
  case (evict k)
  then obtain ob v ms where "q ! k = SystemEntry ob v ms" using soft_entry_system by blast
  then have "users (remove_at k q) = users q" using users_remove_system evict(2) by blast
  then show ?thesis using evict(4) by simp
qed simp_all

lemma enqueue_length:
  assumes "enqueue_historical q e = (q', out)" "length q \<le> MAX_PENDING_QUEUE_LEN"
  shows "length q' \<le> MAX_PENDING_QUEUE_LEN"
  using assms(1)
proof (cases rule: enqueue_cases)
  case (fold n i)
  then show ?thesis using assms(2) fold_keeps_ids(1) by (metis length_map)
next
  case (evict k)
  then show ?thesis using assms(2) by simp
qed (use assms(2) in simp_all)

end
