(* ===== verification/Harness_Machine.thy ===== *)
theory Harness_Machine
  imports Harness_Queue_Facts
begin

text \<open>
  The queue as a machine: observations arrive, people mutate entries, batches leave for a turn and
  come back when the turn was not taken. \<open>harness_step\<close> is one such step on the queue and the entries
  in flight; \<open>harness_inv\<close> is what every reachable state keeps: one id names one entry, among queue
  and flight together, attachments stay within their bound, and the memory of hook keys is exact.
\<close>

section \<open>Hook memory\<close>

definition memory_ok :: "string list \<times> string set \<Rightarrow> bool" where
  "memory_ok m \<longleftrightarrow> snd m = set (fst m) \<and> distinct (fst m) \<and> length (fst m) \<le> RECENT_HOOK_KEY_CACHE_LEN"

lemma evict_keys_while:
  "while_option (\<lambda>(ks, s). length ks > RECENT_HOOK_KEY_CACHE_LEN) (\<lambda>(ks, s). (tl ks, s - {hd ks})) (ks, s)
     = Some (evict_keys ks s)"
proof (induction ks s rule: evict_keys.induct)
  case (1 ks s)
  show ?case
  proof (cases "length ks > RECENT_HOOK_KEY_CACHE_LEN")
    case True
    then show ?thesis using 1 by (subst while_option_unfold, subst evict_keys.simps) simp
  next
    case False
    then show ?thesis by (subst while_option_unfold, subst evict_keys.simps) simp
  qed
qed

lemma evict_keys_take_drop:
  "evict_keys ks s = (let n = length ks - RECENT_HOOK_KEY_CACHE_LEN in (drop n ks, s - set (take n ks)))"
proof (induction ks s rule: evict_keys.induct)
  case (1 ks s)
  show ?case
  proof (cases "length ks > RECENT_HOOK_KEY_CACHE_LEN")
    case True
    then obtain k r where ks: "ks = k # r" by (cases ks) auto
    then have n: "length ks - RECENT_HOOK_KEY_CACHE_LEN = Suc (length r - RECENT_HOOK_KEY_CACHE_LEN)"
      using True by auto
    have "evict_keys ks s = evict_keys r (s - {k})" using True ks by (subst evict_keys.simps) simp
    also have "\<dots> = (drop (length r - RECENT_HOOK_KEY_CACHE_LEN) r,
                    s - {k} - set (take (length r - RECENT_HOOK_KEY_CACHE_LEN) r))"
      using 1 [OF True] ks by (simp add: Let_def)
    finally show ?thesis using n ks by (auto simp: Let_def)
  next
    case False
    then show ?thesis by (subst evict_keys.simps) simp
  qed
qed

lemma evict_keys_drop:
  "distinct ks \<Longrightarrow> evict_keys ks (set ks) =
     (drop (length ks - RECENT_HOOK_KEY_CACHE_LEN) ks,
      set (drop (length ks - RECENT_HOOK_KEY_CACHE_LEN) ks))"
proof (induction ks)
  case Nil
  then show ?case by (simp add: evict_keys.simps)
next
  case (Cons k ks)
  show ?case
  proof (cases "length (k # ks) > RECENT_HOOK_KEY_CACHE_LEN")
    case True
    then have "evict_keys (k # ks) (set (k # ks)) = evict_keys ks (set ks)"
      using Cons.prems by (subst evict_keys.simps) auto
    then show ?thesis using Cons True by (simp add: Suc_diff_le)
  next
    case False
    then show ?thesis by (subst evict_keys.simps) simp
  qed
qed

lemma remember_key_ok:
  assumes "memory_ok m" "key \<notin> snd m"
  shows "memory_ok (remember_key key m)"
    and "key \<in> snd (remember_key key m)"
proof -
  let ?ks = "fst m @ [key]"
  have d: "distinct ?ks" and s: "insert key (snd m) = set ?ks" using assms by (auto simp: memory_ok_def)
  have r: "remember_key key m = (drop (length ?ks - RECENT_HOOK_KEY_CACHE_LEN) ?ks,
      set (drop (length ?ks - RECENT_HOOK_KEY_CACHE_LEN) ?ks))"
    unfolding remember_key_def s by (rule evict_keys_drop [OF d])
  show "memory_ok (remember_key key m)"
    unfolding r using d
    by (auto simp: memory_ok_def RECENT_HOOK_KEY_CACHE_LEN_def dest: in_set_dropD)
  have "length ?ks - RECENT_HOOK_KEY_CACHE_LEN \<le> length (fst m)"
    using assms(1) by (simp add: memory_ok_def RECENT_HOOK_KEY_CACHE_LEN_def)
  then show "key \<in> snd (remember_key key m)" unfolding r by simp
qed

lemma recent_hook_keys_ok: "memory_ok m \<Longrightarrow> memory_ok (recent_hook_keys_from m q)"
  by (induction m q rule: recent_hook_keys_from.induct)
    (auto simp: remember_key_ok split: option.split)

lemma seeded_memory_ok: "memory_ok (recent_hook_keys_from_pending_queue q)"
  unfolding recent_hook_keys_from_pending_queue_def
  by (rule recent_hook_keys_ok) (simp add: memory_ok_def)

definition intake_memory :: "'v intake \<Rightarrow> string list \<times> string set" where
  "intake_memory st = (recent_hook_keys st, recent_hook_key_set st)"

lemma suppress_memory:
  assumes "suppress_duplicate_hook_stop st e = (st', dup)" "memory_ok (intake_memory st)"
  shows "memory_ok (intake_memory st')" and "pending st' = pending st"
    and "dup \<longleftrightarrow> (\<exists>key. hook_idempotency_key e = Some key \<and> key \<in> recent_hook_key_set st)"
  using assms remember_key_ok(1) [of "intake_memory st"]
  by (auto simp: suppress_duplicate_hook_stop_def intake_memory_def Let_def split: option.splits if_splits)

section \<open>Steps\<close>

type_synonym 'v harness = "'v intake \<times> 'v queue_entry list"

definition entry_ids :: "'v queue_entry list \<Rightarrow> queue_entry_id list" where
  "entry_ids q = map ue_id (users q)"

lemma entry_ids_append [simp]: "entry_ids (q @ q') = entry_ids q @ entry_ids q'"
  by (simp add: entry_ids_def)

lemma entry_ids_single [simp]: "entry_ids [] = []" "entry_ids [UserEntry u] = [ue_id u]"
  by (simp_all add: entry_ids_def)

text \<open>An arriving entry is new: its id, if it has one, names nothing queued or in flight.\<close>

definition fresh_entry :: "'v harness \<Rightarrow> 'v queue_entry \<Rightarrow> bool" where
  "fresh_entry h e \<longleftrightarrow>
     set (entry_ids [e]) \<inter> (set (entry_ids (pending (fst h))) \<union> set (entry_ids (snd h))) = {} \<and>
     attachments_ok e"

definition removed_entries :: "'v mutation_applied \<Rightarrow> 'v queue_entry list" where
  "removed_entries a = (case ma_removed a of None \<Rightarrow> [] | Some e \<Rightarrow> [e])"

inductive harness_step :: "'v harness \<Rightarrow> 'v harness \<Rightarrow> bool" where
  observe: "fresh_entry (st, fl) e \<Longrightarrow> on_observation now st e = (st', out) \<Longrightarrow>
     harness_step (st, fl) (st', fl)"
| mutate: "historical_queue st = Some q \<Longrightarrow> apply_mutation q m = Inr (q', a) \<Longrightarrow>
     harness_step (st, fl) (st\<lparr>pending := q'\<rparr>, fl @ removed_entries a)"
| issue: "\<not> canonical_inputs st \<Longrightarrow> drain st = (st', d) \<Longrightarrow> harness_step (st, fl) (st', fl @ d)"
| put_back: "\<not> canonical_inputs st \<Longrightarrow> harness_step (st, d @ fl) (rebuffer_head now st d, fl)"
| restore: "\<not> canonical_inputs st \<Longrightarrow> harness_step (st, d @ fl) (restore_entries now st d, fl)"
| deliver: "harness_step (st, d @ fl) (st, fl)"

inductive_cases harness_stepE: "harness_step h h'"

definition harness_inv :: "'v harness \<Rightarrow> bool" where
  "harness_inv h \<longleftrightarrow>
     distinct (entry_ids (snd h) @ entry_ids (pending (fst h))) \<and>
     (\<forall>e \<in> set (snd h) \<union> set (pending (fst h)). attachments_ok e) \<and>
     memory_ok (intake_memory (fst h))"

section \<open>Every step keeps the invariant\<close>

lemma rebuffer_pending [simp]: "pending (rebuffer_head now st d) = d @ pending st"
proof -
  have "foldl (\<lambda>q e. e # q) q (rev d) = d @ q" for q by (induction d arbitrary: q) auto
  then show ?thesis by (simp add: rebuffer_head_def)
qed

lemma rebuffer_memory [simp]: "intake_memory (rebuffer_head now st d) = intake_memory st"
  by (simp add: rebuffer_head_def intake_memory_def)

lemma bump_entry [simp]:
  "entry_id (fst (bump_rev_for_restore e)) = entry_id e"
  "attachments_ok (fst (bump_rev_for_restore e)) = attachments_ok e"
  "message_ids (fst (bump_rev_for_restore e)) = message_ids e"
  by (cases e; simp add: bump_rev_for_restore_def attachments_ok_def split: option.split)+

lemma entry_ids_bump [simp]: "entry_ids (map (\<lambda>e. fst (bump_rev_for_restore e)) d) = entry_ids d"
  unfolding entry_ids_def by (rule same_entry_ids_users) simp

lemma restore_pending:
  "pending (restore_entries now st d) = map (\<lambda>e. fst (bump_rev_for_restore e)) d @ pending st"
  by (simp add: restore_entries_def)

lemma restore_memory [simp]: "intake_memory (restore_entries now st d) = intake_memory st"
  by (simp add: restore_entries_def)

text \<open>A mutation rewrites or takes out one user entry.\<close>

lemma apply_mutation_shape:
  assumes "apply_mutation q m = Inr (q', a)"
  obtains k u where "k < length q" "q ! k = UserEntry u"
    "(\<exists>text. q' = q[k := UserEntry (u\<lparr>ue_text := text, ue_rev := ue_rev u + 1\<rparr>)] \<and> removed_entries a = []) \<or>
     q' = remove_at k q \<and> (removed_entries a = [] \<or> removed_entries a = [UserEntry u])"
proof -
  obtain k where l: "locate_entry q (mutation_entry_id m) (if_entry_rev m) = Inr k"
    using assms by (auto simp: apply_mutation_def and_then_Inr)
  then obtain u where k: "k < length q" "q ! k = UserEntry u" using locate_Inr_user by blast
  have "(\<exists>text. q' = q[k := UserEntry (u\<lparr>ue_text := text, ue_rev := ue_rev u + 1\<rparr>)] \<and> removed_entries a = []) \<or>
     q' = remove_at k q \<and> (removed_entries a = [] \<or> removed_entries a = [UserEntry u])"
    using assms l k
    by (cases m) (auto simp: apply_mutation_def applied_def removed_entries_def split: if_splits)
  then show ?thesis using that k by blast
qed

lemma mutate_ids:
  assumes "apply_mutation q m = Inr (q', a)" "distinct (entry_ids fl @ entry_ids q)"
  shows "distinct (entry_ids (fl @ removed_entries a) @ entry_ids q')"
proof -
  obtain k u where k: "k < length q" "q ! k = UserEntry u"
    and s: "(\<exists>text. q' = q[k := UserEntry (u\<lparr>ue_text := text, ue_rev := ue_rev u + 1\<rparr>)] \<and> removed_entries a = []) \<or>
     q' = remove_at k q \<and> (removed_entries a = [] \<or> removed_entries a = [UserEntry u])"
    using apply_mutation_shape [OF assms(1)] .
  define xs ys where "xs = map ue_id (users (take k q))" and "ys = map ue_id (users (drop (Suc k) q))"
  have d: "distinct (entry_ids fl @ xs @ ue_id u # ys)"
    using assms(2) by (simp add: xs_def ys_def entry_ids_def users_take_drop [OF k])
  have upd: "entry_ids (q[k := UserEntry (u\<lparr>ue_text := t, ue_rev := r\<rparr>)]) = xs @ ue_id u # ys" for t r
    using k(1) by (simp add: xs_def ys_def entry_ids_def users_update)
  have del: "entry_ids (remove_at k q) = xs @ ys"
    by (simp add: xs_def ys_def entry_ids_def users_remove_at)
  show ?thesis
    using s
  proof
    assume "\<exists>text. q' = q[k := UserEntry (u\<lparr>ue_text := text, ue_rev := ue_rev u + 1\<rparr>)] \<and> removed_entries a = []"
    then show ?thesis using d upd by auto
  next
    assume "q' = remove_at k q \<and> (removed_entries a = [] \<or> removed_entries a = [UserEntry u])"
    then show ?thesis using d del by auto
  qed
qed

lemma mutate_attachments:
  fixes q :: "'v queue_entry list"
  assumes "apply_mutation q m = Inr (q', a)" "\<forall>e \<in> set q. attachments_ok e"
  shows "\<forall>e \<in> set q' \<union> set (removed_entries a). attachments_ok e"
proof -
  obtain k u where k: "k < length q" "q ! k = UserEntry u"
    and s: "(\<exists>text. q' = q[k := UserEntry (u\<lparr>ue_text := text, ue_rev := ue_rev u + 1\<rparr>)] \<and> removed_entries a = []) \<or>
     q' = remove_at k q \<and> (removed_entries a = [] \<or> removed_entries a = [UserEntry u])"
    using apply_mutation_shape [OF assms(1)] .
  have u: "attachments_ok (UserEntry u :: 'v queue_entry)" using assms(2) k by (metis nth_mem)
  then have new: "attachments_ok (UserEntry (u\<lparr>ue_text := t, ue_rev := r\<rparr>) :: 'v queue_entry)" for t r
    by (simp add: attachments_ok_def)
  show ?thesis
    using s
  proof
    assume "\<exists>text. q' = q[k := UserEntry (u\<lparr>ue_text := text, ue_rev := ue_rev u + 1\<rparr>)] \<and> removed_entries a = []"
    then show ?thesis using new assms(2) set_update_subset_insert [of q k] by fastforce
  next
    assume "q' = remove_at k q \<and> (removed_entries a = [] \<or> removed_entries a = [UserEntry u])"
    then show ?thesis using u assms(2) by (auto simp: remove_at_def dest: in_set_takeD in_set_dropD)
  qed
qed

lemma enqueue_attachments:
  assumes "enqueue_historical q e = (q', out)" "\<forall>x \<in> set q. attachments_ok x" "attachments_ok e"
  shows "\<forall>x \<in> set q'. attachments_ok x"
  using assms(1)
proof (cases rule: enqueue_cases)
  case (fold n i)
  obtain g where g: "q \<noteq> []" "fold_into n (last q) e = Some g"
    "q' = butlast q @ [set_message_ids (message_ids g @ message_ids e) (set_envelope_id (envelope_id e) g)]"
    using try_fold_Folded [OF fold(1)] by metis
  have "attachments_ok g" using fold_into_attachments [OF g(2)] assms(2,3) g(1) by simp
  then have "attachments_ok (set_message_ids ms (set_envelope_id v g))" for ms v
    by (simp add: attachments_ok_def)
  then show ?thesis using g(3) assms(2) by (auto dest: in_set_butlastD)
qed (use assms in \<open>auto simp: remove_at_def dest: in_set_takeD in_set_dropD\<close>)

lemma historical_queue_Some: "historical_queue st = Some q \<longleftrightarrow> \<not> canonical_inputs st \<and> q = pending st"
  by (auto simp: historical_queue_def)

lemma enqueue_pending_cases:
  assumes "enqueue_pending_observation st e = (st', out)"
  obtains (canonical) "canonical_inputs st" "st' = st" "out = Unsupported"
  | (historical) q where "\<not> canonical_inputs st" "enqueue_historical (pending st) e = (q, out)"
      "st' = st\<lparr>pending := q\<rparr>"
  using assms by (auto simp: enqueue_pending_observation_def historical_queue_def split: if_splits prod.splits)

lemma enqueue_pending_parts:
  assumes "enqueue_pending_observation st e = (st', out)"
  shows "intake_memory st' = intake_memory st"
    and "pending st' = pending st \<or> enqueue_historical (pending st) e = (pending st', out)"
  using assms by (cases rule: enqueue_pending_cases; simp add: intake_memory_def)+

lemma on_observation_parts:
  assumes "on_observation now st e = (st', out)" "memory_ok (intake_memory st)"
  shows "memory_ok (intake_memory st') \<and>
    (pending st' = pending st \<or> enqueue_historical (pending st) e = (pending st', out))"
proof -
  let ?st1 = "case envelope_id e of None \<Rightarrow> st | Some env \<Rightarrow> st\<lparr>push_watermark := max (push_watermark st) env\<rparr>"
  obtain st2 dup where s: "suppress_duplicate_hook_stop ?st1 e = (st2, dup)" by fastforce
  obtain st3 o' where q: "enqueue_pending_observation st2 e = (st3, o')" by fastforce
  have p: "pending ?st1 = pending st" "intake_memory ?st1 = intake_memory st"
    by (simp_all add: intake_memory_def split: option.split)
  have m: "memory_ok (intake_memory st2)" "pending st2 = pending st"
    using suppress_memory(1,2) [OF s] assms(2) p by simp_all
  have "intake_memory st' = intake_memory st2 \<and>
      (pending st' = pending st2 \<or> pending st' = pending st3 \<and> out = o')"
    using assms(1) enqueue_pending_parts(1) [OF q] unfolding on_observation_def Let_def s
    by (auto simp: q intake_memory_def split: if_splits)
  then show ?thesis using enqueue_pending_parts(2) [OF q] m by auto
qed

lemma suppress_remembers:
  assumes "suppress_duplicate_hook_stop st e = (st', dup)" "memory_ok (intake_memory st)"
    and "hook_idempotency_key e = Some key"
  shows "key \<in> recent_hook_key_set st'"
  using assms remember_key_ok(2) [of "intake_memory st" key]
  by (auto simp: suppress_duplicate_hook_stop_def intake_memory_def Let_def split: if_splits)

lemma on_observation_remembers:
  assumes "memory_ok (intake_memory st)" "on_observation now st e = (st', out)"
    and "hook_idempotency_key e = Some key"
  shows "key \<in> recent_hook_key_set st'"
proof -
  let ?st1 = "case envelope_id e of None \<Rightarrow> st | Some env \<Rightarrow> st\<lparr>push_watermark := max (push_watermark st) env\<rparr>"
  obtain st2 dup where s: "suppress_duplicate_hook_stop ?st1 e = (st2, dup)" by fastforce
  obtain st3 o' where q: "enqueue_pending_observation st2 e = (st3, o')" by fastforce
  have "intake_memory ?st1 = intake_memory st" by (simp add: intake_memory_def split: option.split)
  then have "key \<in> recent_hook_key_set st2" using suppress_remembers [OF s _ assms(3)] assms(1) by simp
  then show ?thesis
    using assms(2) enqueue_pending_parts(1) [OF q] unfolding on_observation_def Let_def s
    by (auto simp: q intake_memory_def split: if_splits)
qed

lemma on_observation_full:
  assumes "on_observation now st e = (st', out)" and "\<not> canonical_inputs st"
    and "enqueue_historical (pending st) e = (pending st, Rejected)"
  shows "pending st' = pending st \<and> out = Rejected"
proof -
  let ?st1 = "case envelope_id e of None \<Rightarrow> st | Some env \<Rightarrow> st\<lparr>push_watermark := max (push_watermark st) env\<rparr>"
  obtain st2 dup where s: "suppress_duplicate_hook_stop ?st1 e = (st2, dup)" by fastforce
  have "pending ?st1 = pending st" "canonical_inputs ?st1 = canonical_inputs st" by (simp_all split: option.split)
  moreover have "pending st2 = pending ?st1 \<and> canonical_inputs st2 = canonical_inputs ?st1"
    using s by (auto simp: suppress_duplicate_hook_stop_def Let_def split: option.splits if_splits)
  ultimately have "enqueue_pending_observation st2 e = (st2, Rejected)" "pending st2 = pending st"
    using assms(2,3) by (simp_all add: enqueue_pending_observation_def historical_queue_def)
  then show ?thesis
    using assms(1) unfolding on_observation_def Let_def s by (auto split: if_splits)
qed

lemma observe_inv:
  assumes "harness_inv (st, fl)" "fresh_entry (st, fl) e" "on_observation now st e = (st', out)"
  shows "harness_inv (st', fl)"
proof -
  have p: "memory_ok (intake_memory st') \<and>
    (pending st' = pending st \<or> enqueue_historical (pending st) e = (pending st', out))"
    using on_observation_parts [OF assms(3)] assms(1) by (simp add: harness_inv_def)
  have "entry_ids (pending st') = entry_ids (pending st) \<or>
      entry_ids (pending st') = entry_ids (pending st) @ entry_ids [e]"
    using p enqueue_ids [of "pending st" e "pending st'" out] by (auto simp: entry_ids_def)
  moreover have "distinct (entry_ids [e])" by (cases e) (simp_all add: entry_ids_def)
  moreover have "\<forall>x \<in> set (pending st'). attachments_ok x"
    using p enqueue_attachments [of "pending st" e "pending st'" out] assms(1,2)
    by (auto simp: harness_inv_def fresh_entry_def)
  ultimately show ?thesis
    using assms(1,2) p by (auto simp: harness_inv_def fresh_entry_def)
qed

lemma harness_step_inv: "harness_step h h' \<Longrightarrow> harness_inv h \<Longrightarrow> harness_inv h'"
proof (induction rule: harness_step.induct)
  case (observe st fl e now st' out)
  then show ?case using observe_inv by blast
next
  case (mutate st q m q' a fl)
  then show ?case
    using mutate_ids [OF mutate.hyps(2), of fl] mutate_attachments [OF mutate.hyps(2)]
    by (auto simp: harness_inv_def intake_memory_def historical_queue_Some)
next
  case (issue st st' d fl)
  then show ?case by (auto simp: harness_inv_def drain_def intake_memory_def entry_ids_def split: if_splits)
next
  case (put_back st d fl now)
  then show ?case by (auto simp: harness_inv_def)
next
  case (restore st d fl now)
  then show ?case by (auto simp: harness_inv_def restore_pending)
next
  case (deliver st d fl)
  then show ?case by (auto simp: harness_inv_def)
qed

lemma harness_run_inv: "harness_step\<^sup>*\<^sup>* h h' \<Longrightarrow> harness_inv h \<Longrightarrow> harness_inv h'"
  by (induction rule: rtranclp_induct) (auto intro: harness_step_inv)

section \<open>Snapshots\<close>

definition wf_entry :: "'v queue_entry \<Rightarrow> bool" where
  "wf_entry e = (case e of SystemEntry ob _ _ \<Rightarrow> \<not> is_user_message ob | _ \<Rightarrow> True)"

lemma entry_at_stored:
  assumes "k < length es" "wf_entry (es ! k)"
  shows "entry_at (set_pending_entries es) (k, Some (entry_observation (es ! k))) = Some (es ! k)"
proof (cases "es ! k")
  case (SystemEntry ob env mids)
  then show ?thesis using assms
    by (cases ob) (simp_all add: entry_at_def set_pending_entries_def slot_def slot_ids_def wf_entry_def)
qed (use assms in \<open>simp_all add: entry_at_def set_pending_entries_def slot_def slot_ids_def\<close>)

lemma map_filter_Some: "map f zs = map Some ys \<Longrightarrow> List.map_filter f zs = ys"
  by (induction zs arbitrary: ys) (auto simp: map_filter_simps Cons_eq_map_conv)

lemma stored_entries:
  assumes "\<forall>e \<in> set es. wf_entry e"
  shows "pending_entries (set_pending_entries es) = es"
proof -
  let ?p = "set_pending_entries es"
  have "map (entry_at ?p) (enumerate 0 (pending_queue ?p)) = map Some es"
    using assms entry_at_stored [of _ es]
    by (intro nth_equalityI) (auto simp: set_pending_entries_def nth_enumerate_eq)
  then show ?thesis unfolding pending_entries_def by (rule map_filter_Some)
qed

lemma decode_meta_Cons:
  "\<exists>x seen'. decode_meta parse seen (v # raw) = x # decode_meta parse seen' raw \<and> seen \<subseteq> seen' \<and>
     (\<forall>m. x = Some m \<longrightarrow> qm_id m \<notin> seen \<and> qm_id m \<noteq> [] \<and> qm_id m \<in> seen')"
proof (cases "parse v")
  case None
  then show ?thesis by (intro exI [of _ None] exI [of _ seen]) simp
next
  case (Some m)
  show ?thesis
  proof (cases "qm_id m = [] \<or> qm_id m \<in> seen")
    case True
    with Some show ?thesis by (intro exI [of _ None] exI [of _ seen]) simp
  next
    case False
    with Some show ?thesis by (intro exI [of _ "Some m"] exI [of _ "insert (qm_id m) seen"]) auto
  qed
qed

declare decode_meta.simps(2) [simp del]

lemma decode_meta_slots:
  assumes "k < length (decode_meta parse seen raw)" "decode_meta parse seen raw ! k = Some m"
  shows "qm_id m \<notin> seen"
  using assms
proof (induction raw arbitrary: seen k)
  case (Cons v raw)
  obtain x seen' where x: "decode_meta parse seen (v # raw) = x # decode_meta parse seen' raw"
      "seen \<subseteq> seen'" "\<forall>m. x = Some m \<longrightarrow> qm_id m \<notin> seen \<and> qm_id m \<noteq> [] \<and> qm_id m \<in> seen'"
    using decode_meta_Cons [of parse seen v raw] by blast
  show ?case
  proof (cases k)
    case 0
    then show ?thesis using Cons.prems x by simp
  next
    case (Suc j)
    then have "qm_id m \<notin> seen'" using Cons.prems Cons.IH [of j seen'] unfolding x(1) by simp
    then show ?thesis using x(2) by blast
  qed
qed simp

lemma decode_meta_inj:
  assumes "j < k" "k < length (decode_meta parse seen raw)"
    and "decode_meta parse seen raw ! j = Some m" "decode_meta parse seen raw ! k = Some m'"
  shows "qm_id m \<noteq> qm_id m'"
  using assms
proof (induction raw arbitrary: seen j k)
  case (Cons v raw)
  obtain x seen' where x: "decode_meta parse seen (v # raw) = x # decode_meta parse seen' raw"
      "\<forall>m. x = Some m \<longrightarrow> qm_id m \<in> seen'"
    using decode_meta_Cons [of parse seen v raw] by blast
  obtain l where l: "k = Suc l" using Cons.prems(1) by (cases k) auto
  have rest: "l < length (decode_meta parse seen' raw)" "decode_meta parse seen' raw ! l = Some m'"
    using Cons.prems(2,4) unfolding x(1) l by simp_all
  show ?case
  proof (cases j)
    case 0
    then have "qm_id m \<in> seen'" using Cons.prems(3) x by simp
    then show ?thesis using decode_meta_slots [OF rest] by auto
  next
    case (Suc i)
    then have "decode_meta parse seen' raw ! i = Some m" "i < l"
      using Cons.prems(1,3) l unfolding x(1) by simp_all
    then show ?thesis using Cons.IH rest by blast
  qed
qed simp

lemma decode_meta_slot_inj:
  assumes "slot (decode_meta parse seen raw) j = Some m" "slot (decode_meta parse seen raw) k = Some m'"
    and "qm_id m = qm_id m'"
  shows "j = k"
proof -
  have "j < length (decode_meta parse seen raw)" "decode_meta parse seen raw ! j = Some m"
    "k < length (decode_meta parse seen raw)" "decode_meta parse seen raw ! k = Some m'"
    using assms(1,2) by (auto simp: slot_def split: if_splits)
  then show ?thesis using decode_meta_inj assms(3) by (metis linorder_neqE_nat)
qed

lemma users_map_filter_unique:
  assumes "distinct (map fst zs)"
    and "\<And>z u. z \<in> set zs \<Longrightarrow> f z = Some (UserEntry u) \<Longrightarrow> g (fst z) = Some (ue_id u)"
    and "\<And>j k i. g j = Some i \<Longrightarrow> g k = Some i \<Longrightarrow> j = k"
  shows "unique_ids (List.map_filter f zs) \<and>
    (\<forall>u \<in> set (users (List.map_filter f zs)). \<exists>z \<in> set zs. g (fst z) = Some (ue_id u))"
  using assms(1,2)
proof (induction zs)
  case Nil
  then show ?case by (simp add: unique_ids_def map_filter_simps)
next
  case (Cons z zs)
  have ih: "unique_ids (List.map_filter f zs)"
    "\<forall>u \<in> set (users (List.map_filter f zs)). \<exists>y \<in> set zs. g (fst y) = Some (ue_id u)"
    using Cons by auto
  show ?case
  proof (cases "f z")
    case None
    then show ?thesis using ih by (auto simp: map_filter_simps)
  next
    case (Some e)
    show ?thesis
    proof (cases e)
      case (UserEntry u)
      have gz: "g (fst z) = Some (ue_id u)" using Cons.prems(2) Some UserEntry by simp
      have "ue_id u \<notin> ue_id ` set (users (List.map_filter f zs))"
      proof
        assume "ue_id u \<in> ue_id ` set (users (List.map_filter f zs))"
        then obtain y where "y \<in> set zs" "g (fst y) = Some (ue_id u)" using ih(2) by auto
        then show False using assms(3) [OF gz] Cons.prems(1) by auto
      qed
      then show ?thesis using ih Some UserEntry gz by (auto simp: map_filter_simps unique_ids_def)
    qed (use ih Some in \<open>auto simp: map_filter_simps unique_ids_def\<close>)
  qed
qed

lemma loaded_ids_unique:
  assumes "pending_entry_meta p = deserialize_pending_entry_meta parse raw"
  shows "unique_ids (pending_entries p)"
proof -
  let ?ms = "decode_meta parse {} raw"
  let ?g = "\<lambda>k. map_option qm_id (slot ?ms k)"
  have "?g (fst z) = Some (ue_id u)" if "entry_at p z = Some (UserEntry u)" for z u
    using that assms
    by (auto simp: entry_at_def Let_def deserialize_pending_entry_meta_def
        split: option.splits observation.splits)
  moreover have "j = k" if "?g j = Some i" "?g k = Some i" for j k i
    using that decode_meta_slot_inj by fastforce
  ultimately show ?thesis
    unfolding pending_entries_def
    using users_map_filter_unique [of "enumerate 0 (pending_queue p)" "entry_at p" ?g]
    by (simp add: map_fst_enumerate)
qed

end
