(* ===== verification/Harness_State.thy ===== *)
theory Harness_State
  imports Harness_Observation
begin

text \<open>
  The phases of a harness (crates/calm-server/src/harness/state.rs) and the tag they are persisted
  with (snapshot.rs). An \<open>Instant\<close> is a number; \<open>saturating_duration_since\<close> is the subtraction of
  naturals.
\<close>

datatype issuing_kind = TurnStart | Interrupt string string

datatype harness_state =
    PendingThreadStart
  | HIdle
  | Issuing nat issuing_kind
  | Compacting nat
  | CompactionRunning string nat
  | TurnRunning string nat nat
  | TurnCompleted string
  | Resumed nat
  | Wedged nat string

record running_turn_info =
  rt_turn_id :: string
  rt_elapsed :: nat

fun run_status_for :: "harness_state \<Rightarrow> worker_session_state" where
  "run_status_for PendingThreadStart = Starting"
| "run_status_for HIdle = Idle"
| "run_status_for (TurnCompleted _) = Idle"
| "run_status_for (Resumed _) = Idle"
| "run_status_for (CompactionRunning _ _) = TurnPending"
| "run_status_for (Compacting _) = TurnPending"
| "run_status_for (Issuing _ _) = TurnPending"
| "run_status_for (TurnRunning _ _ _) = TurnPending"
| "run_status_for (Wedged _ _) = Failed"

definition turn_running :: "string \<Rightarrow> nat \<Rightarrow> harness_state" where
  "turn_running turn started = TurnRunning turn started started"

fun can_issue_turn :: "harness_state \<Rightarrow> bool" where
  "can_issue_turn HIdle = True"
| "can_issue_turn (TurnCompleted _) = True"
| "can_issue_turn _ = False"

fun running_turn :: "harness_state \<Rightarrow> nat \<Rightarrow> running_turn_info option" where
  "running_turn (CompactionRunning turn started) now =
     Some \<lparr>rt_turn_id = turn, rt_elapsed = now - started\<rparr>"
| "running_turn (TurnRunning turn started _) now =
     Some \<lparr>rt_turn_id = turn, rt_elapsed = now - started\<rparr>"
| "running_turn _ now = None"

fun active_turn_id :: "harness_state \<Rightarrow> string option" where
  "active_turn_id (CompactionRunning turn _) = Some turn"
| "active_turn_id (TurnRunning turn _ _) = Some turn"
| "active_turn_id (Issuing _ (Interrupt target _)) = Some target"
| "active_turn_id _ = None"

fun settled_phase :: "harness_state \<Rightarrow> bool" where
  "settled_phase (TurnCompleted _) = True"
| "settled_phase (Wedged _ _) = True"
| "settled_phase (Resumed _) = True"
| "settled_phase _ = False"

definition accepts_context_boundary ::
  "harness_state \<Rightarrow> string \<Rightarrow> string option \<Rightarrow> string option \<Rightarrow> bool" where
  "accepts_context_boundary st turn last_user maintenance =
     (case active_turn_id st of
        Some active \<Rightarrow> active = turn
      | None \<Rightarrow> settled_phase st \<and> (last_user = Some turn \<or> maintenance = Some turn))"

datatype phase_tag =
    PhPendingThreadStart | PhIdle | PhIssuingTurn | PhCompacting | PhIssuingInterrupt
  | PhTurnRunning | PhTurnCompleted | PhResumed | PhWedged

fun phase_tag_of :: "harness_state \<Rightarrow> phase_tag" where
  "phase_tag_of PendingThreadStart = PhPendingThreadStart"
| "phase_tag_of HIdle = PhIdle"
| "phase_tag_of (Compacting _) = PhCompacting"
| "phase_tag_of (CompactionRunning _ _) = PhCompacting"
| "phase_tag_of (Issuing _ TurnStart) = PhIssuingTurn"
| "phase_tag_of (Issuing _ (Interrupt _ _)) = PhIssuingInterrupt"
| "phase_tag_of (TurnRunning _ _ _) = PhTurnRunning"
| "phase_tag_of (TurnCompleted _) = PhTurnCompleted"
| "phase_tag_of (Resumed _) = PhResumed"
| "phase_tag_of (Wedged _ _) = PhWedged"

text \<open>A turn is issued only from a phase whose session is idle, and never while a turn is active.\<close>

lemma can_issue_idle: "can_issue_turn st \<Longrightarrow> run_status_for st = Idle \<and> active_turn_id st = None"
  by (cases st) auto

lemma running_turn_active:
  "running_turn st now = Some info \<Longrightarrow>
     active_turn_id st = Some (rt_turn_id info) \<and> run_status_for st = TurnPending \<and> rt_elapsed info \<le> now"
  by (cases st) auto

end
