(* ===== verification/Harness_Properties.thy ===== *)
theory Harness_Properties
  imports Harness_Machine Harness_State
begin

text \<open>
  The properties of the pending queue, of its admission, and of its copy on disk, with a small
  concrete queue that shows their hypotheses can hold.
\<close>

section \<open>A concrete queue\<close>

definition demo_entry :: "string \<Rightarrow> string \<Rightarrow> unit queue_entry" where
  "demo_entry i text = user_message i (i @ ''-m'') 1 text None []"

definition demo_queue :: "unit queue_entry list" where
  "demo_queue = [demo_entry ''a'' ''one'', SystemEntry (TrackGoal ''goal'') None [], demo_entry ''b'' ''two'']"

definition demo_intake :: "unit intake" where
  "demo_intake = \<lparr>pending = demo_queue, push_watermark = 0, recent_hook_keys = [],
     recent_hook_key_set = {}, last_report_body_sha256 = None, debounce = debounce_default,
     canonical_inputs = False\<rparr>"

definition demo_hook :: "unit queue_entry" where
  "demo_hook = SystemEntry (WorkerHookStop ''t'' ''c'' CodexStop ''k'') (Some 7) []"

lemma demo_unique: "unique_ids demo_queue"
  by (simp add: unique_ids_def demo_queue_def demo_entry_def user_message_def)

section \<open>Mutations\<close>

text \<open>
  C5. On a queue in which one id names one entry, an edit, a delete or a steer refines a compare and
  swap on the addressable view: with the entry missing it is refused as not found, with another
  revision as stale, at the last revision (edit and steer) as exhausted; otherwise the one entry is
  rewritten at the next revision or taken out, every other entry keeps its content, and the revision
  reported is that of the view.
\<close>

theorem mutation_refines_view:
  assumes "unique_ids q"
  shows "view_result (apply_mutation q m) = view_mutation (queue_view q) m"
  using assms by (rule apply_mutation_spec)

theorem mutation_refines_view_witness:
  "view_result (apply_mutation demo_queue (Edit ''b'' ''new'' 0)) =
     view_mutation (queue_view demo_queue) (Edit ''b'' ''new'' 0)"
  by (rule mutation_refines_view [OF demo_unique])

text \<open>
  No queue, with or without repeated ids, makes a mutation reach one of the panics of the source.
\<close>

theorem mutation_never_panics: "apply_mutation q m \<noteq> Inl Panicked"
  by (rule apply_mutation_never_panics)

text \<open>
  C32. A revision never wraps: an edit, a fold into a user entry and a restore each raise the
  entry's revision by exactly one as a number, and are refused at the largest revision.
\<close>

theorem revisions_never_wrap:
  "(apply_mutation q (Edit i text r) = Inr (q', a) \<longrightarrow> unat (ma_rev a) = Suc (unat r)) \<and>
   (fold_into n (UserEntry u) e = Some (UserEntry w) \<longrightarrow> unat (ue_rev w) = Suc (unat (ue_rev u))) \<and>
   (bump_rev_for_restore (UserEntry u) = (UserEntry w, True) \<longrightarrow> unat (ue_rev w) = Suc (unat (ue_rev u)))"
proof (intro conjI impI)
  assume a: "apply_mutation q (Edit i text r) = Inr (q', a)"
  then obtain k where k: "locate_entry q i r = Inr k" by (auto simp: apply_mutation_def and_then_Inr)
  then obtain v where v: "q ! k = UserEntry v" using locate_Inr_user by blast
  then have "ue_rev v = r" using k by (auto simp: locate_entry_def split: list.splits option.splits if_splits)
  then show "unat (ma_rev a) = Suc (unat r)"
    using a k v by (auto simp: apply_mutation_def applied_def unat_succ_word split: if_splits)
next
  assume "fold_into n (UserEntry u) e = Some (UserEntry w)"
  then show "unat (ue_rev w) = Suc (unat (ue_rev u))"
    by (cases e) (auto simp: Let_def unat_succ_word split: if_splits)
next
  assume "bump_rev_for_restore (UserEntry u) = (UserEntry w, True)"
  then show "unat (ue_rev w) = Suc (unat (ue_rev u))"
    by (auto simp: bump_rev_for_restore_def checked_succ_Some split: option.splits)
qed

lemma demo_edit:
  "apply_mutation demo_queue (Edit ''b'' ''new'' 0) = Inr (applied ''b'' Edited 1 (Some ''new'') None
     [demo_entry ''a'' ''one'', SystemEntry (TrackGoal ''goal'') None [],
      UserEntry \<lparr>ue_id = ''b'', ue_text = ''new'', ue_rev = 1, ue_queued_at_ms = 1,
        ue_envelope_id = None, ue_message_ids = [''b-m''], ue_attachments = []\<rparr>])"
  by (simp add: apply_mutation_def locate_entry_def matching_indices_def demo_queue_def demo_entry_def
      user_message_def)

theorem revisions_never_wrap_witness:
  "(\<exists>q' a. apply_mutation demo_queue (Edit ''b'' ''new'' 0) = Inr (q', a) \<and>
     unat (ma_rev a) = Suc (unat (0 :: u32))) \<and>
   (\<exists>u w. bump_rev_for_restore (demo_entry ''a'' ''one'') = (UserEntry w, True) \<and>
     demo_entry ''a'' ''one'' = UserEntry u \<and> unat (ue_rev w) = Suc (unat (ue_rev u)))"
proof -
  obtain q' a where edit: "apply_mutation demo_queue (Edit ''b'' ''new'' 0) = Inr (q', a)"
    using demo_edit by (simp add: applied_def)
  obtain u w where u: "demo_entry ''a'' ''one'' = UserEntry u"
      and w: "bump_rev_for_restore (UserEntry u :: unit queue_entry) = (UserEntry w, True)"
    by (auto simp: demo_entry_def user_message_def bump_rev_for_restore_def checked_succ_def)
  note n = revisions_never_wrap [of demo_queue "''b''" "''new''" 0 q' a 0 u "demo_entry ''b'' ''two''" w]
  have "unat (ma_rev a) = Suc (unat (0 :: u32))" using n edit by blast
  moreover have "unat (ue_rev w) = Suc (unat (ue_rev u))" using n w by blast
  ultimately show ?thesis using edit u w by auto
qed

section \<open>Reachable states\<close>

text \<open>
  C8. Every state reached by arriving observations (with fresh ids), mutations, drained, returned,
  restored and delivered batches keeps the invariant: one id names one entry among the queue and the
  entries in flight, no entry carries more than eight attachments or one twice, and the memory of
  hook keys holds at most 256 distinct keys with its set equal to its list.
\<close>

theorem reachable_queue_inv:
  assumes "harness_step\<^sup>*\<^sup>* h h'" and "harness_inv h"
  shows "harness_inv h'"
  using assms by (rule harness_run_inv)

lemma demo_inv: "harness_inv (demo_intake, [])"
  by (simp add: harness_inv_def demo_intake_def demo_queue_def demo_entry_def user_message_def
      attachments_ok_def memory_ok_def intake_memory_def entry_ids_def)

theorem reachable_queue_inv_witness: "harness_inv (fst (drain demo_intake), demo_queue)"
proof (rule reachable_queue_inv [OF _ demo_inv], rule r_into_rtranclp)
  have "drain demo_intake = (fst (drain demo_intake), demo_queue)"
    by (simp add: drain_def demo_intake_def demo_queue_def)
  moreover have "\<not> canonical_inputs demo_intake" by (simp add: demo_intake_def)
  ultimately show "harness_step (demo_intake, []) (fst (drain demo_intake), demo_queue)"
    using harness_step.issue [of demo_intake _ _ "[]"] by (metis append_Nil)
qed

text \<open>
  A batch drained for a turn and put back leaves the queue as it was, entry by entry and in the
  same order, ahead of whatever arrived meanwhile.
\<close>

theorem put_back_restores_order:
  "drain st = (st', d) \<Longrightarrow> pending (rebuffer_head now (st'\<lparr>pending := arrived\<rparr>) d) = pending st @ arrived"
  by (auto simp: drain_def split: if_splits)

theorem put_back_restores_order_witness:
  "pending (rebuffer_head 3 ((fst (drain demo_intake))\<lparr>pending := []\<rparr>) demo_queue) = demo_queue"
  using put_back_restores_order [of demo_intake "fst (drain demo_intake)" demo_queue 3 "[]"]
  by (simp add: drain_def demo_intake_def demo_queue_def)

section \<open>Folding and admission\<close>

text \<open>
  C27. Folding an entry into the tail keeps the queue's length and every entry's id, makes the
  survivor hold the message instances of both, and acknowledges the incoming envelope.
\<close>

theorem fold_conserves_messages:
  assumes "try_fold_tail q e n = (q', Folded i)"
  shows "map entry_id q' = map entry_id q \<and> all_message_ids q' = all_message_ids q @ message_ids e \<and>
    i = entry_id (last q') \<and> envelope_id (last q') = envelope_id e"
  using fold_keeps_ids [OF assms] assms
  by (auto simp: try_fold_tail_def Let_def split: if_splits option.splits)

definition demo_folded :: "unit queue_entry" where
  "demo_folded = UserEntry \<lparr>ue_id = ''a'', ue_text = ''one'' @ [CHR 10, CHR 10] @ ''two'', ue_rev = 1,
     ue_queued_at_ms = 1, ue_envelope_id = None, ue_message_ids = [''a-m'', ''b-m''], ue_attachments = []\<rparr>"

lemma demo_fold:
  "try_fold_tail [demo_entry ''a'' ''one''] (demo_entry ''b'' ''two'') 100 = ([demo_folded], Folded (Some ''a''))"
  by (simp add: try_fold_tail_def demo_entry_def demo_folded_def user_message_def new_attachments_def
      MAX_ATTACHMENTS_PER_MESSAGE_def fold_user_text_def saturating_add_def usize_max_def chars_count_def
      byte_of_def)

theorem fold_conserves_messages_witness:
  "map entry_id [demo_folded] = map entry_id [demo_entry ''a'' ''one''] \<and>
   all_message_ids [demo_folded] =
     all_message_ids [demo_entry ''a'' ''one''] @ message_ids (demo_entry ''b'' ''two'') \<and>
   Some ''a'' = entry_id (last [demo_folded]) \<and>
   envelope_id (last [demo_folded]) = envelope_id (demo_entry ''b'' ''two'')"
  by (rule fold_conserves_messages [OF demo_fold])

text \<open>
  C21. Admission keeps a queue of at most 256 entries at most that long; every id a client was shown
  stays in the queue, in the same order; an entry is refused only when every queued entry is a
  hard-fire one, and then nothing changes. A harness whose inputs belong to its conversation, and no other,
  answers that it is unsupported and changes nothing.
\<close>

theorem admission_keeps_clients_ids:
  assumes "enqueue_pending_observation st e = (st', out)" and "length (pending st) \<le> MAX_PENDING_QUEUE_LEN"
  shows "length (pending st') \<le> MAX_PENDING_QUEUE_LEN \<and>
    (\<exists>ids. entry_ids (pending st') = entry_ids (pending st) @ ids \<and> set ids \<subseteq> set (entry_ids [e])) \<and>
    (out = Rejected \<longrightarrow> st' = st \<and> (\<forall>x \<in> set (pending st). entry_hard_fire x)) \<and>
    (out = Unsupported \<longleftrightarrow> canonical_inputs st) \<and> (out = Unsupported \<longrightarrow> st' = st)"
  using assms(1)
proof (cases rule: enqueue_pending_cases)
  case canonical
  then show ?thesis using assms(2) by auto
next
  case (historical q)
  have ids: "\<exists>ids. entry_ids q = entry_ids (pending st) @ ids \<and> set ids \<subseteq> set (entry_ids [e])"
    using enqueue_ids [OF historical(2)] by (auto simp: entry_ids_def)
  have "out \<noteq> Unsupported" "out = Rejected \<longrightarrow> q = pending st \<and> (\<forall>x \<in> set (pending st). entry_hard_fire x)"
    using historical(2) by (cases rule: enqueue_cases; auto)+
  then show ?thesis
    using enqueue_length [OF historical(2) assms(2)] ids historical(1,3) by simp
qed

theorem admission_keeps_clients_ids_witness:
  "pending (fst (enqueue_pending_observation demo_intake demo_hook)) = demo_queue @ [demo_hook] \<and>
   length (demo_queue @ [demo_hook]) \<le> MAX_PENDING_QUEUE_LEN \<and>
   (\<exists>ids. entry_ids (demo_queue @ [demo_hook]) = entry_ids demo_queue @ ids \<and> set ids \<subseteq> set (entry_ids [demo_hook]))"
proof -
  have run: "enqueue_pending_observation demo_intake demo_hook
      = (demo_intake\<lparr>pending := demo_queue @ [demo_hook]\<rparr>, Accepted None)"
    by (simp add: enqueue_pending_observation_def historical_queue_def enqueue_historical_def
        try_fold_report_edit_tail_def demo_intake_def demo_queue_def demo_hook_def MAX_PENDING_QUEUE_LEN_def)
  show ?thesis
    using admission_keeps_clients_ids [OF run] run
    by (simp add: demo_intake_def demo_queue_def MAX_PENDING_QUEUE_LEN_def)
qed

text \<open>
  Once a hook stop with a key has been seen, a second one with the same key is rejected and leaves
  the queue, the debounce state and the memory of keys as they are.
\<close>

theorem repeated_hook_rejected:
  assumes "memory_ok (intake_memory st)" and "on_observation now st e = (st1, out)"
    and "hook_idempotency_key e = Some key" and "hook_idempotency_key e' = Some key"
  shows "\<exists>mark. on_observation now' st1 e' = (st1\<lparr>push_watermark := mark\<rparr>, Rejected)"
proof -
  have key: "key \<in> recent_hook_key_set st1"
    using on_observation_remembers [OF assms(1-3)] .
  show ?thesis
    using assms(4) key
    by (cases "envelope_id e'")
      (auto simp: on_observation_def suppress_duplicate_hook_stop_def Let_def intro: exI [of _ "push_watermark st1"])
qed

theorem repeated_hook_rejected_witness:
  "\<exists>mark. on_observation 2 (fst (on_observation 1 demo_intake demo_hook)) demo_hook =
     ((fst (on_observation 1 demo_intake demo_hook))\<lparr>push_watermark := mark\<rparr>, Rejected)"
  by (rule repeated_hook_rejected
      [where st = demo_intake and e = demo_hook and now = 1 and key = "''k''"
        and out = "snd (on_observation 1 demo_intake demo_hook)"])
    (simp_all add: demo_hook_def demo_intake_def memory_ok_def intake_memory_def)

text \<open>
  A hook stop that arrives while the queue is full of hard-fire entries is rejected and not
  queued, yet its key is remembered, so that a retry of it is suppressed as a duplicate.
\<close>

theorem rejected_hook_is_remembered:
  assumes "memory_ok (intake_memory st)" and "\<not> canonical_inputs st" and "hook_idempotency_key e = Some key"
    and "length (pending st) \<ge> MAX_PENDING_QUEUE_LEN" and "\<forall>x \<in> set (pending st). entry_hard_fire x"
  shows "\<exists>st1. on_observation now st e = (st1, Rejected) \<and> pending st1 = pending st \<and>
    key \<in> recent_hook_key_set st1"
proof -
  obtain st1 out where o: "on_observation now st e = (st1, out)" by fastforce
  have key: "key \<in> recent_hook_key_set st1" using on_observation_remembers [OF assms(1) o assms(3)] .
  have no_fold: "fold_into n x e = None" for n x
    using assms(3) by (cases x; cases e) (auto simp: fold_observation_def split: observation.splits)
  have "try_fold_tail q e n = (q, NotFolded)" for q n by (simp add: try_fold_tail_def no_fold)
  then have "enqueue_historical (pending st) e = (pending st, Rejected)"
    using assms(4,5) position_None [of "\<lambda>x. \<not> entry_hard_fire x" "pending st"]
    by (simp add: enqueue_historical_def try_fold_report_edit_tail_def)
  moreover have "pending st1 = pending st \<and> out = Rejected"
    using on_observation_full [OF o assms(2) calculation] .
  ultimately show ?thesis using o key by blast
qed

definition full_intake :: "unit intake" where
  "full_intake = demo_intake\<lparr>pending := replicate 256 (SystemEntry (SystemContext []) None [])\<rparr>"

theorem rejected_hook_is_remembered_witness:
  "\<exists>st1. on_observation 1 full_intake demo_hook = (st1, Rejected) \<and> pending st1 = pending full_intake \<and>
    ''k'' \<in> recent_hook_key_set st1"
  by (rule rejected_hook_is_remembered)
    (simp_all add: demo_hook_def full_intake_def demo_intake_def memory_ok_def intake_memory_def
      MAX_PENDING_QUEUE_LEN_def)

section \<open>The queue on disk\<close>

text \<open>
  C13. Writing a queue to its four arrays and reading them back gives the same entries, with their
  ids, revisions, envelopes, message instances and attachments, for every queue whose system entries
  hold no user message (the constructor of system entries refuses those).
\<close>

theorem snapshot_queue_roundtrip:
  assumes "\<forall>e \<in> set es. wf_entry e"
  shows "pending_entries (set_pending_entries es) = es"
  using assms by (rule stored_entries)

theorem snapshot_queue_roundtrip_witness:
  "pending_entries (set_pending_entries demo_queue) = demo_queue"
  by (rule snapshot_queue_roundtrip) (simp add: demo_queue_def demo_entry_def user_message_def wf_entry_def)

text \<open>
  C31. Whatever a stored snapshot holds, one id names one entry in the queue read from it: the decoder
  of the meta array drops empty and repeated ids.
\<close>

theorem loaded_queue_ids_unique:
  assumes "pending_entry_meta p = deserialize_pending_entry_meta parse raw"
  shows "unique_ids (pending_entries p)"
  using assms by (rule loaded_ids_unique)

theorem loaded_queue_ids_unique_witness:
  "unique_ids (pending_entries (\<lparr>pending_queue = [Some (UserMessage ''x''), Some (UserMessage ''y'')],
     pending_envelope_ids = [], pending_entry_meta = deserialize_pending_entry_meta Some
       [\<lparr>qm_id = ''i'', qm_rev = 0, qm_queued_at_ms = 0, qm_attachments = []\<rparr>,
        \<lparr>qm_id = ''i'', qm_rev = 4, qm_queued_at_ms = 0, qm_attachments = []\<rparr>],
     pending_message_ids = []\<rparr> :: unit pending_arrays))"
  by (rule loaded_queue_ids_unique) (rule pending_arrays.simps)

text \<open>
  C40. The loop that trims the memory of hook keys ends from every state, also from one in which deque
  and set disagree: run as a while loop it reaches a result, and that result is the newest keys up to the
  cap, with exactly the older ones gone from the set.
\<close>

theorem key_eviction_terminates:
  "\<exists>keys seen.
     while_option (\<lambda>(ks, s). length ks > RECENT_HOOK_KEY_CACHE_LEN) (\<lambda>(ks, s). (tl ks, s - {hd ks})) (ks, s)
       = Some (keys, seen) \<and>
     (keys, seen) = evict_keys ks s \<and> length keys = min (length ks) RECENT_HOOK_KEY_CACHE_LEN \<and>
     (\<exists>old. ks = old @ keys \<and> seen = s - set old)"
proof -
  define n where "n = length ks - RECENT_HOOK_KEY_CACHE_LEN"
  have e: "evict_keys ks s = (drop n ks, s - set (take n ks))"
    by (simp add: evict_keys_take_drop n_def Let_def)
  have "ks = take n ks @ drop n ks" "length (drop n ks) = min (length ks) RECENT_HOOK_KEY_CACHE_LEN"
    by (auto simp: n_def)
  then show ?thesis using e evict_keys_while [of ks s] by (intro exI conjI) auto
qed

end
