(* ===== verification/Terminal_Model.thy ===== *)
theory Terminal_Model
  imports Calm_Prelude
begin

text \<open>
  The server's model of a terminal (crates/calm-session/src/terminal\_model.rs): a grid with cursor,
  pen and scrollback, driven by the callbacks of the escape-sequence parser, and written back as
  bytes for a client that attaches later.

  The parser is the crate vte: its state type, its initial state and its step are the parameter
  \<^emph>\<open>vte\<close>, and what it calls back is a \<open>vt_action\<close>. The trait \<open>TerminalHandler\<close> is the type
  \<open>handler_call\<close> of its methods with their arguments: \<open>VteProcessor\<close> turns a callback into calls, and
  \<open>TerminalModel\<close> carries a call out. A character is its code point; u8, u16 and u32 are numbers, with
  the wrap-around of u16 written out where the source adds or multiplies without saturating.
\<close>

section \<open>Numbers\<close>

definition u16_max :: nat where
  "u16_max = 65535"

definition u32_max :: nat where
  "u32_max = 4294967295"

definition add_u16 :: "nat \<Rightarrow> nat \<Rightarrow> nat" where
  "add_u16 a b = (a + b) mod (u16_max + 1)"

definition mul_u16 :: "nat \<Rightarrow> nat \<Rightarrow> nat" where
  "mul_u16 a b = (a * b) mod (u16_max + 1)"

definition sat_add_u16 :: "nat \<Rightarrow> nat \<Rightarrow> nat" where
  "sat_add_u16 a b = min (a + b) u16_max"

definition as_u8 :: "nat \<Rightarrow> nat" where
  "as_u8 n = n mod 256"

section \<open>Cells\<close>

datatype color = DefaultColor | Indexed nat | Rgb nat nat nat

record sgr_state =
  sg_fg :: color
  sg_bg :: color
  sg_bold :: bool
  sg_dim :: bool
  sg_italic :: bool
  sg_underline :: bool
  sg_reverse :: bool
  sg_hidden :: bool
  sg_strikethrough :: bool

definition sgr_default :: sgr_state where
  "sgr_default = \<lparr>sg_fg = DefaultColor, sg_bg = DefaultColor, sg_bold = False, sg_dim = False,
     sg_italic = False, sg_underline = False, sg_reverse = False, sg_hidden = False,
     sg_strikethrough = False\<rparr>"

record cell =
  cell_ch :: nat
  cell_sgr :: sgr_state

definition cell_default :: cell where
  "cell_default = \<lparr>cell_ch = 32, cell_sgr = sgr_default\<rparr>"

definition is_blank :: "cell \<Rightarrow> bool" where
  "is_blank c \<longleftrightarrow> cell_ch c = 32 \<and> cell_sgr c = sgr_default"

section \<open>Writing escape sequences\<close>

definition ESC :: char where
  "ESC = CHR 0x1B"

fun join :: "string \<Rightarrow> string list \<Rightarrow> string" where
  "join sep [] = []"
| "join sep [x] = x"
| "join sep (x # y # ys) = x @ sep @ join sep (y # ys)"

definition color_params :: "nat \<Rightarrow> color \<Rightarrow> string list" where
  "color_params base c =
     (case c of
        DefaultColor \<Rightarrow> []
      | Indexed i \<Rightarrow>
          if i < 8 then [show_nat (base + i)]
          else if i < 16 then [show_nat (base + 60 + (i - 8))]
          else [show_nat (base + 8) @ '';5;'' @ show_nat i]
      | Rgb r g b \<Rightarrow>
          [show_nat (base + 8) @ '';2;'' @ show_nat r @ '';'' @ show_nat g @ '';'' @ show_nat b])"

definition to_sgr_bytes :: "sgr_state \<Rightarrow> string" where
  "to_sgr_bytes s =
     [ESC] @ ''['' @ join '';''
       ([''0''] @ (if sg_bold s then [''1''] else []) @ (if sg_dim s then [''2''] else [])
        @ (if sg_italic s then [''3''] else []) @ (if sg_underline s then [''4''] else [])
        @ (if sg_reverse s then [''7''] else []) @ (if sg_hidden s then [''8''] else [])
        @ (if sg_strikethrough s then [''9''] else [])
        @ color_params 30 (sg_fg s) @ color_params 40 (sg_bg s)) @ ''m''"

text \<open>\<open>char::encode_utf8\<close>.\<close>

definition push_char_utf8 :: "nat \<Rightarrow> string" where
  "push_char_utf8 c = map char_of
     (if c < 128 then [c]
      else if c < 2048 then [192 + c div 64, 128 + c mod 64]
      else if c < 65536 then [224 + c div 4096, 128 + c div 64 mod 64, 128 + c mod 64]
      else [240 + c div 262144, 128 + c div 4096 mod 64, 128 + c div 64 mod 64, 128 + c mod 64])"

section \<open>The grid\<close>

record grid =
  g_rows :: "cell list list"
  g_cols :: nat
  g_rows_count :: nat

definition grid_new :: "nat \<Rightarrow> nat \<Rightarrow> grid" where
  "grid_new cols rows =
     \<lparr>g_rows = replicate (max rows 1) (replicate (max cols 1) cell_default),
      g_cols = max cols 1, g_rows_count = max rows 1\<rparr>"

definition grid_cell :: "grid \<Rightarrow> nat \<Rightarrow> nat \<Rightarrow> cell" where
  "grid_cell g r c =
     (if r < length (g_rows g) \<and> c < length (g_rows g ! r) then g_rows g ! r ! c else cell_default)"

definition update_row :: "nat \<Rightarrow> (cell list \<Rightarrow> cell list) \<Rightarrow> grid \<Rightarrow> grid" where
  "update_row r f g =
     (if r < length (g_rows g) then g\<lparr>g_rows := (g_rows g)[r := f (g_rows g ! r)]\<rparr> else g)"

definition set_cell :: "nat \<Rightarrow> nat \<Rightarrow> cell \<Rightarrow> grid \<Rightarrow> grid" where
  "set_cell r c x = update_row r (\<lambda>row. if c < length row then row[c := x] else row)"

definition clear_row :: "nat \<Rightarrow> grid \<Rightarrow> grid" where
  "clear_row r = update_row r (map (\<lambda>_. cell_default))"

definition clear_row_from :: "nat \<Rightarrow> nat \<Rightarrow> grid \<Rightarrow> grid" where
  "clear_row_from r from_col =
     update_row r (\<lambda>row. take from_col row @ map (\<lambda>_. cell_default) (drop from_col row))"

definition clear_row_to :: "nat \<Rightarrow> nat \<Rightarrow> grid \<Rightarrow> grid" where
  "clear_row_to r to_col =
     update_row r (\<lambda>row. let e = min (to_col + 1) (length row)
       in map (\<lambda>_. cell_default) (take e row) @ drop e row)"

definition clear_all :: "grid \<Rightarrow> grid" where
  "clear_all g = g\<lparr>g_rows := map (map (\<lambda>_. cell_default)) (g_rows g)\<rparr>"

datatype erase_mode = ToEnd | ToStart | EraseAll

section \<open>From the parser's callbacks to the handler\<close>

datatype handler_call =
    HPrint nat | CarriageReturn | LineFeed | Backspace | HorizontalTab | Bell
  | CursorUp nat | CursorDown nat | CursorForward nat | CursorBackward nat
  | CursorTo nat nat | CursorColumn nat | CursorRow nat
  | EraseScreen erase_mode | EraseLine erase_mode | ScrollUp nat | ScrollDown nat
  | SetSgr "nat list" | SetCursorVisible bool | EnterAltScreen | ExitAltScreen
  | SetMouseMode nat bool | SetBracketedPaste bool | SetFocusEventTracking bool
  | OscColorQuery nat | DeviceStatusReportCursor | KittyKeyboardQuery | DeviceAttributesPrimary

datatype vt_action =
    VtPrint nat
  | VtExecute nat
  | VtCsi "nat list list" string bool char
  | VtEsc string bool nat
  | VtOsc "string list" bool
  | VtHook "nat list list" string bool char
  | VtPut nat
  | VtUnhook

text \<open>\<open>Params\<close> is the list of its parameters, each the list of its subparameters.\<close>

definition first_param_raw :: "nat list list \<Rightarrow> nat" where
  "first_param_raw params = (case params of (p # _) # _ \<Rightarrow> p | _ \<Rightarrow> 0)"

definition first_param_or :: "nat list list \<Rightarrow> nat \<Rightarrow> nat" where
  "first_param_or params d = (case params of (p # _) # _ \<Rightarrow> if p \<noteq> 0 then p else d | _ \<Rightarrow> d)"

definition erase_mode_from :: "nat \<Rightarrow> erase_mode" where
  "erase_mode_from raw = (if raw = 0 then ToEnd else if raw = 1 then ToStart else EraseAll)"

definition execute_byte :: "nat \<Rightarrow> handler_call list" where
  "execute_byte b =
     (if b = 7 then [Bell]
      else if b = 8 then [Backspace]
      else if b = 9 then [HorizontalTab]
      else if 10 \<le> b \<and> b \<le> 12 then [LineFeed]
      else if b = 13 then [CarriageReturn]
      else [])"

definition dec_mode :: "bool \<Rightarrow> nat \<Rightarrow> handler_call list" where
  "dec_mode on p =
     (if p = 25 then [SetCursorVisible on]
      else if p \<in> {9, 1000, 1002, 1003, 1006} then [SetMouseMode p on]
      else if p = 1004 then [SetFocusEventTracking on]
      else if p = 1049 then [if on then EnterAltScreen else ExitAltScreen]
      else if p = 2004 then [SetBracketedPaste on]
      else [])"

definition dec_modes :: "bool \<Rightarrow> nat list list \<Rightarrow> handler_call list" where
  "dec_modes on params = concat (map (\<lambda>s. case s of [] \<Rightarrow> [] | p # _ \<Rightarrow> dec_mode on p) params)"

text \<open>The parameter of CUP at position \<open>k\<close>, from the wire's 1-based to the handler's 0-based numbering.\<close>

definition position_param :: "nat list list \<Rightarrow> nat \<Rightarrow> nat" where
  "position_param params k =
     (if k < length params \<and> params ! k \<noteq> [] then hd (params ! k) else 1) - 1"

definition csi_plain :: "nat list list \<Rightarrow> char \<Rightarrow> handler_call list" where
  "csi_plain params action =
     (if action = CHR ''A'' then [CursorUp (first_param_or params 1)]
      else if action = CHR ''B'' \<or> action = CHR ''e'' then [CursorDown (first_param_or params 1)]
      else if action = CHR ''C'' \<or> action = CHR ''a'' then [CursorForward (first_param_or params 1)]
      else if action = CHR ''D'' then [CursorBackward (first_param_or params 1)]
      else if action = CHR ''H'' \<or> action = CHR ''f''
      then [CursorTo (position_param params 0) (position_param params 1)]
      else if action = CHR ''G'' \<or> action = CHR 0x60 then [CursorColumn (first_param_or params 1 - 1)]
      else if action = CHR ''d'' then [CursorRow (first_param_or params 1 - 1)]
      else if action = CHR ''J'' then [EraseScreen (erase_mode_from (first_param_raw params))]
      else if action = CHR ''K'' then [EraseLine (erase_mode_from (first_param_raw params))]
      else if action = CHR ''S'' then [ScrollUp (first_param_or params 1)]
      else if action = CHR ''T'' then [ScrollDown (first_param_or params 1)]
      else if action = CHR ''m'' then [SetSgr (concat params)]
      else if action = CHR ''n'' \<and> first_param_or params 0 = 6 then [DeviceStatusReportCursor]
      else if action = CHR ''c'' \<and> first_param_or params 0 = 0 then [DeviceAttributesPrimary]
      else [])"

definition csi_dispatch :: "nat list list \<Rightarrow> string \<Rightarrow> char \<Rightarrow> handler_call list" where
  "csi_dispatch params intermediates action =
     (if intermediates = ''?'' then
        (if action = CHR ''h'' then dec_modes True params
         else if action = CHR ''l'' then dec_modes False params
         else if action = CHR ''u'' then [KittyKeyboardQuery]
         else [])
      else if intermediates \<noteq> [] then []
      else csi_plain params action)"

definition osc_dispatch :: "string list \<Rightarrow> handler_call list" where
  "osc_dispatch params =
     (case params of
        first # second # _ \<Rightarrow>
          if second \<noteq> ''?'' then []
          else if first = ''10'' then [OscColorQuery 10]
          else if first = ''11'' then [OscColorQuery 11]
          else []
      | _ \<Rightarrow> [])"

fun vte_perform :: "vt_action \<Rightarrow> handler_call list" where
  "vte_perform (VtPrint c) = [HPrint c]"
| "vte_perform (VtExecute b) = execute_byte b"
| "vte_perform (VtCsi params intermediates _ action) = csi_dispatch params intermediates action"
| "vte_perform (VtOsc params _) = osc_dispatch params"
| "vte_perform (VtEsc _ _ _) = []"
| "vte_perform (VtHook _ _ _ _) = []"
| "vte_perform (VtPut _) = []"
| "vte_perform VtUnhook = []"

section \<open>The terminal\<close>

record cursor =
  cur_row :: nat
  cur_col :: nat

type_synonym rgb = "nat \<times> nat \<times> nat"

record 'p terminal_model =
  tm_parser :: 'p
  tm_grid :: grid
  tm_cursor :: cursor
  tm_sgr :: sgr_state
  tm_scrollback :: "cell list list"
  tm_scrollback_max_lines :: nat
  tm_rev :: nat
  tm_cursor_visible :: bool
  tm_focus_event_tracking :: bool
  tm_alt_screen :: bool
  tm_mouse_x10 :: bool
  tm_mouse_vt200 :: bool
  tm_mouse_drag :: bool
  tm_mouse_any :: bool
  tm_mouse_sgr :: bool
  tm_bracketed_paste :: bool
  tm_default_fg :: "rgb option"
  tm_default_bg :: "rgb option"
  tm_pending_osc_replies :: string

record 'p vte =
  parser_new :: 'p
  advance :: "'p \<Rightarrow> char \<Rightarrow> 'p \<times> vt_action list"

definition terminal_new :: "'p vte \<Rightarrow> nat \<Rightarrow> nat \<Rightarrow> nat \<Rightarrow> 'p terminal_model" where
  "terminal_new v cols rows scrollback_max =
     \<lparr>tm_parser = parser_new v, tm_grid = grid_new cols rows, tm_cursor = \<lparr>cur_row = 0, cur_col = 0\<rparr>,
      tm_sgr = sgr_default, tm_scrollback = [], tm_scrollback_max_lines = scrollback_max, tm_rev = 0,
      tm_cursor_visible = True, tm_focus_event_tracking = False, tm_alt_screen = False,
      tm_mouse_x10 = False, tm_mouse_vt200 = False, tm_mouse_drag = False, tm_mouse_any = False,
      tm_mouse_sgr = False, tm_bracketed_paste = False, tm_default_fg = None, tm_default_bg = None,
      tm_pending_osc_replies = []\<rparr>"

definition set_default_colors :: "rgb option \<Rightarrow> rgb option \<Rightarrow> 'p terminal_model \<Rightarrow> 'p terminal_model" where
  "set_default_colors fg bg m = m\<lparr>tm_default_fg := fg, tm_default_bg := bg\<rparr>"

definition with_colors ::
  "'p vte \<Rightarrow> nat \<Rightarrow> nat \<Rightarrow> nat \<Rightarrow> rgb option \<Rightarrow> rgb option \<Rightarrow> 'p terminal_model" where
  "with_colors v cols rows scrollback_max fg bg =
     set_default_colors fg bg (terminal_new v cols rows scrollback_max)"

definition take_pending_osc_replies :: "'p terminal_model \<Rightarrow> 'p terminal_model \<times> string" where
  "take_pending_osc_replies m = (m\<lparr>tm_pending_osc_replies := []\<rparr>, tm_pending_osc_replies m)"

definition bump :: "'p terminal_model \<Rightarrow> 'p terminal_model" where
  "bump m = m\<lparr>tm_rev := min (tm_rev m + 1) u32_max\<rparr>"

definition set_row :: "nat \<Rightarrow> 'p terminal_model \<Rightarrow> 'p terminal_model" where
  "set_row r m = m\<lparr>tm_cursor := (tm_cursor m)\<lparr>cur_row := r\<rparr>\<rparr>"

definition set_col :: "nat \<Rightarrow> 'p terminal_model \<Rightarrow> 'p terminal_model" where
  "set_col c m = m\<lparr>tm_cursor := (tm_cursor m)\<lparr>cur_col := c\<rparr>\<rparr>"

abbreviation row_of :: "'p terminal_model \<Rightarrow> nat" where
  "row_of m \<equiv> cur_row (tm_cursor m)"

abbreviation col_of :: "'p terminal_model \<Rightarrow> nat" where
  "col_of m \<equiv> cur_col (tm_cursor m)"

abbreviation cols_of :: "'p terminal_model \<Rightarrow> nat" where
  "cols_of m \<equiv> g_cols (tm_grid m)"

abbreviation rows_of :: "'p terminal_model \<Rightarrow> nat" where
  "rows_of m \<equiv> g_rows_count (tm_grid m)"

abbreviation lines_of :: "'p terminal_model \<Rightarrow> cell list list" where
  "lines_of m \<equiv> g_rows (tm_grid m)"

definition on_grid :: "(grid \<Rightarrow> grid) \<Rightarrow> 'p terminal_model \<Rightarrow> 'p terminal_model" where
  "on_grid f m = m\<lparr>tm_grid := f (tm_grid m)\<rparr>"

definition clamp_cursor :: "'p terminal_model \<Rightarrow> 'p terminal_model" where
  "clamp_cursor m =
     (let m1 = (if col_of m \<ge> cols_of m then set_col (cols_of m - 1) m else m)
      in if row_of m1 \<ge> rows_of m1 then set_row (rows_of m1 - 1) m1 else m1)"

text \<open>\<open>while scrollback.len() > max { scrollback.pop_front() }\<close>.\<close>

function pop_over :: "nat \<Rightarrow> 'a list \<Rightarrow> 'a list" where
  "pop_over n xs = (if length xs > n then pop_over n (tl xs) else xs)"
  by pat_completeness auto
termination by (relation "measure (length \<circ> snd)") auto

declare pop_over.simps [simp del]

definition push_scrollback :: "cell list \<Rightarrow> 'p terminal_model \<Rightarrow> 'p terminal_model" where
  "push_scrollback line m =
     m\<lparr>tm_scrollback := pop_over (tm_scrollback_max_lines m) (tm_scrollback m @ [line])\<rparr>"

definition scroll_up_once :: "'p terminal_model \<Rightarrow> 'p terminal_model" where
  "scroll_up_once m =
     (case lines_of m of
        [] \<Rightarrow> m
      | dropped # rest \<Rightarrow>
          push_scrollback dropped
            (on_grid (\<lambda>g. g\<lparr>g_rows := rest @ [replicate (g_cols g) cell_default]\<rparr>) m))"

definition scroll_up_inner :: "nat \<Rightarrow> 'p terminal_model \<Rightarrow> 'p terminal_model" where
  "scroll_up_inner n = scroll_up_once ^^ n"

definition scroll_down_once :: "'p terminal_model \<Rightarrow> 'p terminal_model" where
  "scroll_down_once =
     on_grid (\<lambda>g. g\<lparr>g_rows := replicate (g_cols g) cell_default # butlast (g_rows g)\<rparr>)"

definition scroll_down_inner :: "nat \<Rightarrow> 'p terminal_model \<Rightarrow> 'p terminal_model" where
  "scroll_down_inner n = scroll_down_once ^^ n"

definition newline :: "'p terminal_model \<Rightarrow> 'p terminal_model" where
  "newline m =
     (if add_u16 (row_of m) 1 \<ge> rows_of m then scroll_up_inner 1 m
      else set_row (add_u16 (row_of m) 1) m)"

section \<open>Select graphic rendition\<close>

definition extended_color :: "nat list \<Rightarrow> (color \<times> nat) option" where
  "extended_color rest =
     (case rest of
        [] \<Rightarrow> None
      | kind # r \<Rightarrow>
          if kind = 5 \<and> r \<noteq> [] then Some (Indexed (as_u8 (hd r)), 2)
          else if kind = 2 \<and> length r \<ge> 3 then Some (Rgb (as_u8 (r ! 0)) (as_u8 (r ! 1)) (as_u8 (r ! 2)), 4)
          else None)"

definition sgr_simple :: "nat \<Rightarrow> sgr_state \<Rightarrow> sgr_state" where
  "sgr_simple p s =
     (if p = 0 then sgr_default
      else if p = 1 then s\<lparr>sg_bold := True\<rparr>
      else if p = 2 then s\<lparr>sg_dim := True\<rparr>
      else if p = 3 then s\<lparr>sg_italic := True\<rparr>
      else if p = 4 then s\<lparr>sg_underline := True\<rparr>
      else if p = 7 then s\<lparr>sg_reverse := True\<rparr>
      else if p = 8 then s\<lparr>sg_hidden := True\<rparr>
      else if p = 9 then s\<lparr>sg_strikethrough := True\<rparr>
      else if p = 22 then s\<lparr>sg_bold := False, sg_dim := False\<rparr>
      else if p = 23 then s\<lparr>sg_italic := False\<rparr>
      else if p = 24 then s\<lparr>sg_underline := False\<rparr>
      else if p = 27 then s\<lparr>sg_reverse := False\<rparr>
      else if p = 28 then s\<lparr>sg_hidden := False\<rparr>
      else if p = 29 then s\<lparr>sg_strikethrough := False\<rparr>
      else if 30 \<le> p \<and> p \<le> 37 then s\<lparr>sg_fg := Indexed (as_u8 (p - 30))\<rparr>
      else if p = 39 then s\<lparr>sg_fg := DefaultColor\<rparr>
      else if 40 \<le> p \<and> p \<le> 47 then s\<lparr>sg_bg := Indexed (as_u8 (p - 40))\<rparr>
      else if p = 49 then s\<lparr>sg_bg := DefaultColor\<rparr>
      else if 90 \<le> p \<and> p \<le> 97 then s\<lparr>sg_fg := Indexed (8 + as_u8 (p - 90))\<rparr>
      else if 100 \<le> p \<and> p \<le> 107 then s\<lparr>sg_bg := Indexed (8 + as_u8 (p - 100))\<rparr>
      else s)"

text \<open>The loop over the parameters, from index \<open>i\<close> on; an extended colour skips its own parameters.\<close>

function sgr_loop :: "nat list \<Rightarrow> sgr_state \<Rightarrow> sgr_state" where
  "sgr_loop params s =
     (case params of
        [] \<Rightarrow> s
      | p # rest \<Rightarrow>
          if p = 38 then
            (case extended_color rest of
               None \<Rightarrow> sgr_loop rest s
             | Some (c, skip) \<Rightarrow> sgr_loop (drop skip rest) (s\<lparr>sg_fg := c\<rparr>))
          else if p = 48 then
            (case extended_color rest of
               None \<Rightarrow> sgr_loop rest s
             | Some (c, skip) \<Rightarrow> sgr_loop (drop skip rest) (s\<lparr>sg_bg := c\<rparr>))
          else sgr_loop rest (sgr_simple p s))"
  by pat_completeness auto
termination by (relation "measure (length \<circ> fst)") auto

declare sgr_loop.simps [simp del]

definition set_sgr :: "nat list \<Rightarrow> 'p terminal_model \<Rightarrow> 'p terminal_model" where
  "set_sgr params m =
     bump (m\<lparr>tm_sgr := (if params = [] then sgr_default else sgr_loop params (tm_sgr m))\<rparr>)"

section \<open>The methods of the handler\<close>

definition print_char :: "nat \<Rightarrow> 'p terminal_model \<Rightarrow> 'p terminal_model" where
  "print_char c m =
     (let x = \<lparr>cell_ch = c, cell_sgr = tm_sgr m\<rparr>;
          m1 = clamp_cursor m;
          m2 = on_grid (set_cell (row_of m1) (col_of m1) x) m1
      in bump (if add_u16 (col_of m2) 1 < cols_of m2 then set_col (add_u16 (col_of m2) 1) m2
               else set_col (cols_of m2 - 1) m2))"

definition carriage_return :: "'p terminal_model \<Rightarrow> 'p terminal_model" where
  "carriage_return m = bump (set_col 0 m)"

definition line_feed :: "'p terminal_model \<Rightarrow> 'p terminal_model" where
  "line_feed m = bump (newline m)"

definition backspace :: "'p terminal_model \<Rightarrow> 'p terminal_model" where
  "backspace m = (if col_of m > 0 then bump (set_col (col_of m - 1) m) else m)"

definition horizontal_tab :: "'p terminal_model \<Rightarrow> 'p terminal_model" where
  "horizontal_tab m =
     bump (set_col (min (mul_u16 (add_u16 (col_of m div 8) 1) 8) (cols_of m - 1)) m)"

definition cursor_up :: "nat \<Rightarrow> 'p terminal_model \<Rightarrow> 'p terminal_model" where
  "cursor_up n m = bump (set_row (row_of m - n) m)"

definition cursor_down :: "nat \<Rightarrow> 'p terminal_model \<Rightarrow> 'p terminal_model" where
  "cursor_down n m = bump (set_row (min (sat_add_u16 (row_of m) n) (rows_of m - 1)) m)"

definition cursor_forward :: "nat \<Rightarrow> 'p terminal_model \<Rightarrow> 'p terminal_model" where
  "cursor_forward n m = bump (set_col (min (sat_add_u16 (col_of m) n) (cols_of m - 1)) m)"

definition cursor_backward :: "nat \<Rightarrow> 'p terminal_model \<Rightarrow> 'p terminal_model" where
  "cursor_backward n m = bump (set_col (col_of m - n) m)"

definition cursor_to :: "nat \<Rightarrow> nat \<Rightarrow> 'p terminal_model \<Rightarrow> 'p terminal_model" where
  "cursor_to r c m = bump (set_col (min c (cols_of m - 1)) (set_row (min r (rows_of m - 1)) m))"

definition cursor_column :: "nat \<Rightarrow> 'p terminal_model \<Rightarrow> 'p terminal_model" where
  "cursor_column c m = bump (set_col (min c (cols_of m - 1)) m)"

definition cursor_row :: "nat \<Rightarrow> 'p terminal_model \<Rightarrow> 'p terminal_model" where
  "cursor_row r m = bump (set_row (min r (rows_of m - 1)) m)"

definition erase_screen :: "erase_mode \<Rightarrow> 'p terminal_model \<Rightarrow> 'p terminal_model" where
  "erase_screen mode m =
     bump (on_grid
       (case mode of
          ToEnd \<Rightarrow> (\<lambda>g. fold clear_row [add_u16 (row_of m) 1..<rows_of m]
                      (clear_row_from (row_of m) (col_of m) g))
        | ToStart \<Rightarrow> (\<lambda>g. clear_row_to (row_of m) (col_of m) (fold clear_row [0..<row_of m] g))
        | EraseAll \<Rightarrow> clear_all) m)"

definition erase_line :: "erase_mode \<Rightarrow> 'p terminal_model \<Rightarrow> 'p terminal_model" where
  "erase_line mode m =
     bump (on_grid
       (case mode of
          ToEnd \<Rightarrow> clear_row_from (row_of m) (col_of m)
        | ToStart \<Rightarrow> clear_row_to (row_of m) (col_of m)
        | EraseAll \<Rightarrow> clear_row (row_of m)) m)"

definition scroll_up :: "nat \<Rightarrow> 'p terminal_model \<Rightarrow> 'p terminal_model" where
  "scroll_up n m = bump (scroll_up_inner n m)"

definition scroll_down :: "nat \<Rightarrow> 'p terminal_model \<Rightarrow> 'p terminal_model" where
  "scroll_down n m = bump (scroll_down_inner n m)"

definition set_cursor_visible :: "bool \<Rightarrow> 'p terminal_model \<Rightarrow> 'p terminal_model" where
  "set_cursor_visible b m = bump (m\<lparr>tm_cursor_visible := b\<rparr>)"

definition set_mouse_mode :: "nat \<Rightarrow> bool \<Rightarrow> 'p terminal_model \<Rightarrow> 'p terminal_model" where
  "set_mouse_mode code b m =
     (if code = 9 then m\<lparr>tm_mouse_x10 := b\<rparr>
      else if code = 1000 then m\<lparr>tm_mouse_vt200 := b\<rparr>
      else if code = 1002 then m\<lparr>tm_mouse_drag := b\<rparr>
      else if code = 1003 then m\<lparr>tm_mouse_any := b\<rparr>
      else if code = 1006 then m\<lparr>tm_mouse_sgr := b\<rparr>
      else m)"

definition push_reply :: "string \<Rightarrow> 'p terminal_model \<Rightarrow> 'p terminal_model" where
  "push_reply bytes m = m\<lparr>tm_pending_osc_replies := tm_pending_osc_replies m @ bytes\<rparr>"

definition device_status_report_cursor :: "'p terminal_model \<Rightarrow> 'p terminal_model" where
  "device_status_report_cursor m =
     push_reply ([ESC] @ ''['' @ show_nat (sat_add_u16 (row_of m) 1) @ '';''
       @ show_nat (sat_add_u16 (col_of m) 1) @ ''R'') m"

definition hex_char :: "nat \<Rightarrow> char" where
  "hex_char d = char_of (if d < 10 then 48 + d else 87 + d)"

definition hex4 :: "nat \<Rightarrow> string" where
  "hex4 n = map hex_char [n div 4096 mod 16, n div 256 mod 16, n div 16 mod 16, n mod 16]"

definition osc_color_query :: "nat \<Rightarrow> 'p terminal_model \<Rightarrow> 'p terminal_model" where
  "osc_color_query slot m =
     (case (if slot = 10 then tm_default_fg m else if slot = 11 then tm_default_bg m else None) of
        None \<Rightarrow> m
      | Some (r, g, b) \<Rightarrow>
          push_reply ([ESC] @ '']'' @ show_nat slot @ '';rgb:'' @ hex4 (mul_u16 r 257) @ ''/''
            @ hex4 (mul_u16 g 257) @ ''/'' @ hex4 (mul_u16 b 257) @ [ESC, CHR 0x5C]) m)"

fun handle_call :: "handler_call \<Rightarrow> 'p terminal_model \<Rightarrow> 'p terminal_model" where
  "handle_call (HPrint c) m = print_char c m"
| "handle_call CarriageReturn m = carriage_return m"
| "handle_call LineFeed m = line_feed m"
| "handle_call Backspace m = backspace m"
| "handle_call HorizontalTab m = horizontal_tab m"
| "handle_call Bell m = m"
| "handle_call (CursorUp n) m = cursor_up n m"
| "handle_call (CursorDown n) m = cursor_down n m"
| "handle_call (CursorForward n) m = cursor_forward n m"
| "handle_call (CursorBackward n) m = cursor_backward n m"
| "handle_call (CursorTo r c) m = cursor_to r c m"
| "handle_call (CursorColumn c) m = cursor_column c m"
| "handle_call (CursorRow r) m = cursor_row r m"
| "handle_call (EraseScreen mode) m = erase_screen mode m"
| "handle_call (EraseLine mode) m = erase_line mode m"
| "handle_call (ScrollUp n) m = scroll_up n m"
| "handle_call (ScrollDown n) m = scroll_down n m"
| "handle_call (SetSgr params) m = set_sgr params m"
| "handle_call (SetCursorVisible b) m = set_cursor_visible b m"
| "handle_call EnterAltScreen m = m\<lparr>tm_alt_screen := True\<rparr>"
| "handle_call ExitAltScreen m = m\<lparr>tm_alt_screen := False\<rparr>"
| "handle_call (SetMouseMode code b) m = set_mouse_mode code b m"
| "handle_call (SetBracketedPaste b) m = m\<lparr>tm_bracketed_paste := b\<rparr>"
| "handle_call (SetFocusEventTracking b) m = m\<lparr>tm_focus_event_tracking := b\<rparr>"
| "handle_call (OscColorQuery slot) m = osc_color_query slot m"
| "handle_call DeviceStatusReportCursor m = device_status_report_cursor m"
| "handle_call KittyKeyboardQuery m = push_reply ([ESC] @ ''[?0u'') m"
| "handle_call DeviceAttributesPrimary m = push_reply ([ESC] @ ''[?1;0c'') m"

section \<open>Feeding bytes\<close>

definition perform_action :: "vt_action \<Rightarrow> 'p terminal_model \<Rightarrow> 'p terminal_model" where
  "perform_action a m = fold handle_call (vte_perform a) m"

fun feed_bytes :: "'p vte \<Rightarrow> 'p \<Rightarrow> string \<Rightarrow> 'p terminal_model \<Rightarrow> 'p \<times> 'p terminal_model" where
  "feed_bytes v p [] m = (p, m)"
| "feed_bytes v p (b # bs) m =
     (case advance v p b of (p', acts) \<Rightarrow> feed_bytes v p' bs (fold perform_action acts m))"

definition feed :: "'p vte \<Rightarrow> string \<Rightarrow> 'p terminal_model \<Rightarrow> 'p terminal_model" where
  "feed v bytes m =
     (case feed_bytes v (tm_parser m) bytes (m\<lparr>tm_parser := parser_new v\<rparr>) of
        (p, m') \<Rightarrow> m'\<lparr>tm_parser := p\<rparr>)"

section \<open>Resizing\<close>

definition resize_line :: "nat \<Rightarrow> cell list \<Rightarrow> cell list" where
  "resize_line n row = take n row @ replicate (n - length row) cell_default"

definition drop_line :: "'p terminal_model \<Rightarrow> 'p terminal_model" where
  "drop_line m =
     (let last_idx = length (lines_of m) - 1
      in if last_idx > row_of m \<and> list_all is_blank (lines_of m ! last_idx)
         then on_grid (\<lambda>g. g\<lparr>g_rows := butlast (g_rows g)\<rparr>) m
         else (case lines_of m of
             [] \<Rightarrow> m
           | dropped # rest \<Rightarrow>
               set_row (row_of m - 1)
                 (push_scrollback dropped (on_grid (\<lambda>g. g\<lparr>g_rows := rest\<rparr>) m))))"

definition resize_rows :: "nat \<Rightarrow> nat \<Rightarrow> 'p terminal_model \<Rightarrow> 'p terminal_model" where
  "resize_rows new_cols target m =
     (let cur = length (lines_of m)
      in if target > cur
         then on_grid (\<lambda>g. g\<lparr>g_rows := g_rows g @ replicate (target - cur) (replicate new_cols cell_default)\<rparr>) m
         else (drop_line ^^ (cur - target)) m)"

definition resize :: "nat \<Rightarrow> nat \<Rightarrow> 'p terminal_model \<Rightarrow> 'p terminal_model" where
  "resize cols rows m =
     (let new_cols = max cols 1; new_rows = max rows 1
      in if new_cols = cols_of m \<and> new_rows = rows_of m then bump m
         else
           let m1 = (if new_cols \<noteq> cols_of m
                     then on_grid (\<lambda>g. g\<lparr>g_rows := map (resize_line new_cols) (g_rows g), g_cols := new_cols\<rparr>) m
                     else m);
               m2 = resize_rows new_cols new_rows m1
           in bump (clamp_cursor (on_grid (\<lambda>g. g\<lparr>g_rows_count := new_rows\<rparr>) m2)))"

section \<open>Writing the screen out\<close>

definition host_mode :: "bool \<Rightarrow> nat \<Rightarrow> string" where
  "host_mode on n = (if on then [ESC] @ ''[?'' @ show_nat n @ ''h'' else [])"

definition emit_host_modes :: "'p terminal_model \<Rightarrow> string" where
  "emit_host_modes m =
     host_mode (tm_alt_screen m) 1049 @ host_mode (tm_mouse_x10 m) 9 @ host_mode (tm_mouse_vt200 m) 1000
     @ host_mode (tm_mouse_drag m) 1002 @ host_mode (tm_mouse_any m) 1003 @ host_mode (tm_mouse_sgr m) 1006
     @ host_mode (tm_focus_event_tracking m) 1004 @ host_mode (tm_bracketed_paste m) 2004"

fun paint_cells :: "sgr_state \<Rightarrow> cell list \<Rightarrow> string" where
  "paint_cells pen [] = []"
| "paint_cells pen (c # cs) =
     (if cell_sgr c \<noteq> pen then to_sgr_bytes (cell_sgr c) else [])
     @ push_char_utf8 (cell_ch c) @ paint_cells (cell_sgr c) cs"

definition last_non_blank :: "cell list \<Rightarrow> nat option" where
  "last_non_blank cs =
     foldl (\<lambda>found (k, c). if \<not> is_blank c then Some k else found) None (enumerate 0 cs)"

definition painted :: "cell list \<Rightarrow> string" where
  "painted cs =
     (case last_non_blank cs of None \<Rightarrow> [] | Some e \<Rightarrow> paint_cells sgr_default (take (Suc e) cs))"

definition snapshot_row :: "grid \<Rightarrow> nat \<Rightarrow> nat \<Rightarrow> string" where
  "snapshot_row g target_cols r =
     [ESC] @ ''['' @ show_nat (add_u16 r 1) @ '';1H'' @ [ESC] @ ''[0m''
     @ painted (map (grid_cell g r) [0..<target_cols]) @ [ESC] @ ''[K''"

definition snapshot_vt :: "nat \<Rightarrow> nat \<Rightarrow> 'p terminal_model \<Rightarrow> string" where
  "snapshot_vt target_cols target_rows m =
     (let cols = max target_cols 1; rows = max target_rows 1
      in emit_host_modes m @ [ESC] @ ''[?25l'' @ [ESC] @ ''[2J'' @ [ESC] @ ''[H''
         @ concat (map (snapshot_row (tm_grid m) cols) [0..<rows])
         @ [ESC] @ ''[0m''
         @ [ESC] @ ''['' @ show_nat (add_u16 (min (row_of m) (rows - 1)) 1) @ '';''
         @ show_nat (add_u16 (min (col_of m) (cols - 1)) 1) @ ''H''
         @ (if tm_cursor_visible m then [ESC] @ ''[?25h'' else [ESC] @ ''[?25l''))"

datatype scrollback_limit = NoScrollback | AllLines | Lines nat

definition scrollback_vt :: "scrollback_limit \<Rightarrow> 'p terminal_model \<Rightarrow> string" where
  "scrollback_vt limit m =
     (let len = length (tm_scrollback m);
          keep = (case limit of NoScrollback \<Rightarrow> 0 | AllLines \<Rightarrow> len | Lines n \<Rightarrow> min n len)
      in concat (map (\<lambda>line. [ESC] @ ''[0m'' @ painted line @ [ESC] @ ''[K'' @ [CHR 0x0D, CHR 0x0A])
           (drop (len - keep) (tm_scrollback m))))"

end
