(* ===== verification/Terminal_Owner.thy ===== *)
theory Terminal_Owner
  imports Calm_Prelude
begin

text \<open>
  Who may drive a terminal: the registry that issues leases (crates/calm-session/src/terminal\_owner.rs)
  and the check a captured permission passes again when its bytes are written
  (crates/calm-server/src/terminal\_renderer/input\_authority.rs). A \<open>Uuid\<close> is a number; the generation of
  a lease is a u64 that is never reused.
\<close>

type_synonym uuid = nat

datatype client_role = Owner | Observer

record owner_lease =
  ol_client_id :: uuid
  ol_generation :: u64

record owner_registry =
  or_owner :: "owner_lease option"
  or_generation :: u64

definition registry_new :: owner_registry where
  "registry_new = \<lparr>or_owner = None, or_generation = 0\<rparr>"

definition claim :: "uuid \<Rightarrow> owner_registry \<Rightarrow> owner_registry \<times> owner_lease option" where
  "claim cid reg =
     (case checked_succ (or_generation reg) of
        None \<Rightarrow> (reg, None)
      | Some g \<Rightarrow>
          let lease = \<lparr>ol_client_id = cid, ol_generation = g\<rparr>
          in (\<lparr>or_owner = Some lease, or_generation = g\<rparr>, Some lease))"

definition on_attach :: "uuid \<Rightarrow> client_role option \<Rightarrow> owner_registry \<Rightarrow> owner_registry \<times> client_role" where
  "on_attach cid role_hint reg =
     (if or_owner reg = None \<and> role_hint \<noteq> Some Observer
      then (case claim cid reg of
              (reg', Some _) \<Rightarrow> (reg', Owner)
            | (reg', None) \<Rightarrow> (reg', Observer))
      else (reg, Observer))"

definition current_owner :: "owner_registry \<Rightarrow> uuid option" where
  "current_owner reg = map_option ol_client_id (or_owner reg)"

definition is_current :: "owner_lease \<Rightarrow> owner_registry \<Rightarrow> bool" where
  "is_current lease reg \<longleftrightarrow> or_owner reg = Some lease"

definition release :: "owner_lease \<Rightarrow> owner_registry \<Rightarrow> owner_registry \<times> bool" where
  "release lease reg =
     (if or_owner reg = Some lease then (reg\<lparr>or_owner := None\<rparr>, True) else (reg, False))"

datatype input_permission = PermOwner owner_lease | PermKernel | PermDenied

text \<open>The check of \<open>WriteAuthority::admit\<close> on the permission of a connection.\<close>

fun permission_allowed :: "input_permission \<Rightarrow> owner_registry \<Rightarrow> bool" where
  "permission_allowed (PermOwner lease) reg = is_current lease reg"
| "permission_allowed PermKernel reg = True"
| "permission_allowed PermDenied reg = False"

section \<open>Generations\<close>

text \<open>The owner's lease is not newer than the registry, and no operation makes the registry older.\<close>

definition registry_wf :: "owner_registry \<Rightarrow> bool" where
  "registry_wf reg \<longleftrightarrow> (\<forall>l. or_owner reg = Some l \<longrightarrow> unat (ol_generation l) \<le> unat (or_generation reg))"

text \<open>A step of the registry: nothing, a new lease of the next generation, or no owner.\<close>

definition registry_step :: "owner_registry \<Rightarrow> owner_registry \<Rightarrow> bool" where
  "registry_step reg reg' \<longleftrightarrow>
     reg' = reg \<or> reg' = reg\<lparr>or_owner := None\<rparr> \<or>
     (\<exists>l. or_owner reg' = Some l \<and> or_generation reg' = ol_generation l \<and>
        unat (ol_generation l) = Suc (unat (or_generation reg)))"

lemma claim_cases:
  assumes "claim cid reg = (reg', res)"
  obtains (exhausted) "res = None" "reg' = reg" "or_generation reg = - 1"
  | (lease) l where "res = Some l" "ol_client_id l = cid" "or_owner reg' = Some l"
      "or_generation reg' = ol_generation l" "unat (ol_generation l) = Suc (unat (or_generation reg))"
proof (cases "or_generation reg = - 1")
  case True
  then show ?thesis using assms exhausted by (simp add: claim_def checked_succ_def)
next
  case False
  then show ?thesis
    using assms lease [of "\<lparr>ol_client_id = cid, ol_generation = or_generation reg + 1\<rparr>"]
    by (auto simp: claim_def checked_succ_def Let_def unat_succ_word)
qed

lemma claim_step: "registry_step reg (fst (claim cid reg))"
proof -
  obtain reg' res where c: "claim cid reg = (reg', res)" by fastforce
  then show ?thesis by (cases rule: claim_cases) (auto simp: registry_step_def c)
qed

lemma on_attach_cases:
  assumes "on_attach cid hint reg = (reg', r)"
  obtains (observer) "r = Observer" "reg' = reg"
  | (owner) l where "r = Owner" "or_owner reg = None" "hint \<noteq> Some Observer" "ol_client_id l = cid"
      "or_owner reg' = Some l" "or_generation reg' = ol_generation l"
      "unat (ol_generation l) = Suc (unat (or_generation reg))"
proof (cases "or_owner reg = None \<and> hint \<noteq> Some Observer")
  case True
  obtain reg1 res where c: "claim cid reg = (reg1, res)" by fastforce
  then show ?thesis
    by (cases rule: claim_cases) (use True assms c observer owner in \<open>auto simp: on_attach_def\<close>)
qed (use assms observer in \<open>auto simp: on_attach_def\<close>)

lemma on_attach_step: "registry_step reg (fst (on_attach cid hint reg))"
proof -
  obtain reg' r where a: "on_attach cid hint reg = (reg', r)" by fastforce
  then show ?thesis by (cases rule: on_attach_cases) (auto simp: registry_step_def a)
qed

lemma release_step: "registry_step reg (fst (release l reg))"
  by (simp add: release_def registry_step_def)

lemma registry_step_wf:
  assumes "registry_step reg reg'" "registry_wf reg"
  shows "registry_wf reg' \<and> unat (or_generation reg) \<le> unat (or_generation reg')"
  using assms by (auto simp: registry_step_def registry_wf_def)

section \<open>Leases over a run\<close>

text \<open>What the users of a registry rely on: leases are issued once, and a lapsed one stays lapsed.\<close>

locale lease_issuer =
  fixes step :: "'r \<Rightarrow> 'r \<Rightarrow> bool" and issued :: "'l \<Rightarrow> 'r \<Rightarrow> bool" and current :: "'l \<Rightarrow> 'r \<Rightarrow> bool"
  assumes step_issued: "step r r' \<Longrightarrow> issued l r \<Longrightarrow> issued l r'"
    and step_lapsed: "step r r' \<Longrightarrow> issued l r \<Longrightarrow> \<not> current l r \<Longrightarrow> \<not> current l r'"
begin

lemma run_issued: "step\<^sup>*\<^sup>* r r' \<Longrightarrow> issued l r \<Longrightarrow> issued l r'"
  by (induction rule: rtranclp_induct) (auto intro: step_issued)

lemma run_lapsed: "step\<^sup>*\<^sup>* r r' \<Longrightarrow> issued l r \<Longrightarrow> \<not> current l r \<Longrightarrow> \<not> current l r'"
proof (induction rule: rtranclp_induct)
  case (step y z)
  then show ?case using step_lapsed run_issued by blast
qed

end

definition issued_by :: "owner_lease \<Rightarrow> owner_registry \<Rightarrow> bool" where
  "issued_by l reg \<longleftrightarrow> unat (ol_generation l) \<le> unat (or_generation reg)"

interpretation leases: lease_issuer registry_step issued_by is_current
  by unfold_locales (auto simp: issued_by_def registry_step_def is_current_def)

end
