(* ===== verification/Terminal_Session.thy ===== *)
theory Terminal_Session
  imports Terminal_Model Terminal_Owner
begin

text \<open>
  The protocol of a terminal (crates/calm-session/src/lib.rs, terminal\_session.rs): the messages, the state
  machine of one connection, the ring of recent output, and the render plane that feeds the terminal
  model and broadcasts patches and snapshots. The code does no I/O: it returns effects for its caller
  to carry out. An \<open>Instant\<close> is a number of milliseconds and is an argument where the source reads its
  clock; an installed observer is the list of calls it has received. The text of a mismatch, which the
  source prints with Rust's debug format, is kept as the two texts it prints.
\<close>

section \<open>Messages\<close>

definition PROTOCOL_VERSION :: nat where
  "PROTOCOL_VERSION = 4"

datatype render_encoding = Vt

datatype initial_scrollback = IsNone | IsAll | IsLines nat

record pty_size =
  ps_cols :: nat
  ps_rows :: nat
  ps_pixel_width :: "nat option"
  ps_pixel_height :: "nat option"

record cell_size =
  cs_width :: nat
  cs_height :: nat

record resume_from =
  rf_render_rev :: "nat option"
  rf_pty_seq :: "nat option"

record client_capabilities =
  cc_render_encodings :: "render_encoding list"
  cc_supports_scrollback :: bool
  cc_supports_sixel :: bool
  cc_supports_images :: bool
  cc_kernel_originated_input :: bool

record render_snapshot =
  rs_render_rev :: nat
  rs_pty_seq :: nat
  rs_cols :: nat
  rs_rows :: nat
  rs_encoding :: render_encoding
  rs_data :: string
  rs_scrollback :: "string option"

record render_patch =
  rp_render_rev :: nat
  rp_prev_render_rev :: nat
  rp_pty_seq :: nat
  rp_encoding :: render_encoding
  rp_data :: string

record history_gap =
  hg_requested_render_rev :: "nat option"
  hg_requested_pty_seq :: "nat option"
  hg_earliest_render_rev :: nat
  hg_earliest_pty_seq :: nat
  hg_requires_snapshot :: bool

datatype backpressure_policy = LatestOnly | BpSnapshotRequired | BpClose

datatype protocol_error_code =
  UnsupportedVersion | NotOwner | BadSequence | SnapshotMissing | UnsupportedEncoding | BadHandshake

record client_hello =
  ch_protocol_version :: nat
  ch_terminal_id :: string
  ch_client_id :: uuid
  ch_desired_size :: pty_size
  ch_cell_size :: "cell_size option"
  ch_initial_scrollback :: initial_scrollback
  ch_resume_from :: "resume_from option"
  ch_role_hint :: "client_role option"
  ch_capabilities :: client_capabilities

datatype client_msg =
    ClientHello client_hello
  | Input string nat
  | ResizeCommit nat nat nat
  | OwnerClaim
  | OwnerRelease
  | RenderAck nat "nat option"
  | Kill
  | AnswerQuestion uuid "(string \<times> string) list"
  | ThemeUpdate rgb rgb

record server_hello =
  sh_protocol_version :: nat
  sh_terminal_id :: string
  sh_session_id :: uuid
  sh_client_role :: client_role
  sh_owner_client_id :: "uuid option"
  sh_pty_size :: pty_size
  sh_pty_seq_head :: nat
  sh_pty_seq_tail :: nat
  sh_render_rev :: nat
  sh_snapshot :: render_snapshot
  sh_history_gap :: "history_gap option"
  sh_is_child_ready :: bool

datatype message_text = Text string | TerminalIdMismatch string string

datatype daemon_msg =
    ServerHello server_hello
  | RenderSnapshot render_snapshot
  | RenderPatch render_patch
  | ResizeApplied nat nat nat nat nat
  | OwnerChanged "uuid option"
  | Backpressure backpressure_policy
  | SnapshotRequired string
  | TerminalExited "i32 option" nat nat
  | ProtocolError protocol_error_code message_text "nat option"
  | ChildReady nat nat
  | InputAck nat

datatype effect =
    SendToClient daemon_msg
  | Broadcast daemon_msg
  | ResizePty nat nat
  | WriteToPty string nat
  | KillChild
  | SendProtocolError protocol_error_code message_text "nat option"
  | CloseConnection
  | AssignOwner "uuid option"
  | BroadcastOwnerChanged "uuid option"
  | ProtocolViolation string
  | TerminalThemeUpdate rgb rgb

section \<open>The ring of recent output\<close>

record byte_ring =
  br_chunks :: "string list"
  br_total_bytes :: nat
  br_max_bytes :: nat

definition ring_new :: "nat \<Rightarrow> byte_ring" where
  "ring_new max_bytes = \<lparr>br_chunks = [], br_total_bytes = 0, br_max_bytes = max_bytes\<rparr>"

text \<open>The loop that evicts whole chunks, with the number it evicted.\<close>

function ring_evict :: "byte_ring \<Rightarrow> nat \<Rightarrow> byte_ring \<times> nat" where
  "ring_evict b n =
     (if br_total_bytes b > br_max_bytes b \<and> length (br_chunks b) > 1
      then ring_evict (b\<lparr>br_chunks := tl (br_chunks b),
             br_total_bytes := br_total_bytes b - length (hd (br_chunks b))\<rparr>) (Suc n)
      else (b, n))"
  by pat_completeness auto
termination by (relation "measure (\<lambda>(b, n). length (br_chunks b))") auto

declare ring_evict.simps [simp del]

definition ring_push :: "string \<Rightarrow> byte_ring \<Rightarrow> byte_ring" where
  "ring_push bytes b =
     b\<lparr>br_total_bytes := br_total_bytes b + length bytes, br_chunks := br_chunks b @ [bytes]\<rparr>"

definition ring_append :: "string \<Rightarrow> byte_ring \<Rightarrow> byte_ring" where
  "ring_append bytes b = fst (ring_evict (ring_push bytes b) 0)"

definition ring_snapshot :: "byte_ring \<Rightarrow> string" where
  "ring_snapshot b = concat (br_chunks b)"

section \<open>One connection\<close>

record session_context =
  cx_terminal_id :: string
  cx_session_id :: uuid
  cx_pty_size :: pty_size
  cx_pty_seq_head :: nat
  cx_pty_seq_tail :: nat
  cx_render_rev :: nat
  cx_is_child_ready :: bool
  cx_current_default_fg :: "rgb option"
  cx_current_default_bg :: "rgb option"

record terminal_session_state =
  ts_attached :: bool
  ts_client_id :: "uuid option"
  ts_role :: "client_role option"
  ts_owner_lease :: "owner_lease option"
  ts_resize_epoch :: nat
  ts_last_render_acked_rev :: "nat option"
  ts_capabilities :: "client_capabilities option"

definition session_new :: terminal_session_state where
  "session_new = \<lparr>ts_attached = False, ts_client_id = None, ts_role = None, ts_owner_lease = None,
     ts_resize_epoch = 0, ts_last_render_acked_rev = None, ts_capabilities = None\<rparr>"

definition kernel_input :: "terminal_session_state \<Rightarrow> bool" where
  "kernel_input st = (case ts_capabilities st of None \<Rightarrow> False | Some c \<Rightarrow> cc_kernel_originated_input c)"

definition input_permission_of :: "terminal_session_state \<Rightarrow> input_permission" where
  "input_permission_of st =
     (case ts_owner_lease st of
        Some lease \<Rightarrow> PermOwner lease
      | None \<Rightarrow> if kernel_input st then PermKernel else PermDenied)"

definition release_owner ::
  "terminal_session_state \<Rightarrow> owner_registry \<Rightarrow> terminal_session_state \<times> owner_registry \<times> bool" where
  "release_owner st reg =
     (let (reg', released) = (case ts_owner_lease st of None \<Rightarrow> (reg, False) | Some lease \<Rightarrow> release lease reg);
          st1 = st\<lparr>ts_owner_lease := None\<rparr>
      in (if ts_attached st then st1\<lparr>ts_role := Some Observer\<rparr> else st1, reg', released))"

definition INPUT_REQUIRES_OWNER_ROLE :: string where
  "INPUT_REQUIRES_OWNER_ROLE = ''Input requires owner role or kernel_originated_input capability''"

definition not_owner_error :: "string \<Rightarrow> effect" where
  "not_owner_error message = SendProtocolError NotOwner (Text message) None"

definition reject :: "protocol_error_code \<Rightarrow> message_text \<Rightarrow> effect list" where
  "reject code message = [SendProtocolError code message (Some PROTOCOL_VERSION), CloseConnection]"

definition hello_snapshot :: "byte_ring \<Rightarrow> session_context \<Rightarrow> initial_scrollback \<Rightarrow> render_snapshot" where
  "hello_snapshot buffer ctx scrollback =
     \<lparr>rs_render_rev = cx_render_rev ctx, rs_pty_seq = cx_pty_seq_tail ctx,
      rs_cols = ps_cols (cx_pty_size ctx), rs_rows = ps_rows (cx_pty_size ctx), rs_encoding = Vt,
      rs_data = ring_snapshot buffer,
      rs_scrollback = (case scrollback of
         IsNone \<Rightarrow> None | IsAll \<Rightarrow> Some (ring_snapshot buffer) | IsLines _ \<Rightarrow> Some (ring_snapshot buffer))\<rparr>"

definition attach ::
  "client_hello \<Rightarrow> terminal_session_state \<Rightarrow> byte_ring \<Rightarrow> owner_registry \<Rightarrow> session_context \<Rightarrow>
     terminal_session_state \<times> owner_registry \<times> effect list" where
  "attach h st buffer reg ctx =
     (let (reg', role) = on_attach (ch_client_id h) (ch_role_hint h) reg;
          st' = st\<lparr>ts_attached := True, ts_client_id := Some (ch_client_id h), ts_role := Some role,
                   ts_owner_lease := (if role = Owner then or_owner reg' else None),
                   ts_capabilities := Some (ch_capabilities h)\<rparr>;
          hello = \<lparr>sh_protocol_version = PROTOCOL_VERSION, sh_terminal_id = ch_terminal_id h,
                   sh_session_id = cx_session_id ctx, sh_client_role = role,
                   sh_owner_client_id = current_owner reg', sh_pty_size = cx_pty_size ctx,
                   sh_pty_seq_head = cx_pty_seq_head ctx, sh_pty_seq_tail = cx_pty_seq_tail ctx,
                   sh_render_rev = cx_render_rev ctx,
                   sh_snapshot = hello_snapshot buffer ctx (ch_initial_scrollback h),
                   sh_history_gap = None, sh_is_child_ready = cx_is_child_ready ctx\<rparr>
      in (st', reg', [SendToClient (ServerHello hello)]))"

definition process_hello ::
  "client_msg \<Rightarrow> terminal_session_state \<Rightarrow> byte_ring \<Rightarrow> owner_registry \<Rightarrow> session_context \<Rightarrow>
     terminal_session_state \<times> owner_registry \<times> effect list" where
  "process_hello msg st buffer reg ctx =
     (case msg of
        ClientHello h \<Rightarrow>
          if ch_protocol_version h \<noteq> PROTOCOL_VERSION
          then (st, reg, reject UnsupportedVersion (Text (''protocol_version ''
                 @ show_nat (ch_protocol_version h) @ '' != '' @ show_nat PROTOCOL_VERSION)))
          else if ch_terminal_id h \<noteq> cx_terminal_id ctx
          then (st, reg, reject BadHandshake (TerminalIdMismatch (ch_terminal_id h) (cx_terminal_id ctx)))
          else if Vt \<notin> set (cc_render_encodings (ch_capabilities h))
          then (st, reg, reject UnsupportedEncoding (Text ''client capabilities do not include Vt''))
          else attach h st buffer reg ctx
      | _ \<Rightarrow> (st, reg, reject BadHandshake (Text ''expected ClientHello as first message'')))"

text \<open>Only the current lease authorises: a connection whose lease was taken over is an observer.\<close>

definition refresh_lease :: "owner_registry \<Rightarrow> terminal_session_state \<Rightarrow> terminal_session_state" where
  "refresh_lease reg st =
     (if ts_owner_lease st \<noteq> None \<and> ts_owner_lease st \<noteq> or_owner reg
      then st\<lparr>ts_owner_lease := None, ts_role := Some Observer\<rparr> else st)"

definition on_owner_claim ::
  "terminal_session_state \<Rightarrow> owner_registry \<Rightarrow> terminal_session_state \<times> owner_registry \<times> effect list" where
  "on_owner_claim st reg =
     (case ts_client_id st of
        None \<Rightarrow> (st, reg, [])
      | Some cid \<Rightarrow>
          (case claim cid reg of
             (reg', None) \<Rightarrow>
               (st, reg', [SendProtocolError BadSequence (Text ''terminal owner lease generation exhausted'') None])
           | (reg', Some lease) \<Rightarrow>
               (st\<lparr>ts_owner_lease := Some lease, ts_role := Some Owner\<rparr>, reg',
                [AssignOwner (Some cid), BroadcastOwnerChanged (Some cid)])))"

definition on_attached_frame ::
  "client_msg \<Rightarrow> terminal_session_state \<Rightarrow> owner_registry \<Rightarrow> session_context \<Rightarrow>
     terminal_session_state \<times> owner_registry \<times> effect list" where
  "on_attached_frame msg st reg ctx =
     (case msg of
        Input bytes input_seq \<Rightarrow>
          if ts_role st = Some Owner \<or> kernel_input st then (st, reg, [WriteToPty bytes input_seq])
          else (st, reg, [not_owner_error INPUT_REQUIRES_OWNER_ROLE])
      | ResizeCommit epoch cols rows \<Rightarrow>
          if ts_role st \<noteq> Some Owner then (st, reg, [not_owner_error ''ResizeCommit requires owner role''])
          else if epoch \<le> ts_resize_epoch st then (st, reg, [])
          else (st\<lparr>ts_resize_epoch := epoch\<rparr>, reg,
                [ResizePty cols rows,
                 Broadcast (ResizeApplied epoch (cx_pty_seq_tail ctx) (cx_render_rev ctx) cols rows)])
      | OwnerClaim \<Rightarrow> on_owner_claim st reg
      | OwnerRelease \<Rightarrow>
          (case release_owner st reg of
             (st', reg', released) \<Rightarrow>
               (st', reg', if released then [AssignOwner None, BroadcastOwnerChanged None] else []))
      | RenderAck render_rev _ \<Rightarrow> (st\<lparr>ts_last_render_acked_rev := Some render_rev\<rparr>, reg, [])
      | Kill \<Rightarrow>
          (st, reg, [if ts_role st = Some Owner then KillChild else not_owner_error ''Kill requires owner role''])
      | ClientHello _ \<Rightarrow> (st, reg, reject BadHandshake (Text ''ClientHello already received''))
      | ThemeUpdate fg bg \<Rightarrow>
          if cx_current_default_fg ctx = Some fg \<and> cx_current_default_bg ctx = Some bg then (st, reg, [])
          else if ts_role st \<noteq> Some Owner \<and> \<not> kernel_input st
          then (st, reg, [not_owner_error
                 ''TerminalThemeUpdate requires owner role or kernel_originated_input capability''])
          else (st, reg, [TerminalThemeUpdate fg bg])
      | AnswerQuestion _ _ \<Rightarrow> (st, reg, []))"

definition on_client_frame ::
  "client_msg \<Rightarrow> terminal_session_state \<Rightarrow> byte_ring \<Rightarrow> owner_registry \<Rightarrow> session_context \<Rightarrow>
     terminal_session_state \<times> owner_registry \<times> effect list" where
  "on_client_frame msg st buffer reg ctx =
     (if \<not> ts_attached st then process_hello msg st buffer reg ctx
      else on_attached_frame msg (refresh_lease reg st) reg ctx)"

section \<open>The broadcaster\<close>

text \<open>
  \<open>pb_pty_seq_head\<close> counts the chunks evicted. Patches are numbered from 1, so it is one less than the number
  of the oldest chunk in the ring, which the comment on the field says it is.
\<close>

record pty_broadcaster =
  pb_buffer :: byte_ring
  pb_pty_seq :: nat
  pb_render_rev :: nat
  pb_pty_seq_head :: nat

definition sat_add_u32 :: "nat \<Rightarrow> nat \<Rightarrow> nat" where
  "sat_add_u32 a b = min (a + b) u32_max"

definition broadcaster_new :: "nat \<Rightarrow> pty_broadcaster" where
  "broadcaster_new max_bytes =
     \<lparr>pb_buffer = ring_new max_bytes, pb_pty_seq = 0, pb_render_rev = 0, pb_pty_seq_head = 0\<rparr>"

definition broadcast_chunk :: "string \<Rightarrow> pty_broadcaster \<Rightarrow> pty_broadcaster \<times> effect list" where
  "broadcast_chunk bytes b =
     (let (buffer, evicted) = ring_evict (ring_push bytes (pb_buffer b)) 0;
          b' = \<lparr>pb_buffer = buffer, pb_pty_seq = sat_add_u32 (pb_pty_seq b) 1,
                pb_render_rev = sat_add_u32 (pb_render_rev b) 1,
                pb_pty_seq_head = ((\<lambda>n. sat_add_u32 n 1) ^^ evicted) (pb_pty_seq_head b)\<rparr>
      in (b', [Broadcast (RenderPatch
           \<lparr>rp_render_rev = pb_render_rev b', rp_prev_render_rev = pb_render_rev b,
            rp_pty_seq = pb_pty_seq b', rp_encoding = Vt, rp_data = bytes\<rparr>)]))"

definition broadcaster_exit :: "i32 option \<Rightarrow> pty_broadcaster \<Rightarrow> effect list" where
  "broadcaster_exit code b = [Broadcast (TerminalExited code (pb_pty_seq b) (pb_render_rev b))]"

section \<open>The render plane\<close>

definition CHILD_READY_QUIESCENT_MS :: nat where
  "CHILD_READY_QUIESCENT_MS = 100"

datatype observer_call =
  ObsUnavailable string | ObsOutput string | ObsResize nat nat | ObsColors "rgb option" "rgb option"

record 'p render_plane =
  pl_observer :: "observer_call list option"
  pl_model :: "'p terminal_model"
  pl_transcript :: byte_ring
  pl_pty_seq :: nat
  pl_cols :: nat
  pl_rows :: nat
  pl_last_emitted_render_rev :: nat
  pl_last_rev_change_at :: "nat option"
  pl_child_ready_fired :: bool

definition plane_new :: "'p vte \<Rightarrow> nat \<Rightarrow> nat \<Rightarrow> nat \<Rightarrow> nat \<Rightarrow> 'p render_plane" where
  "plane_new v cols rows transcript_max scrollback_max =
     \<lparr>pl_observer = None, pl_model = terminal_new v cols rows scrollback_max,
      pl_transcript = ring_new transcript_max, pl_pty_seq = 0, pl_cols = cols, pl_rows = rows,
      pl_last_emitted_render_rev = 0, pl_last_rev_change_at = None, pl_child_ready_fired = False\<rparr>"

definition plane_with_colors ::
  "'p vte \<Rightarrow> nat \<Rightarrow> nat \<Rightarrow> nat \<Rightarrow> nat \<Rightarrow> rgb option \<Rightarrow> rgb option \<Rightarrow> 'p render_plane" where
  "plane_with_colors v cols rows transcript_max scrollback_max fg bg =
     (let p = plane_new v cols rows transcript_max scrollback_max
      in p\<lparr>pl_model := set_default_colors fg bg (pl_model p)\<rparr>)"

definition observe :: "observer_call \<Rightarrow> 'p render_plane \<Rightarrow> 'p render_plane" where
  "observe call p = p\<lparr>pl_observer := map_option (\<lambda>calls. calls @ [call]) (pl_observer p)\<rparr>"

definition invalidate_observation :: "string \<Rightarrow> 'p render_plane \<Rightarrow> 'p render_plane" where
  "invalidate_observation reason p = observe (ObsUnavailable reason) p"

text \<open>\<open>None\<close> is the failing assertion.\<close>

definition install_observer :: "'p render_plane \<Rightarrow> 'p render_plane option" where
  "install_observer p =
     (if pl_pty_seq p = 0 \<and> pl_observer p = None then Some (p\<lparr>pl_observer := Some []\<rparr>) else None)"

definition plane_set_colors :: "rgb option \<Rightarrow> rgb option \<Rightarrow> 'p render_plane \<Rightarrow> 'p render_plane" where
  "plane_set_colors fg bg p =
     (let p1 = observe (ObsColors fg bg) p in p1\<lparr>pl_model := set_default_colors fg bg (pl_model p1)\<rparr>)"

definition plane_chunk :: "'p vte \<Rightarrow> nat \<Rightarrow> string \<Rightarrow> 'p render_plane \<Rightarrow> 'p render_plane \<times> effect list" where
  "plane_chunk v now bytes p =
     (let prev_rev = tm_rev (pl_model p);
          p1 = observe (ObsOutput bytes) p;
          m = feed v bytes (pl_model p1);
          new_rev = tm_rev m;
          seq = sat_add_u32 (pl_pty_seq p1) 1;
          patch = Broadcast (RenderPatch \<lparr>rp_render_rev = new_rev,
                    rp_prev_render_rev = pl_last_emitted_render_rev p1, rp_pty_seq = seq,
                    rp_encoding = Vt, rp_data = bytes\<rparr>);
          (m', replies) = take_pending_osc_replies m
      in (p1\<lparr>pl_model := m', pl_transcript := ring_append bytes (pl_transcript p1), pl_pty_seq := seq,
             pl_last_emitted_render_rev := new_rev,
             pl_last_rev_change_at := (if new_rev \<noteq> prev_rev then Some now else pl_last_rev_change_at p1)\<rparr>,
          if replies \<noteq> [] then [patch, WriteToPty replies 0] else [patch]))"

definition detect_ready :: "nat \<Rightarrow> 'p render_plane \<Rightarrow> 'p render_plane \<times> effect option" where
  "detect_ready now p =
     (if pl_child_ready_fired p then (p, None)
      else (case pl_last_rev_change_at p of
              None \<Rightarrow> (p, None)
            | Some at \<Rightarrow>
                if now - at \<ge> CHILD_READY_QUIESCENT_MS
                then (p\<lparr>pl_child_ready_fired := True\<rparr>,
                      Some (Broadcast (ChildReady (pl_pty_seq p) (tm_rev (pl_model p)))))
                else (p, None)))"

definition plane_exit :: "i32 option \<Rightarrow> 'p render_plane \<Rightarrow> effect list" where
  "plane_exit code p = [Broadcast (TerminalExited code (pl_pty_seq p) (tm_rev (pl_model p)))]"

definition build_snapshot :: "nat \<Rightarrow> nat \<Rightarrow> scrollback_limit \<Rightarrow> 'p render_plane \<Rightarrow> render_snapshot" where
  "build_snapshot target_cols target_rows scrollback p =
     \<lparr>rs_render_rev = tm_rev (pl_model p), rs_pty_seq = pl_pty_seq p, rs_cols = target_cols,
      rs_rows = target_rows, rs_encoding = Vt, rs_data = snapshot_vt target_cols target_rows (pl_model p),
      rs_scrollback =
        (case scrollback of
           NoScrollback \<Rightarrow> None
         | other \<Rightarrow> (let bytes = scrollback_vt other (pl_model p) in if bytes = [] then None else Some bytes))\<rparr>"

definition plane_resize :: "nat \<Rightarrow> nat \<Rightarrow> 'p render_plane \<Rightarrow> 'p render_plane \<times> effect list" where
  "plane_resize cols rows p =
     (let p1 = observe (ObsResize cols rows) (p\<lparr>pl_cols := cols, pl_rows := rows\<rparr>);
          p2 = p1\<lparr>pl_model := resize cols rows (pl_model p1)\<rparr>;
          snap = build_snapshot cols rows NoScrollback p2
      in (p2\<lparr>pl_last_emitted_render_rev := rs_render_rev snap\<rparr>, [Broadcast (RenderSnapshot snap)]))"

definition current_size :: "'p render_plane \<Rightarrow> pty_size" where
  "current_size p =
     \<lparr>ps_cols = pl_cols p, ps_rows = pl_rows p, ps_pixel_width = None, ps_pixel_height = None\<rparr>"

text \<open>The hello a client is sent carries a snapshot of the model at the size of the terminal
  (crates/calm-server/src/terminal\_renderer/snapshot.rs).\<close>

fun scrollback_request :: "initial_scrollback \<Rightarrow> scrollback_limit" where
  "scrollback_request IsNone = NoScrollback"
| "scrollback_request IsAll = AllLines"
| "scrollback_request (IsLines n) = Lines n"

definition rebuild_server_hello_snapshot ::
  "daemon_msg \<Rightarrow> 'p render_plane option \<Rightarrow> scrollback_limit option \<Rightarrow> daemon_msg" where
  "rebuild_server_hello_snapshot msg plane scrollback =
     (case msg of
        ServerHello h \<Rightarrow>
          let cols = ps_cols (sh_pty_size h); rows = ps_rows (sh_pty_size h);
              limit = (case scrollback of None \<Rightarrow> NoScrollback | Some l \<Rightarrow> l);
              snapshot = (case plane of
                 Some p \<Rightarrow> build_snapshot cols rows limit p
               | None \<Rightarrow> \<lparr>rs_render_rev = sh_render_rev h, rs_pty_seq = sh_pty_seq_tail h, rs_cols = cols,
                          rs_rows = rows, rs_encoding = Vt, rs_data = [], rs_scrollback = None\<rparr>)
          in ServerHello (h\<lparr>sh_snapshot := snapshot\<rparr>)
      | _ \<Rightarrow> msg)"

end
