(* ===== verification/Terminal_Invariant.thy ===== *)
theory Terminal_Invariant
  imports Terminal_Model
begin

text \<open>
  The type invariant of the terminal and that every method of the handler, feeding bytes and
  resizing keep it: every line is exactly as wide as the grid says, the cursor is on the screen, the
  scrollback is within its cap, colours are bytes, and every character is one the parser can print.
  With it, what the revision says: unless it is saturated, a terminal whose revision did not move
  shows what it showed before.
\<close>

section \<open>The invariant\<close>

fun color_ok :: "color \<Rightarrow> bool" where
  "color_ok DefaultColor = True"
| "color_ok (Indexed i) = (i < 256)"
| "color_ok (Rgb r g b) = (r < 256 \<and> g < 256 \<and> b < 256)"

definition sgr_ok :: "sgr_state \<Rightarrow> bool" where
  "sgr_ok s \<longleftrightarrow> color_ok (sg_fg s) \<and> color_ok (sg_bg s)"

definition cell_ok :: "(nat \<Rightarrow> bool) \<Rightarrow> cell \<Rightarrow> bool" where
  "cell_ok printable c \<longleftrightarrow> printable (cell_ch c) \<and> sgr_ok (cell_sgr c)"

definition line_ok :: "(nat \<Rightarrow> bool) \<Rightarrow> cell list \<Rightarrow> bool" where
  "line_ok printable l \<longleftrightarrow> (\<forall>c \<in> set l. cell_ok printable c)"

definition grid_wf :: "(nat \<Rightarrow> bool) \<Rightarrow> grid \<Rightarrow> bool" where
  "grid_wf printable g \<longleftrightarrow>
     1 \<le> g_cols g \<and> g_cols g \<le> u16_max \<and> 1 \<le> g_rows_count g \<and> g_rows_count g \<le> u16_max \<and>
     length (g_rows g) = g_rows_count g \<and>
     (\<forall>l \<in> set (g_rows g). length l = g_cols g \<and> line_ok printable l)"

definition cursor_wf :: "'p terminal_model \<Rightarrow> bool" where
  "cursor_wf m \<longleftrightarrow> row_of m < rows_of m \<and> col_of m < cols_of m"

definition history_wf :: "(nat \<Rightarrow> bool) \<Rightarrow> 'p terminal_model \<Rightarrow> bool" where
  "history_wf printable m \<longleftrightarrow> length (tm_scrollback m) \<le> tm_scrollback_max_lines m \<and>
     (\<forall>l \<in> set (tm_scrollback m). line_ok printable l)"

definition terminal_wf :: "(nat \<Rightarrow> bool) \<Rightarrow> 'p terminal_model \<Rightarrow> bool" where
  "terminal_wf printable m \<longleftrightarrow> grid_wf printable (tm_grid m) \<and> cursor_wf m \<and> history_wf printable m \<and>
     sgr_ok (tm_sgr m) \<and> tm_rev m \<le> u32_max"

lemmas terminal_wf_defs = terminal_wf_def grid_wf_def cursor_wf_def history_wf_def

section \<open>Cells and lines\<close>

lemma sgr_default_ok [simp]: "sgr_ok sgr_default"
  by (simp add: sgr_ok_def sgr_default_def)

lemma cell_default_ok [simp]: "printable 32 \<Longrightarrow> cell_ok printable cell_default"
  by (simp add: cell_ok_def cell_default_def)

lemma line_ok_append [simp]: "line_ok pr (a @ b) \<longleftrightarrow> line_ok pr a \<and> line_ok pr b"
  by (auto simp: line_ok_def)

lemma line_ok_Cons [simp]: "line_ok pr (c # l) \<longleftrightarrow> cell_ok pr c \<and> line_ok pr l"
  by (simp add: line_ok_def)

lemma line_ok_blank [simp]:
  "pr 32 \<Longrightarrow> line_ok pr (replicate n cell_default)" "pr 32 \<Longrightarrow> line_ok pr (map (\<lambda>_. cell_default) l)"
  by (auto simp: line_ok_def)

lemma line_ok_take_drop [simp]:
  "line_ok pr l \<Longrightarrow> line_ok pr (take n l)" "line_ok pr l \<Longrightarrow> line_ok pr (drop n l)"
  by (auto simp: line_ok_def dest: in_set_takeD in_set_dropD)

lemma line_ok_update [simp]: "line_ok pr l \<Longrightarrow> cell_ok pr x \<Longrightarrow> line_ok pr (l[c := x])"
  unfolding line_ok_def using set_update_subset_insert by fastforce

lemma resize_line_ok [simp]: "pr 32 \<Longrightarrow> line_ok pr l \<Longrightarrow> line_ok pr (resize_line n l)"
  by (simp add: resize_line_def)

lemma length_resize_line [simp]: "length (resize_line n l) = n"
  by (simp add: resize_line_def)

lemma pop_over_drop: "pop_over n xs = drop (length xs - n) xs"
proof (induction n xs rule: pop_over.induct)
  case (1 n xs)
  show ?case
  proof (cases "length xs > n")
    case True
    have "pop_over n xs = pop_over n (tl xs)" using True by (subst pop_over.simps) simp
    also have "\<dots> = drop (length xs - n) xs"
      using 1 [OF True] True by (cases xs) (auto simp: Suc_diff_le)
    finally show ?thesis .
  next
    case False
    then show ?thesis by (subst pop_over.simps) simp
  qed
qed

section \<open>The grid\<close>

lemma grid_wf_new: "pr 32 \<Longrightarrow> cols \<le> u16_max \<Longrightarrow> rows \<le> u16_max \<Longrightarrow> grid_wf pr (grid_new cols rows)"
  by (auto simp: grid_wf_def grid_new_def u16_max_def)

lemma update_row_dims [simp]:
  "g_cols (update_row r f g) = g_cols g" "g_rows_count (update_row r f g) = g_rows_count g"
  "length (g_rows (update_row r f g)) = length (g_rows g)"
  by (simp_all add: update_row_def)

lemma grid_wf_update_row:
  assumes "grid_wf pr g" "\<And>l. length (f l) = length l" "\<And>l. line_ok pr l \<Longrightarrow> line_ok pr (f l)"
  shows "grid_wf pr (update_row r f g)"
proof (cases "r < length (g_rows g)")
  case True
  have "set ((g_rows g)[r := f (g_rows g ! r)]) \<subseteq> insert (f (g_rows g ! r)) (set (g_rows g))"
    by (rule set_update_subset_insert)
  then show ?thesis using assms True nth_mem [OF True] by (auto simp: grid_wf_def update_row_def)
qed (use assms in \<open>simp add: update_row_def\<close>)

lemma grid_wf_edits:
  assumes "grid_wf pr g" "pr 32"
  shows "cell_ok pr x \<Longrightarrow> grid_wf pr (set_cell r c x g)" "grid_wf pr (clear_row r g)"
    "grid_wf pr (clear_row_from r c g)" "grid_wf pr (clear_row_to r c g)" "grid_wf pr (clear_all g)"
  using assms(2)
  by (auto simp: set_cell_def clear_row_def clear_row_from_def clear_row_to_def Let_def
      intro!: grid_wf_update_row [OF assms(1)])
    (use assms in \<open>auto simp: clear_all_def grid_wf_def\<close>)

lemma edit_dims [simp]:
  "g_cols (set_cell r c x g) = g_cols g" "g_rows_count (set_cell r c x g) = g_rows_count g"
  "g_cols (clear_row r g) = g_cols g" "g_rows_count (clear_row r g) = g_rows_count g"
  "g_cols (clear_row_from r c g) = g_cols g" "g_rows_count (clear_row_from r c g) = g_rows_count g"
  "g_cols (clear_row_to r c g) = g_cols g" "g_rows_count (clear_row_to r c g) = g_rows_count g"
  "g_cols (clear_all g) = g_cols g" "g_rows_count (clear_all g) = g_rows_count g"
  by (simp_all add: set_cell_def clear_row_def clear_row_from_def clear_row_to_def clear_all_def)

lemma grid_wf_clear_rows:
  "pr 32 \<Longrightarrow> grid_wf pr g \<Longrightarrow> grid_wf pr (fold clear_row rs g) \<and>
     g_cols (fold clear_row rs g) = g_cols g \<and> g_rows_count (fold clear_row rs g) = g_rows_count g"
  by (induction rs arbitrary: g) (simp_all add: grid_wf_edits(2))

section \<open>Steps that keep the invariant\<close>

lemma wf_bump: "terminal_wf pr m \<Longrightarrow> terminal_wf pr (bump m)"
  by (simp add: terminal_wf_defs bump_def)

lemma wf_on_grid:
  assumes "terminal_wf pr m" "grid_wf pr (f (tm_grid m))" "g_cols (f (tm_grid m)) = cols_of m"
    "g_rows_count (f (tm_grid m)) = rows_of m"
  shows "terminal_wf pr (on_grid f m)"
  using assms by (simp add: terminal_wf_def cursor_wf_def history_wf_def on_grid_def)

lemma wf_set_col: "terminal_wf pr m \<Longrightarrow> c < cols_of m \<Longrightarrow> terminal_wf pr (set_col c m)"
  by (simp add: terminal_wf_defs set_col_def)

lemma wf_set_row: "terminal_wf pr m \<Longrightarrow> r < rows_of m \<Longrightarrow> terminal_wf pr (set_row r m)"
  by (simp add: terminal_wf_defs set_row_def)

lemma set_pos_dims [simp]:
  "tm_grid (set_col c m) = tm_grid m" "tm_grid (set_row r m) = tm_grid m" "tm_grid (bump m) = tm_grid m"
  "row_of (set_col c m) = row_of m" "col_of (set_row r m) = col_of m"
  "row_of (set_row r m) = r" "col_of (set_col c m) = c"
  "tm_cursor (bump m) = tm_cursor m"
  by (simp_all add: set_col_def set_row_def bump_def)

lemma wf_pos: "terminal_wf pr m \<Longrightarrow> 1 \<le> cols_of m \<and> 1 \<le> rows_of m \<and> row_of m < rows_of m \<and> col_of m < cols_of m"
  by (simp add: terminal_wf_defs)

lemma clamp_cursor_id: "terminal_wf pr m \<Longrightarrow> clamp_cursor m = m"
  using wf_pos [of pr m] by (auto simp: clamp_cursor_def Let_def)

text \<open>On a well-formed terminal the unchecked additions of the source do not wrap.\<close>

lemma add_u16_row: "terminal_wf pr m \<Longrightarrow> add_u16 (row_of m) 1 = row_of m + 1"
  by (simp add: terminal_wf_defs add_u16_def u16_max_def)

lemma add_u16_col: "terminal_wf pr m \<Longrightarrow> add_u16 (col_of m) 1 = col_of m + 1"
  by (simp add: terminal_wf_defs add_u16_def u16_max_def)

lemma history_wf_push:
  "history_wf pr m \<Longrightarrow> line_ok pr l \<Longrightarrow> history_wf pr (push_scrollback l m)"
  by (auto simp: history_wf_def push_scrollback_def pop_over_drop dest: in_set_dropD)

lemma push_scrollback_fields [simp]:
  "tm_grid (push_scrollback l m) = tm_grid m" "tm_cursor (push_scrollback l m) = tm_cursor m"
  "tm_sgr (push_scrollback l m) = tm_sgr m" "tm_rev (push_scrollback l m) = tm_rev m"
  by (simp_all add: push_scrollback_def)

lemma history_wf_on_grid [simp]: "history_wf pr (on_grid f m) = history_wf pr m"
  by (simp add: history_wf_def on_grid_def)

lemma on_grid_fields [simp]:
  "tm_grid (on_grid f m) = f (tm_grid m)" "tm_cursor (on_grid f m) = tm_cursor m"
  "tm_sgr (on_grid f m) = tm_sgr m" "tm_rev (on_grid f m) = tm_rev m"
  by (simp_all add: on_grid_def)

lemma wf_scroll_up_once:
  assumes "terminal_wf pr m" "pr 32"
  shows "terminal_wf pr (scroll_up_once m)"
proof (cases "lines_of m")
  case (Cons l rest)
  have h: "history_wf pr m" "line_ok pr l" using assms Cons by (auto simp: terminal_wf_def grid_wf_def)
  show ?thesis
    using assms Cons history_wf_push [of pr "on_grid f m" l for f] h
    by (auto simp: scroll_up_once_def terminal_wf_def grid_wf_def cursor_wf_def)
qed (use assms in \<open>simp add: scroll_up_once_def\<close>)

lemma wf_scroll_down_once:
  assumes "terminal_wf pr m" "pr 32"
  shows "terminal_wf pr (scroll_down_once m)"
  using assms unfolding scroll_down_once_def
  by (intro wf_on_grid) (auto simp: terminal_wf_def grid_wf_def dest: in_set_butlastD)

lemma wf_power:
  fixes f :: "'p terminal_model \<Rightarrow> 'p terminal_model"
  shows "(\<And>m. terminal_wf pr m \<Longrightarrow> terminal_wf pr (f m)) \<Longrightarrow> terminal_wf pr m \<Longrightarrow> terminal_wf pr ((f ^^ n) m)"
  by (induction n) auto

lemma wf_newline: "terminal_wf pr m \<Longrightarrow> pr 32 \<Longrightarrow> terminal_wf pr (newline m)"
  by (auto simp: newline_def scroll_up_inner_def add_u16_row intro!: wf_set_row wf_scroll_up_once)

section \<open>The pen\<close>

lemma extended_color_ok: "extended_color rest = Some (c, k) \<Longrightarrow> color_ok c"
  by (auto simp: extended_color_def as_u8_def split: list.splits if_splits)

lemma sgr_simple_ok: "sgr_ok s \<Longrightarrow> sgr_ok (sgr_simple p s)"
  by (auto simp: sgr_simple_def sgr_ok_def as_u8_def sgr_default_def)

lemma sgr_loop_ok: "sgr_ok s \<Longrightarrow> sgr_ok (sgr_loop params s)"
proof (induction params s rule: sgr_loop.induct)
  case (1 params s)
  have ext: "sgr_ok (s\<lparr>sg_fg := c\<rparr>)" "sgr_ok (s\<lparr>sg_bg := c\<rparr>)" if "extended_color r = Some (c, k)" for r c k
    using extended_color_ok [OF that] 1(6) by (simp_all add: sgr_ok_def)
  show ?case
    using 1 ext sgr_simple_ok
    by (subst sgr_loop.simps) (auto split: list.split option.split)
qed

section \<open>Every method keeps the invariant\<close>

lemma wf_cursor_methods:
  assumes "terminal_wf pr m"
  shows "terminal_wf pr (carriage_return m)" "terminal_wf pr (backspace m)" "terminal_wf pr (horizontal_tab m)"
    "terminal_wf pr (cursor_up n m)" "terminal_wf pr (cursor_down n m)" "terminal_wf pr (cursor_forward n m)"
    "terminal_wf pr (cursor_backward n m)" "terminal_wf pr (cursor_column n m)" "terminal_wf pr (cursor_row n m)"
  using wf_pos [OF assms] assms
  by (auto simp: carriage_return_def backspace_def horizontal_tab_def cursor_up_def cursor_down_def
      cursor_forward_def cursor_backward_def cursor_column_def cursor_row_def
      intro!: wf_bump wf_set_col wf_set_row)

lemma wf_cursor_to: "terminal_wf pr m \<Longrightarrow> terminal_wf pr (cursor_to r c m)"
  using wf_pos [of pr m] by (auto simp: cursor_to_def intro!: wf_bump wf_set_col wf_set_row)

lemma wf_print_char:
  assumes "terminal_wf pr m" "pr 32" "pr c"
  shows "terminal_wf pr (print_char c m)"
proof -
  define m2 where "m2 = on_grid (set_cell (row_of m) (col_of m) \<lparr>cell_ch = c, cell_sgr = tm_sgr m\<rparr>) m"
  have "cell_ok pr \<lparr>cell_ch = c, cell_sgr = tm_sgr m\<rparr>" using assms by (simp add: cell_ok_def terminal_wf_def)
  then have w: "terminal_wf pr m2"
    using assms unfolding m2_def by (intro wf_on_grid) (auto simp: terminal_wf_def grid_wf_edits(1))
  have "print_char c m = bump (if add_u16 (col_of m2) 1 < cols_of m2 then set_col (add_u16 (col_of m2) 1) m2
      else set_col (cols_of m2 - 1) m2)"
    by (simp add: print_char_def clamp_cursor_id [OF assms(1)] m2_def Let_def)
  then show ?thesis using w wf_pos [OF w] by (auto intro!: wf_bump wf_set_col)
qed

lemma wf_erase:
  assumes "terminal_wf pr m" "pr 32"
  shows "terminal_wf pr (erase_screen mode m)" "terminal_wf pr (erase_line mode m)"
proof -
  have g: "grid_wf pr (tm_grid m)" using assms by (simp add: terminal_wf_def)
  show "terminal_wf pr (erase_screen mode m)"
    unfolding erase_screen_def using grid_wf_clear_rows [of pr] grid_wf_edits [of pr] g assms(2)
    by (intro wf_bump wf_on_grid [OF assms(1)]) (cases mode; simp)+
  show "terminal_wf pr (erase_line mode m)"
    unfolding erase_line_def using grid_wf_edits [of pr] g assms(2)
    by (intro wf_bump wf_on_grid [OF assms(1)]) (cases mode; simp)+
qed

lemma wf_scroll:
  assumes "terminal_wf pr m" "pr 32"
  shows "terminal_wf pr (scroll_up n m)" "terminal_wf pr (scroll_down n m)" "terminal_wf pr (line_feed m)"
  using assms unfolding scroll_up_def scroll_down_def scroll_up_inner_def scroll_down_inner_def line_feed_def
  by (auto intro!: wf_bump wf_power wf_scroll_up_once wf_scroll_down_once wf_newline)

lemma wf_plain_fields:
  assumes "terminal_wf pr m"
  shows "terminal_wf pr (m\<lparr>tm_cursor_visible := b\<rparr>)" "terminal_wf pr (m\<lparr>tm_alt_screen := b\<rparr>)"
    "terminal_wf pr (m\<lparr>tm_bracketed_paste := b\<rparr>)" "terminal_wf pr (m\<lparr>tm_focus_event_tracking := b\<rparr>)"
    "terminal_wf pr (push_reply s m)" "terminal_wf pr (set_mouse_mode code b m)"
    "terminal_wf pr (m\<lparr>tm_parser := p\<rparr>)" "terminal_wf pr (set_default_colors fg bg m)"
    "terminal_wf pr (m\<lparr>tm_pending_osc_replies := s\<rparr>)"
  using assms
  by (simp_all add: terminal_wf_defs push_reply_def set_mouse_mode_def set_default_colors_def)

lemma wf_set_sgr: "terminal_wf pr m \<Longrightarrow> terminal_wf pr (set_sgr params m)"
  unfolding set_sgr_def by (intro wf_bump) (simp add: terminal_wf_defs sgr_loop_ok)

lemma wf_osc_color_query: "terminal_wf pr m \<Longrightarrow> terminal_wf pr (osc_color_query slot m)"
  by (auto simp: osc_color_query_def wf_plain_fields split: option.splits)

lemma wf_handle_call:
  assumes "terminal_wf pr m" "pr 32" "\<And>c. h = HPrint c \<Longrightarrow> pr c"
  shows "terminal_wf pr (handle_call h m)"
  using assms
  by (cases h) (simp_all add: wf_cursor_methods wf_cursor_to wf_print_char wf_erase wf_scroll wf_set_sgr
      wf_plain_fields wf_osc_color_query wf_bump set_cursor_visible_def device_status_report_cursor_def)

section \<open>Bytes\<close>

text \<open>The characters the parser calls back with are among \<open>printable\<close>.\<close>

definition prints_only :: "(nat \<Rightarrow> bool) \<Rightarrow> 'p vte \<Rightarrow> bool" where
  "prints_only printable v \<longleftrightarrow> printable 32 \<and>
     (\<forall>p b c. VtPrint c \<in> set (snd (advance v p b)) \<longrightarrow> printable c)"

lemma perform_no_print: "HPrint c \<in> set (vte_perform a) \<longleftrightarrow> a = VtPrint c"
  by (cases a) (auto simp: execute_byte_def csi_dispatch_def csi_plain_def dec_modes_def dec_mode_def
      osc_dispatch_def split: list.splits if_splits)

lemma wf_calls:
  "terminal_wf pr m \<Longrightarrow> pr 32 \<Longrightarrow> (\<And>c. HPrint c \<in> set hs \<Longrightarrow> pr c) \<Longrightarrow> terminal_wf pr (fold handle_call hs m)"
  by (induction hs arbitrary: m) (auto simp: wf_handle_call)

lemma wf_actions:
  "terminal_wf pr m \<Longrightarrow> pr 32 \<Longrightarrow> (\<And>c. VtPrint c \<in> set acts \<Longrightarrow> pr c) \<Longrightarrow>
     terminal_wf pr (fold perform_action acts m)"
proof (induction acts arbitrary: m)
  case (Cons a acts)
  have "terminal_wf pr (perform_action a m)"
    unfolding perform_action_def using Cons.prems by (intro wf_calls) (auto simp: perform_no_print)
  then show ?case using Cons by simp
qed simp

lemma wf_feed_bytes:
  assumes "prints_only pr v"
  shows "terminal_wf pr m \<Longrightarrow> terminal_wf pr (snd (feed_bytes v p bs m))"
proof (induction bs arbitrary: p m)
  case (Cons b bs)
  obtain p' acts where a: "advance v p b = (p', acts)" by fastforce
  then have "pr c" if "VtPrint c \<in> set acts" for c
    using assms that unfolding prints_only_def by (metis snd_conv)
  then have "terminal_wf pr (fold perform_action acts m)"
    using assms Cons.prems by (intro wf_actions) (auto simp: prints_only_def)
  then show ?case using Cons.IH a by simp
qed simp

lemma wf_feed: "prints_only pr v \<Longrightarrow> terminal_wf pr m \<Longrightarrow> terminal_wf pr (feed v bytes m)"
  using wf_feed_bytes [of pr v "m\<lparr>tm_parser := parser_new v\<rparr>" "tm_parser m" bytes]
  by (auto simp: feed_def wf_plain_fields split: prod.split)

section \<open>Resizing\<close>

text \<open>The invariant of the loop that drops lines, while the line count is not yet the new one.\<close>

definition shrinking :: "(nat \<Rightarrow> bool) \<Rightarrow> nat \<Rightarrow> 'p terminal_model \<Rightarrow> bool" where
  "shrinking printable cols m \<longleftrightarrow> cols_of m = cols \<and>
     (\<forall>l \<in> set (lines_of m). length l = cols \<and> line_ok printable l) \<and> history_wf printable m \<and>
     sgr_ok (tm_sgr m) \<and> tm_rev m \<le> u32_max \<and> row_of m < length (lines_of m)"

lemma set_row_fields [simp]:
  "history_wf pr (set_row r m) = history_wf pr m" "tm_sgr (set_row r m) = tm_sgr m"
  "tm_rev (set_row r m) = tm_rev m" "tm_scrollback (set_row r m) = tm_scrollback m"
  "tm_scrollback_max_lines (set_row r m) = tm_scrollback_max_lines m"
  by (simp_all add: history_wf_def set_row_def)

text \<open>A terminal's text: what has scrolled off, then the screen.\<close>

definition text_of :: "'p terminal_model \<Rightarrow> cell list list" where
  "text_of m = tm_scrollback m @ lines_of m"

definition full_history :: "'p terminal_model \<Rightarrow> bool" where
  "full_history m \<longleftrightarrow> length (tm_scrollback m) = tm_scrollback_max_lines m"

text \<open>Text was lost only at the front of a full scrollback, and blank lines at the end.\<close>

definition keeps_text :: "cell list list \<Rightarrow> 'p terminal_model \<Rightarrow> 'q terminal_model \<Rightarrow> bool" where
  "keeps_text old m m' \<longleftrightarrow> (\<exists>pre post. old = pre @ text_of m' @ post \<and> list_all (list_all is_blank) post \<and>
     (pre \<noteq> [] \<or> full_history m \<longrightarrow> full_history m'))"

lemma drop_line_step:
  assumes "shrinking pr cols m" "2 \<le> length (lines_of m)"
  shows "shrinking pr cols (drop_line m) \<and> length (lines_of (drop_line m)) = length (lines_of m) - 1 \<and>
    keeps_text (text_of m) m (drop_line m)"
proof (cases "length (lines_of m) - 1 > row_of m \<and> list_all is_blank (lines_of m ! (length (lines_of m) - 1))")
  case True
  have ne: "lines_of m \<noteq> []" using assms(2) by auto
  then have "text_of m = text_of (drop_line m) @ [last (lines_of m)]"
    using True by (simp add: text_of_def drop_line_def Let_def on_grid_def)
  moreover have "list_all is_blank (last (lines_of m))" using True ne by (simp add: last_conv_nth)
  moreover have "full_history (drop_line m) = full_history m"
    using True by (simp add: full_history_def drop_line_def Let_def on_grid_def)
  ultimately have "keeps_text (text_of m) m (drop_line m)"
    unfolding keeps_text_def by (intro exI [of _ "[]"] exI [of _ "[last (lines_of m)]"]) auto
  then show ?thesis
    using assms True by (auto simp: drop_line_def Let_def shrinking_def dest: in_set_butlastD)
next
  case False
  obtain l rest where ls: "lines_of m = l # rest" "rest \<noteq> []"
    using assms(2) by (cases "lines_of m" rule: remdups_adj.cases) auto
  define m1 where "m1 = push_scrollback l (on_grid (\<lambda>g. g\<lparr>g_rows := rest\<rparr>) m)"
  have d: "drop_line m = set_row (row_of m - 1) m1" using False ls by (auto simp: drop_line_def Let_def m1_def)
  define n where "n = length (tm_scrollback m) + 1 - tm_scrollback_max_lines m"
  have sb: "tm_scrollback (drop_line m) = drop n (tm_scrollback m @ [l])"
    "tm_scrollback_max_lines (drop_line m) = tm_scrollback_max_lines m"
    by (simp_all add: d m1_def push_scrollback_def pop_over_drop on_grid_def n_def)
  have h: "history_wf pr m" "line_ok pr l" using assms(1) ls by (auto simp: shrinking_def)
  then have s: "shrinking pr cols (drop_line m)"
    using assms ls history_wf_push [of pr "on_grid f m" l for f] by (auto simp: d m1_def shrinking_def)
  have "lines_of (drop_line m) = rest" by (simp add: d m1_def)
  then have "text_of m = take n (tm_scrollback m @ [l]) @ text_of (drop_line m)"
    unfolding text_of_def sb(1) ls(1) by (metis append.assoc append_Cons append_Nil append_take_drop_id)
  moreover have "take n (tm_scrollback m @ [l]) \<noteq> [] \<or> full_history m \<longrightarrow> full_history (drop_line m)"
    using h(1) by (auto simp: full_history_def sb n_def history_wf_def)
  ultimately have "keeps_text (text_of m) m (drop_line m)"
    unfolding keeps_text_def
    by (intro exI [of _ "take n (tm_scrollback m @ [l])"] exI [of _ "[]"]) simp
  then show ?thesis using s ls by (simp add: d m1_def)
qed

lemma keeps_text_trans:
  "keeps_text old m m1 \<Longrightarrow> keeps_text (text_of m1) m1 m2 \<Longrightarrow> keeps_text old m m2"
  unfolding keeps_text_def
proof (elim exE conjE)
  fix pre post pre' post'
  assume a: "old = pre @ text_of m1 @ post" "list_all (list_all is_blank) post"
    "pre \<noteq> [] \<or> full_history m \<longrightarrow> full_history m1"
    and b: "text_of m1 = pre' @ text_of m2 @ post'" "list_all (list_all is_blank) post'"
    "pre' \<noteq> [] \<or> full_history m1 \<longrightarrow> full_history m2"
  show "\<exists>pre post. old = pre @ text_of m2 @ post \<and> list_all (list_all is_blank) post \<and>
     (pre \<noteq> [] \<or> full_history m \<longrightarrow> full_history m2)"
    using a b by (intro exI [of _ "pre @ pre'"] exI [of _ "post' @ post"]) auto
qed

lemma keeps_text_refl: "keeps_text (text_of m) m m"
  unfolding keeps_text_def by (intro exI [of _ "[]"]) simp

lemma drop_lines:
  "shrinking pr cols m \<Longrightarrow> n < length (lines_of m) \<Longrightarrow>
     shrinking pr cols ((drop_line ^^ n) m) \<and> length (lines_of ((drop_line ^^ n) m)) = length (lines_of m) - n \<and>
     keeps_text (text_of m) m ((drop_line ^^ n) m)"
proof (induction n)
  case (Suc n)
  let ?m = "(drop_line ^^ n) m"
  have a: "shrinking pr cols ?m" "length (lines_of ?m) = length (lines_of m) - n" "keeps_text (text_of m) m ?m"
    using Suc by auto
  then have "2 \<le> length (lines_of ?m)" using Suc.prems(2) by simp
  from drop_line_step [OF a(1) this] keeps_text_trans [OF a(3)] a(2) show ?case by auto
qed (simp add: keeps_text_refl)

lemma wf_shrunk:
  assumes "shrinking pr cols m" "length (lines_of m) = rows" "1 \<le> cols" "cols \<le> u16_max" "rows \<le> u16_max"
  shows "terminal_wf pr (clamp_cursor (on_grid (\<lambda>g. g\<lparr>g_rows_count := rows\<rparr>) m))"
  using assms
  by (auto simp: terminal_wf_def grid_wf_def cursor_wf_def clamp_cursor_def shrinking_def Let_def
      set_col_def set_row_def on_grid_def history_wf_def)

lemma text_of_clamp [simp]: "text_of (clamp_cursor m) = text_of m" "text_of (bump m) = text_of m"
  "full_history (clamp_cursor m) = full_history m" "full_history (bump m) = full_history m"
  by (simp_all add: text_of_def full_history_def clamp_cursor_def bump_def set_col_def set_row_def Let_def)

text \<open>What a resize does with the text: clip or pad each line of the screen, add blank lines below, and
  drop blank lines at the bottom or the oldest lines of a full scrollback.\<close>

lemma resize_outcome:
  assumes wf: "terminal_wf pr m" and pr: "pr 32" and c: "cols \<le> u16_max" and r: "rows \<le> u16_max"
  shows "terminal_wf pr (resize cols rows m) \<and> keeps_text
    (tm_scrollback m @ map (resize_line (max cols 1)) (lines_of m)
      @ replicate (max rows 1 - rows_of m) (replicate (max cols 1) cell_default)) m (resize cols rows m)"
proof -
  let ?c = "max cols 1" and ?r = "max rows 1"
  have id: "map (resize_line (cols_of m)) (lines_of m) = lines_of m"
    using wf by (auto simp: terminal_wf_def grid_wf_def resize_line_def intro: map_idI)
  have len: "length (lines_of m) = rows_of m" "1 \<le> rows_of m" using wf by (simp_all add: terminal_wf_def grid_wf_def)
  have u: "?c \<le> u16_max" "?r \<le> u16_max" using c r by (simp_all add: u16_max_def)
  show ?thesis
  proof (cases "?c = cols_of m \<and> ?r = rows_of m")
    case True
    then have e: "resize cols rows m = bump m" by (simp add: resize_def Let_def)
    then show ?thesis
      using wf_bump [OF wf] id True keeps_text_refl [of m] unfolding e keeps_text_def text_of_clamp
      by (simp add: text_of_def)
  next
    case False
    define m1 where "m1 = (if ?c \<noteq> cols_of m
        then on_grid (\<lambda>g. g\<lparr>g_rows := map (resize_line ?c) (g_rows g), g_cols := ?c\<rparr>) m else m)"
    have lines: "lines_of m1 = map (resize_line ?c) (lines_of m)" using id by (auto simp: m1_def)
    have sb: "tm_scrollback m1 = tm_scrollback m" "full_history m1 = full_history m"
      by (auto simp: m1_def on_grid_def full_history_def)
    have s1: "shrinking pr ?c m1"
      using wf pr by (auto simp: m1_def shrinking_def terminal_wf_def grid_wf_def cursor_wf_def)
    define m2 where "m2 = resize_rows ?c ?r m1"
    have res: "resize cols rows m = bump (clamp_cursor (on_grid (\<lambda>g. g\<lparr>g_rows_count := ?r\<rparr>) m2))"
      using False by (simp add: resize_def m1_def m2_def Let_def del: max.commute)
    have "shrinking pr ?c m2 \<and> length (lines_of m2) = ?r \<and> keeps_text (tm_scrollback m @ lines_of m1
        @ replicate (?r - rows_of m) (replicate ?c cell_default)) m m2"
    proof (cases "?r > rows_of m")
      case True
      then have e: "m2 = on_grid (\<lambda>g. g\<lparr>g_rows := g_rows g @ replicate (?r - rows_of m) (replicate ?c cell_default)\<rparr>) m1"
        using len lines by (simp add: m2_def resize_rows_def Let_def)
      have "text_of m2 = tm_scrollback m @ lines_of m1 @ replicate (?r - rows_of m) (replicate ?c cell_default)"
        "full_history m2 = full_history m"
        by (simp_all add: e text_of_def on_grid_def sb full_history_def m1_def)
      then have "keeps_text (tm_scrollback m @ lines_of m1 @ replicate (?r - rows_of m) (replicate ?c cell_default)) m m2"
        unfolding keeps_text_def by (intro exI [of _ "[]"]) simp
      moreover have "shrinking pr ?c m2" using s1 pr by (auto simp: e shrinking_def)
      ultimately show ?thesis using len lines True by (simp add: e)
    next
      case nr: False
      then have e: "m2 = (drop_line ^^ (rows_of m - ?r)) m1" using len lines by (simp add: m2_def resize_rows_def Let_def)
      from drop_lines [OF s1, of "rows_of m - ?r"] len lines nr show ?thesis
        unfolding e keeps_text_def text_of_def sb by simp
    qed
    then have w: "shrinking pr ?c m2" "length (lines_of m2) = ?r"
      and k: "keeps_text (tm_scrollback m @ lines_of m1 @ replicate (?r - rows_of m) (replicate ?c cell_default)) m m2"
      by blast+
    have "text_of (on_grid (\<lambda>g. g\<lparr>g_rows_count := ?r\<rparr>) m2) = text_of m2"
      "full_history (on_grid (\<lambda>g. g\<lparr>g_rows_count := ?r\<rparr>) m2) = full_history m2"
      by (simp_all add: text_of_def full_history_def on_grid_def)
    then show ?thesis
      using k wf_bump [OF wf_shrunk [OF w _ u]] lines unfolding res keeps_text_def by simp
  qed
qed

section \<open>What the revision tells\<close>

definition visible :: "'p terminal_model \<Rightarrow> grid \<times> cursor \<times> sgr_state \<times> cell list list \<times> bool" where
  "visible m = (tm_grid m, tm_cursor m, tm_sgr m, tm_scrollback m, tm_cursor_visible m)"

definition rev_tells :: "'p terminal_model \<Rightarrow> 'p terminal_model \<Rightarrow> bool" where
  "rev_tells m m' \<longleftrightarrow> tm_rev m \<le> u32_max \<longrightarrow>
     tm_rev m \<le> tm_rev m' \<and> tm_rev m' \<le> u32_max \<and>
     (tm_rev m' = tm_rev m \<and> tm_rev m < u32_max \<longrightarrow> visible m' = visible m)"

lemma rev_tells_refl [simp]: "rev_tells m m"
  by (simp add: rev_tells_def)

lemma rev_tells_trans: "rev_tells a b \<Longrightarrow> rev_tells b c \<Longrightarrow> rev_tells a c"
  unfolding rev_tells_def by (metis le_antisym le_trans)

lemma rev_tells_bump: "tm_rev m' = tm_rev m \<Longrightarrow> rev_tells m (bump m')"
  by (auto simp: rev_tells_def bump_def)

lemma tm_rev_power:
  fixes f :: "'p terminal_model \<Rightarrow> 'p terminal_model"
  shows "(\<And>m. tm_rev (f m) = tm_rev m) \<Longrightarrow> tm_rev ((f ^^ n) m) = tm_rev m"
  by (induction n) auto

lemma tm_rev_steps [simp]:
  fixes m :: "'p terminal_model"
  shows "tm_rev (set_col c m) = tm_rev m" "tm_rev (clamp_cursor m) = tm_rev m" "tm_rev (scroll_up_once m) = tm_rev m"
  "tm_rev (scroll_up_inner n m) = tm_rev m" "tm_rev (scroll_down_inner n m) = tm_rev m" "tm_rev (newline m) = tm_rev m"
proof -
  have up: "tm_rev (scroll_up_once m) = tm_rev m" for m :: "'p terminal_model"
    by (simp add: scroll_up_once_def split: list.split)
  have ups: "tm_rev (scroll_up_inner n m) = tm_rev m" for n and m :: "'p terminal_model"
    unfolding scroll_up_inner_def by (rule tm_rev_power) (rule up)
  show "tm_rev (scroll_up_once m) = tm_rev m" "tm_rev (scroll_up_inner n m) = tm_rev m"
    "tm_rev (newline m) = tm_rev m"
    by (simp_all add: up ups newline_def)
  show "tm_rev (scroll_down_inner n m) = tm_rev m"
    unfolding scroll_down_inner_def by (rule tm_rev_power) (simp add: scroll_down_once_def)
  show "tm_rev (set_col c m) = tm_rev m" "tm_rev (clamp_cursor m) = tm_rev m"
    by (simp_all add: set_col_def set_row_def clamp_cursor_def Let_def)
qed

lemma rev_tells_plain:
  "tm_rev m' = tm_rev m \<Longrightarrow> visible m' = visible m \<Longrightarrow> rev_tells m m'"
  by (simp add: rev_tells_def)

lemma handle_call_rev_tells: "rev_tells m (handle_call h m)"
  by (cases h) (auto simp: print_char_def carriage_return_def line_feed_def backspace_def horizontal_tab_def
      cursor_up_def cursor_down_def cursor_forward_def cursor_backward_def cursor_to_def cursor_column_def
      cursor_row_def erase_screen_def erase_line_def scroll_up_def scroll_down_def set_sgr_def
      set_cursor_visible_def set_mouse_mode_def osc_color_query_def device_status_report_cursor_def
      push_reply_def visible_def Let_def split: option.split intro!: rev_tells_bump rev_tells_plain)

lemma fold_rev_tells: "(\<And>x m. rev_tells m (f x m)) \<Longrightarrow> rev_tells m (fold f xs m)"
  by (induction xs arbitrary: m) (auto intro: rev_tells_trans)

lemma feed_bytes_rev_tells: "rev_tells m (snd (feed_bytes v p bs m))"
proof (induction bs arbitrary: p m)
  case (Cons b bs)
  obtain p' acts where a: "advance v p b = (p', acts)" by fastforce
  have "rev_tells m (fold perform_action acts m)"
    unfolding perform_action_def by (intro fold_rev_tells handle_call_rev_tells)
  then show ?case using Cons.IH rev_tells_trans a by fastforce
qed simp

lemma feed_rev_tells: "rev_tells m (feed v bytes m)"
  using feed_bytes_rev_tells [of "m\<lparr>tm_parser := parser_new v\<rparr>" v "tm_parser m" bytes]
  by (auto simp: feed_def rev_tells_def visible_def split: prod.split)

end
