(* ===== verification/Terminal_Snapshot.thy ===== *)
theory Terminal_Snapshot
  imports Terminal_Invariant
begin

text \<open>
  What a client sees that is fed a snapshot. The parser is assumed to know the sequences the snapshot
  is made of (\<open>vt_grammar\<close>): a control sequence with decimal parameters is one callback with these
  parameters, and a character it can print is printed when its UTF-8 bytes arrive. Under it the bytes
  of a snapshot are a sequence of calls to the handler (\<open>emits\<close>), and those calls repaint the screen.
\<close>

section \<open>The sequences of a snapshot\<close>

fun run_parser :: "'p vte \<Rightarrow> 'p \<Rightarrow> string \<Rightarrow> 'p \<times> vt_action list" where
  "run_parser v p [] = (p, [])"
| "run_parser v p (b # bs) =
     (let (p', acts) = advance v p b; (p'', more) = run_parser v p' bs in (p'', acts @ more))"

definition csi_bytes :: "string \<Rightarrow> nat list \<Rightarrow> char \<Rightarrow> string" where
  "csi_bytes intermediates ps final =
     [ESC] @ ''['' @ intermediates @ join '';'' (map show_nat ps) @ [final]"

definition final_byte :: "char \<Rightarrow> bool" where
  "final_byte c \<longleftrightarrow> 64 \<le> byte_of c \<and> byte_of c \<le> 126"

definition csi_params :: "nat list \<Rightarrow> nat list list \<Rightarrow> bool" where
  "csi_params ps params \<longleftrightarrow>
     (if ps = [] then params = [] \<or> params = [[0]] else params = map (\<lambda>n. [n]) ps)"

definition vt_grammar :: "'p vte \<Rightarrow> ('p \<Rightarrow> bool) \<Rightarrow> (nat \<Rightarrow> bool) \<Rightarrow> bool" where
  "vt_grammar v ground printable \<longleftrightarrow>
     (\<forall>p intermediates ps final. ground p \<longrightarrow> intermediates = [] \<or> intermediates = ''?'' \<longrightarrow>
        length ps \<le> 32 \<longrightarrow> (\<forall>n \<in> set ps. n \<le> u16_max) \<longrightarrow> final_byte final \<longrightarrow>
        (\<exists>p' params. run_parser v p (csi_bytes intermediates ps final) =
            (p', [VtCsi params intermediates False final]) \<and> ground p' \<and> csi_params ps params)) \<and>
     (\<forall>p c. ground p \<longrightarrow> printable c \<longrightarrow>
        (\<exists>p'. run_parser v p (push_char_utf8 c) = (p', [VtPrint c]) \<and> ground p'))"

lemma feed_bytes_run:
  "feed_bytes v p bs m = (fst (run_parser v p bs), fold perform_action (snd (run_parser v p bs)) m)"
  by (induction bs arbitrary: p m) (auto simp: Let_def split: prod.split)

lemma feed_bytes_append:
  "feed_bytes v p (a @ b) m = (case feed_bytes v p a m of (p', m') \<Rightarrow> feed_bytes v p' b m')"
  by (induction a arbitrary: p m) (auto split: prod.split)

text \<open>From the parser's ground state, the bytes make exactly these calls and end in the ground state.\<close>

definition emits :: "'p vte \<Rightarrow> ('p \<Rightarrow> bool) \<Rightarrow> string \<Rightarrow> handler_call list \<Rightarrow> bool" where
  "emits v ground s hs \<longleftrightarrow> (\<forall>p. ground p \<longrightarrow>
     (\<exists>p'. ground p' \<and> (\<forall>m. feed_bytes v p s m = (p', fold handle_call hs m))))"

lemma emits_Nil [simp]: "emits v ground [] []"
  by (simp add: emits_def)

lemma emits_append: "emits v ground s hs \<Longrightarrow> emits v ground t ks \<Longrightarrow> emits v ground (s @ t) (hs @ ks)"
  unfolding emits_def
proof (intro allI impI)
  fix p
  assume s: "\<forall>p. ground p \<longrightarrow> (\<exists>p'. ground p' \<and> (\<forall>m. feed_bytes v p s m = (p', fold handle_call hs m)))"
    and t: "\<forall>p. ground p \<longrightarrow> (\<exists>p'. ground p' \<and> (\<forall>m. feed_bytes v p t m = (p', fold handle_call ks m)))"
    and "ground p"
  then obtain p1 where 1: "ground p1" "\<And>m. feed_bytes v p s m = (p1, fold handle_call hs m)" by blast
  then obtain p2 where 2: "ground p2" "\<And>m. feed_bytes v p1 t m = (p2, fold handle_call ks m)" using t by blast
  then show "\<exists>p'. ground p' \<and> (\<forall>m. feed_bytes v p (s @ t) m = (p', fold handle_call (hs @ ks) m))"
    using 1(2) by (intro exI [of _ p2]) (simp add: feed_bytes_append)
qed

lemma emits_concat:
  "(\<And>x. x \<in> set xs \<Longrightarrow> emits v ground (f x) (g x)) \<Longrightarrow>
     emits v ground (concat (map f xs)) (concat (map g xs))"
  by (induction xs) (auto intro: emits_append)

lemma emits_char: "vt_grammar v ground pr \<Longrightarrow> pr c \<Longrightarrow> emits v ground (push_char_utf8 c) [HPrint c]"
  unfolding emits_def
proof (intro allI impI)
  fix p assume "vt_grammar v ground pr" "pr c" "ground p"
  then obtain p' where "run_parser v p (push_char_utf8 c) = (p', [VtPrint c])" "ground p'"
    unfolding vt_grammar_def by blast
  then show "\<exists>p'. ground p' \<and> (\<forall>m. feed_bytes v p (push_char_utf8 c) m = (p', fold handle_call [HPrint c] m))"
    by (intro exI [of _ p']) (simp add: feed_bytes_run perform_action_def)
qed

lemma emits_csi:
  assumes "vt_grammar v ground pr" "intermediates = [] \<or> intermediates = ''?''" "length ps \<le> 32"
    "\<forall>n \<in> set ps. n \<le> u16_max" "final_byte final"
    "\<And>params. csi_params ps params \<Longrightarrow> csi_dispatch params intermediates final = hs"
  shows "emits v ground (csi_bytes intermediates ps final) hs"
  unfolding emits_def
proof (intro allI impI)
  fix p assume "ground p"
  then obtain p' params where
    r: "run_parser v p (csi_bytes intermediates ps final) = (p', [VtCsi params intermediates False final])"
    and g: "ground p'" and c: "csi_params ps params"
    using assms(1) [unfolded vt_grammar_def, THEN conjunct1, rule_format, OF _ assms(2-3) _ assms(5)] assms(4)
    by blast
  show "\<exists>p'. ground p' \<and> (\<forall>m. feed_bytes v p (csi_bytes intermediates ps final) m = (p', fold handle_call hs m))"
    using r g assms(6) [OF c] by (intro exI [of _ p']) (simp add: feed_bytes_run perform_action_def)
qed

lemma final_bytes [simp]:
  "final_byte (CHR ''h'')" "final_byte (CHR ''l'')" "final_byte (CHR ''m'')" "final_byte (CHR ''H'')"
  "final_byte (CHR ''J'')" "final_byte (CHR ''K'')"
  by (simp_all add: final_byte_def byte_of_def)

lemma dec_dispatch:
  "csi_params [n] params \<Longrightarrow> csi_dispatch params ''?'' (CHR ''h'') = dec_mode True n"
  "csi_params [n] params \<Longrightarrow> csi_dispatch params ''?'' (CHR ''l'') = dec_mode False n"
  by (simp_all add: csi_params_def csi_dispatch_def dec_modes_def)

lemma plain_dispatch:
  "csi_params [] params \<Longrightarrow> csi_dispatch params [] (CHR ''H'') = [CursorTo 0 0]"
  "csi_params [a, b] params \<Longrightarrow> csi_dispatch params [] (CHR ''H'') = [CursorTo (a - 1) (b - 1)]"
  "csi_params [2] params \<Longrightarrow> csi_dispatch params [] (CHR ''J'') = [EraseScreen EraseAll]"
  "csi_params [] params \<Longrightarrow> csi_dispatch params [] (CHR ''K'') = [EraseLine ToEnd]"
  "csi_params (n # ps) params \<Longrightarrow> csi_dispatch params [] (CHR ''m'') = [SetSgr (n # ps)]"
  by (auto simp: csi_params_def csi_dispatch_def csi_plain_def position_param_def erase_mode_from_def
      first_param_raw_def nth_Cons' concat_map_singleton)

section \<open>The pen\<close>

definition color_numbers :: "nat \<Rightarrow> color \<Rightarrow> nat list" where
  "color_numbers base c =
     (case c of
        DefaultColor \<Rightarrow> []
      | Indexed i \<Rightarrow>
          if i < 8 then [base + i] else if i < 16 then [base + 60 + (i - 8)] else [base + 8, 5, i]
      | Rgb r g b \<Rightarrow> [base + 8, 2, r, g, b])"

definition flag_numbers :: "sgr_state \<Rightarrow> nat list" where
  "flag_numbers s = (if sg_bold s then [1] else []) @ (if sg_dim s then [2] else [])
     @ (if sg_italic s then [3] else []) @ (if sg_underline s then [4] else [])
     @ (if sg_reverse s then [7] else []) @ (if sg_hidden s then [8] else [])
     @ (if sg_strikethrough s then [9] else [])"

definition sgr_numbers :: "sgr_state \<Rightarrow> nat list" where
  "sgr_numbers s = flag_numbers s @ color_numbers 30 (sg_fg s) @ color_numbers 40 (sg_bg s)"

lemma join_append: "xs \<noteq> [] \<Longrightarrow> ys \<noteq> [] \<Longrightarrow> join sep (xs @ ys) = join sep xs @ sep @ join sep ys"
proof (induction xs)
  case (Cons x xs)
  then show ?case by (cases xs; cases ys) auto
qed simp

lemma show_digit: "n < 10 \<Longrightarrow> show_nat n = [digit n]"
  by (subst show_nat.simps) simp

lemma show_digits [simp]:
  "show_nat 0 = ''0''" "show_nat (Suc 0) = ''1''" "show_nat 2 = ''2''" "show_nat 3 = ''3''" "show_nat 4 = ''4''"
  "show_nat 5 = ''5''" "show_nat 7 = ''7''" "show_nat 8 = ''8''" "show_nat 9 = ''9''"
  by (simp_all add: show_digit digit_def char_of_def bit_0)

lemma color_params_numbers:
  "join '';'' (xs @ color_params base c @ ys) = join '';'' (xs @ map show_nat (color_numbers base c) @ ys)"
proof (cases "color_params base c = []")
  case True
  then show ?thesis by (auto simp: color_params_def color_numbers_def split: color.splits if_splits)
next
  case False
  have ne: "color_numbers base c \<noteq> []"
    using False by (auto simp: color_params_def color_numbers_def split: color.splits if_splits)
  have eq: "join '';'' (color_params base c) = join '';'' (map show_nat (color_numbers base c))"
    by (auto simp: color_params_def color_numbers_def split: color.split)
  have "join '';'' (color_params base c @ ys) = join '';'' (map show_nat (color_numbers base c) @ ys)"
    using False ne eq by (cases "ys = []") (simp_all add: join_append)
  then show ?thesis using False ne by (cases "xs = []") (simp_all add: join_append)
qed

lemma to_sgr_bytes_csi: "to_sgr_bytes s = csi_bytes [] (0 # sgr_numbers s) (CHR ''m'')"
proof -
  have f: "[''0''] @ (if sg_bold s then [''1''] else []) @ (if sg_dim s then [''2''] else [])
        @ (if sg_italic s then [''3''] else []) @ (if sg_underline s then [''4''] else [])
        @ (if sg_reverse s then [''7''] else []) @ (if sg_hidden s then [''8''] else [])
        @ (if sg_strikethrough s then [''9''] else []) @ rest = map show_nat (0 # flag_numbers s) @ rest" for rest
    by (simp add: flag_numbers_def)
  have "join '';'' (xs @ color_params 30 (sg_fg s) @ color_params 40 (sg_bg s)) =
      join '';'' (xs @ map show_nat (color_numbers 30 (sg_fg s)) @ map show_nat (color_numbers 40 (sg_bg s)))" for xs
    using color_params_numbers [of xs 30 "sg_fg s" "color_params 40 (sg_bg s)"]
      color_params_numbers [of "xs @ map show_nat (color_numbers 30 (sg_fg s))" 40 "sg_bg s" "[]"] by simp
  then have "join '';'' (map show_nat (0 # flag_numbers s) @ color_params 30 (sg_fg s) @ color_params 40 (sg_bg s)) =
      join '';'' (map show_nat (0 # sgr_numbers s))"
    unfolding sgr_numbers_def by (metis append_Cons map_append)
  then show ?thesis unfolding to_sgr_bytes_def csi_bytes_def f by simp
qed

lemma sgr_loop_simps:
  "sgr_loop [] s = s"
  "p \<noteq> 38 \<Longrightarrow> p \<noteq> 48 \<Longrightarrow> sgr_loop (p # rest) s = sgr_loop rest (sgr_simple p s)"
  "sgr_loop (38 # 5 # n # rest) s = sgr_loop rest (s\<lparr>sg_fg := Indexed (as_u8 n)\<rparr>)"
  "sgr_loop (48 # 5 # n # rest) s = sgr_loop rest (s\<lparr>sg_bg := Indexed (as_u8 n)\<rparr>)"
  "sgr_loop (38 # 2 # r # g # b # rest) s = sgr_loop rest (s\<lparr>sg_fg := Rgb (as_u8 r) (as_u8 g) (as_u8 b)\<rparr>)"
  "sgr_loop (48 # 2 # r # g # b # rest) s = sgr_loop rest (s\<lparr>sg_bg := Rgb (as_u8 r) (as_u8 g) (as_u8 b)\<rparr>)"
  by (subst sgr_loop.simps; simp add: extended_color_def numeral_eq_Suc)+

lemma sgr_simple_colors:
  "i < 8 \<Longrightarrow> sgr_simple (30 + i) s = s\<lparr>sg_fg := Indexed i\<rparr>"
  "i < 8 \<Longrightarrow> sgr_simple (40 + i) s = s\<lparr>sg_bg := Indexed i\<rparr>"
  "i < 8 \<Longrightarrow> sgr_simple (90 + i) s = s\<lparr>sg_fg := Indexed (8 + i)\<rparr>"
  "i < 8 \<Longrightarrow> sgr_simple (100 + i) s = s\<lparr>sg_bg := Indexed (8 + i)\<rparr>"
  by (auto simp: sgr_simple_def as_u8_def)

lemma sgr_loop_fg:
  "color_ok c \<Longrightarrow> sg_fg s = DefaultColor \<Longrightarrow> sgr_loop (color_numbers 30 c @ rest) s = sgr_loop rest (s\<lparr>sg_fg := c\<rparr>)"
proof (cases c)
  case (Indexed i)
  assume "color_ok c"
  then show ?thesis
    using Indexed sgr_simple_colors(1) [of i s] sgr_simple_colors(3) [of "i - 8" s]
    by (auto simp: color_numbers_def sgr_loop_simps as_u8_def)
qed (cases s; auto simp: color_numbers_def sgr_loop_simps as_u8_def)+

lemma sgr_loop_bg:
  "color_ok c \<Longrightarrow> sg_bg s = DefaultColor \<Longrightarrow> sgr_loop (color_numbers 40 c @ rest) s = sgr_loop rest (s\<lparr>sg_bg := c\<rparr>)"
proof (cases c)
  case (Indexed i)
  assume "color_ok c"
  then show ?thesis
    using Indexed sgr_simple_colors(2) [of i s] sgr_simple_colors(4) [of "i - 8" s]
    by (auto simp: color_numbers_def sgr_loop_simps as_u8_def)
qed (cases s; auto simp: color_numbers_def sgr_loop_simps as_u8_def)+

lemma sgr_loop_flags:
  "sgr_loop (flag_numbers s @ rest) sgr_default =
     sgr_loop rest (s\<lparr>sg_fg := DefaultColor, sg_bg := DefaultColor\<rparr>)"
proof -
  have simple: "sgr_simple (Suc 0) x = x\<lparr>sg_bold := True\<rparr>" "sgr_simple 2 x = x\<lparr>sg_dim := True\<rparr>"
    "sgr_simple 3 x = x\<lparr>sg_italic := True\<rparr>" "sgr_simple 4 x = x\<lparr>sg_underline := True\<rparr>"
    "sgr_simple 7 x = x\<lparr>sg_reverse := True\<rparr>" "sgr_simple 8 x = x\<lparr>sg_hidden := True\<rparr>"
    "sgr_simple 9 x = x\<lparr>sg_strikethrough := True\<rparr>" for x
    by (simp_all add: sgr_simple_def)
  have opt: "sgr_loop ((if b then [p] else []) @ ys) x = sgr_loop ys (if b then sgr_simple p x else x)"
    if "p \<noteq> 38" "p \<noteq> 48" for b p ys x
    using that by (simp add: sgr_loop_simps)
  show ?thesis
    unfolding flag_numbers_def append_assoc
    by (cases s) (simp add: opt simple sgr_default_def)
qed

text \<open>The parameters a pen is written with set exactly that pen, whatever it was before.\<close>

lemma sgr_numbers_read: "sgr_ok s \<Longrightarrow> sgr_loop (0 # sgr_numbers s) s0 = s"
  using sgr_loop_fg [of "sg_fg s" "s\<lparr>sg_fg := DefaultColor, sg_bg := DefaultColor\<rparr>" "color_numbers 40 (sg_bg s)"]
    sgr_loop_bg [of "sg_bg s" "s\<lparr>sg_bg := DefaultColor\<rparr>" "[]"]
  by (simp add: sgr_loop_simps sgr_simple_def sgr_numbers_def sgr_loop_flags sgr_ok_def)

lemma sgr_numbers_bounds: "length (0 # sgr_numbers s) \<le> 32" "sgr_ok s \<Longrightarrow> n \<in> set (0 # sgr_numbers s) \<Longrightarrow> n \<le> u16_max"
  by (auto simp: sgr_numbers_def flag_numbers_def color_numbers_def sgr_ok_def u16_max_def
      split: color.splits if_splits)

section \<open>What a snapshot is made of\<close>

fun paint_calls :: "sgr_state \<Rightarrow> cell list \<Rightarrow> handler_call list" where
  "paint_calls pen [] = []"
| "paint_calls pen (c # cs) =
     (if cell_sgr c \<noteq> pen then [SetSgr (0 # sgr_numbers (cell_sgr c))] else [])
     @ [HPrint (cell_ch c)] @ paint_calls (cell_sgr c) cs"

definition shown :: "cell list \<Rightarrow> cell list" where
  "shown cs = (case last_non_blank cs of None \<Rightarrow> [] | Some e \<Rightarrow> take (Suc e) cs)"

definition row_calls :: "grid \<Rightarrow> nat \<Rightarrow> handler_call list" where
  "row_calls g r = [CursorTo r 0, SetSgr [0]] @ paint_calls sgr_default (shown (g_rows g ! r)) @ [EraseLine ToEnd]"

definition host_call :: "bool \<Rightarrow> nat \<Rightarrow> handler_call list" where
  "host_call on n = (if on then dec_mode True n else [])"

definition host_calls :: "'p terminal_model \<Rightarrow> handler_call list" where
  "host_calls m =
     host_call (tm_alt_screen m) 1049 @ host_call (tm_mouse_x10 m) 9 @ host_call (tm_mouse_vt200 m) 1000
     @ host_call (tm_mouse_drag m) 1002 @ host_call (tm_mouse_any m) 1003 @ host_call (tm_mouse_sgr m) 1006
     @ host_call (tm_focus_event_tracking m) 1004 @ host_call (tm_bracketed_paste m) 2004"

definition snapshot_calls :: "'p terminal_model \<Rightarrow> handler_call list" where
  "snapshot_calls m = host_calls m @ [SetCursorVisible False, EraseScreen EraseAll, CursorTo 0 0]
     @ concat (map (row_calls (tm_grid m)) [0..<rows_of m])
     @ [SetSgr [0], CursorTo (row_of m) (col_of m), SetCursorVisible (tm_cursor_visible m)]"

lemma painted_shown: "painted cs = paint_cells sgr_default (shown cs)"
  by (simp add: painted_def shown_def split: option.split)

lemma emits_dec:
  assumes "vt_grammar v ground pr" "n \<le> u16_max"
  shows "emits v ground (csi_bytes ''?'' [n] (CHR ''h'')) (dec_mode True n)"
    "emits v ground (csi_bytes ''?'' [n] (CHR ''l'')) (dec_mode False n)"
  using assms by (auto intro!: emits_csi [OF assms(1)] simp: dec_dispatch)

lemma emits_host_mode:
  "vt_grammar v ground pr \<Longrightarrow> n \<le> u16_max \<Longrightarrow> emits v ground (host_mode on n) (host_call on n)"
  using emits_dec(1) [of v ground pr n] by (simp add: host_mode_def host_call_def csi_bytes_def)

lemma emits_host_modes: "vt_grammar v ground pr \<Longrightarrow> emits v ground (emit_host_modes m) (host_calls m)"
  unfolding emit_host_modes_def host_calls_def
  by (intro emits_append emits_host_mode) (simp_all add: u16_max_def)

lemma emits_sgr:
  "vt_grammar v ground pr \<Longrightarrow> sgr_ok s \<Longrightarrow> emits v ground (to_sgr_bytes s) [SetSgr (0 # sgr_numbers s)]"
  unfolding to_sgr_bytes_csi using sgr_numbers_bounds [of s]
  by (intro emits_csi) (auto simp: plain_dispatch)

lemma emits_paint:
  assumes "vt_grammar v ground pr"
  shows "line_ok pr cs \<Longrightarrow> emits v ground (paint_cells pen cs) (paint_calls pen cs)"
proof (induction cs arbitrary: pen)
  case (Cons c cs)
  then have "sgr_ok (cell_sgr c)" "pr (cell_ch c)" by (simp_all add: cell_ok_def)
  then have "emits v ground (if cell_sgr c \<noteq> pen then to_sgr_bytes (cell_sgr c) else [])
      (if cell_sgr c \<noteq> pen then [SetSgr (0 # sgr_numbers (cell_sgr c))] else [])"
    "emits v ground (push_char_utf8 (cell_ch c)) [HPrint (cell_ch c)]"
    using emits_sgr [OF assms] emits_char [OF assms] by auto
  then show ?case using Cons unfolding paint_cells.simps paint_calls.simps by (intro emits_append) auto
qed simp

lemma shown_ok: "line_ok pr cs \<Longrightarrow> line_ok pr (shown cs)"
  by (auto simp: shown_def line_ok_def dest: in_set_takeD split: option.split)

lemma grid_row_cells:
  "grid_wf pr g \<Longrightarrow> r < g_rows_count g \<Longrightarrow> map (grid_cell g r) [0..<g_cols g] = g_rows g ! r"
  by (auto simp: grid_wf_def grid_cell_def intro!: nth_equalityI)

lemma emits_row:
  assumes g: "vt_grammar v ground pr" and wf: "grid_wf pr gr" and r: "r < g_rows_count gr"
  shows "emits v ground (snapshot_row gr (g_cols gr) r) (row_calls gr r)"
proof -
  have bounds: "add_u16 r 1 = r + 1" "r + 1 \<le> u16_max" using wf r by (auto simp: grid_wf_def add_u16_def)
  have ok: "line_ok pr (g_rows gr ! r)" using wf r by (auto simp: grid_wf_def)
  have "snapshot_row gr (g_cols gr) r = csi_bytes [] [r + 1, 1] (CHR ''H'') @ csi_bytes [] [0] (CHR ''m'')
      @ paint_cells sgr_default (shown (g_rows gr ! r)) @ csi_bytes [] [] (CHR ''K'')"
    unfolding snapshot_row_def painted_shown grid_row_cells [OF wf r] bounds(1)
    by (simp add: csi_bytes_def)
  moreover have "row_calls gr r = [CursorTo r 0] @ [SetSgr [0]] @ paint_calls sgr_default (shown (g_rows gr ! r))
      @ [EraseLine ToEnd]"
    by (simp add: row_calls_def)
  moreover have "emits v ground (csi_bytes [] [r + 1, 1] (CHR ''H'')) [CursorTo r 0]"
    "emits v ground (csi_bytes [] [0] (CHR ''m'')) [SetSgr [0]]"
    "emits v ground (csi_bytes [] [] (CHR ''K'')) [EraseLine ToEnd]"
    using bounds by (auto intro!: emits_csi [OF g] simp: plain_dispatch u16_max_def)
  ultimately show ?thesis using emits_paint [OF g shown_ok [OF ok]] by (simp only: emits_append)
qed

lemma emits_snapshot:
  assumes g: "vt_grammar v ground pr" and wf: "terminal_wf pr m"
  shows "emits v ground (snapshot_vt (cols_of m) (rows_of m) m) (snapshot_calls m)"
proof -
  have gw: "grid_wf pr (tm_grid m)" and pos: "1 \<le> cols_of m" "1 \<le> rows_of m" "cols_of m \<le> u16_max" "rows_of m \<le> u16_max"
    "row_of m < rows_of m" "col_of m < cols_of m"
    using wf by (auto simp: terminal_wf_defs)
  have mins: "max (cols_of m) 1 = cols_of m" "max (rows_of m) 1 = rows_of m"
    "min (row_of m) (rows_of m - 1) = row_of m" "min (col_of m) (cols_of m - 1) = col_of m"
    using pos by auto
  have "snapshot_vt (cols_of m) (rows_of m) m = emit_host_modes m
      @ (csi_bytes ''?'' [25] (CHR ''l'') @ csi_bytes [] [2] (CHR ''J'') @ csi_bytes [] [] (CHR ''H''))
      @ concat (map (snapshot_row (tm_grid m) (cols_of m)) [0..<rows_of m])
      @ csi_bytes [] [0] (CHR ''m'') @ csi_bytes [] [row_of m + 1, col_of m + 1] (CHR ''H'')
      @ csi_bytes ''?'' [25] (if tm_cursor_visible m then CHR ''h'' else CHR ''l'')"
    unfolding snapshot_vt_def Let_def mins add_u16_row [OF wf] add_u16_col [OF wf]
    by (simp add: csi_bytes_def show_nat.simps [of 25] digit_def char_of_def bit_0)
  moreover have "snapshot_calls m = host_calls m @ ([SetCursorVisible False] @ [EraseScreen EraseAll] @ [CursorTo 0 0])
      @ concat (map (row_calls (tm_grid m)) [0..<rows_of m])
      @ [SetSgr [0]] @ [CursorTo (row_of m) (col_of m)] @ [SetCursorVisible (tm_cursor_visible m)]"
    by (simp add: snapshot_calls_def)
  moreover have "emits v ground (csi_bytes ''?'' [25] (if b then CHR ''h'' else CHR ''l'')) [SetCursorVisible b]"
    "emits v ground (csi_bytes ''?'' [25] (CHR ''l'')) [SetCursorVisible False]" for b
    using emits_dec [OF g, of 25] by (auto simp: dec_mode_def u16_max_def)
  moreover have "emits v ground (csi_bytes [] [2] (CHR ''J'')) [EraseScreen EraseAll]"
    "emits v ground (csi_bytes [] [] (CHR ''H'')) [CursorTo 0 0]"
    "emits v ground (csi_bytes [] [0] (CHR ''m'')) [SetSgr [0]]"
    "emits v ground (csi_bytes [] [row_of m + 1, col_of m + 1] (CHR ''H'')) [CursorTo (row_of m) (col_of m)]"
    using pos by (auto intro!: emits_csi [OF g] simp: plain_dispatch u16_max_def)
  moreover have "emits v ground (concat (map (snapshot_row (tm_grid m) (cols_of m)) [0..<rows_of m]))
      (concat (map (row_calls (tm_grid m)) [0..<rows_of m]))"
    by (intro emits_concat emits_row [OF g gw]) simp
  ultimately show ?thesis using emits_host_modes [OF g, of m] by (simp only: emits_append)
qed

section \<open>What the calls do\<close>

definition screen ::
  "grid \<Rightarrow> cursor \<Rightarrow> sgr_state \<Rightarrow> bool \<Rightarrow> nat \<Rightarrow> 'p terminal_model \<Rightarrow> 'p terminal_model" where
  "screen g cur s b n m =
     m\<lparr>tm_grid := g, tm_cursor := cur, tm_sgr := s, tm_cursor_visible := b, tm_rev := n\<rparr>"

definition at :: "nat \<Rightarrow> nat \<Rightarrow> cursor" where
  "at r c = \<lparr>cur_row = r, cur_col = c\<rparr>"

lemma screen_ex: "\<exists>n. m = screen (tm_grid m) (tm_cursor m) (tm_sgr m) (tm_cursor_visible m) n m"
  by (intro exI [of _ "tm_rev m"]) (cases m; simp add: screen_def)

lemma screen_calls:
  "handle_call (SetSgr (p # ps)) (screen g cur s b n m) = screen g cur (sgr_loop (p # ps) s) b (min (n + 1) u32_max) m"
  "handle_call (EraseLine ToEnd) (screen g (at r k) s b n m) = screen (clear_row_from r k g) (at r k) s b (min (n + 1) u32_max) m"
  "handle_call (EraseScreen EraseAll) (screen g cur s b n m) = screen (clear_all g) cur s b (min (n + 1) u32_max) m"
  "handle_call (SetCursorVisible b') (screen g cur s b n m) = screen g cur s b' (min (n + 1) u32_max) m"
  "r < g_rows_count g \<Longrightarrow> k < g_cols g \<Longrightarrow>
     handle_call (CursorTo r k) (screen g cur s b n m) = screen g (at r k) s b (min (n + 1) u32_max) m"
  by (simp_all add: screen_def at_def set_sgr_def erase_line_def erase_screen_def set_cursor_visible_def cursor_to_def
      bump_def on_grid_def set_row_def set_col_def min_def)

lemma screen_print:
  assumes "r < g_rows_count g" "k < g_cols g" "g_cols g \<le> u16_max"
  shows "handle_call (HPrint c) (screen g (at r k) s b n m) =
    screen (set_cell r k \<lparr>cell_ch = c, cell_sgr = s\<rparr> g) (at r (min (k + 1) (g_cols g - 1))) s b (min (n + 1) u32_max) m"
proof -
  have "clamp_cursor (screen g (at r k) s b n m) = screen g (at r k) s b n m"
    using assms by (simp add: clamp_cursor_def screen_def at_def Let_def)
  moreover have "add_u16 k 1 = k + 1" using assms by (simp add: add_u16_def)
  ultimately show ?thesis
    using assms by (simp add: print_char_def Let_def) (simp add: screen_def at_def bump_def on_grid_def set_col_def min_def)
qed

declare handle_call.simps [simp del]

lemma update_row_twice: "update_row r f (update_row r h g) = update_row r (\<lambda>l. f (h l)) g"
  by (simp add: update_row_def)

lemma update_row_cong: "f (g_rows g ! r) = h (g_rows g ! r) \<Longrightarrow> update_row r f g = update_row r h g"
  by (simp add: update_row_def)

lemma update_row_nth: "r < length (g_rows g) \<Longrightarrow> g_rows (update_row r f g) ! r = f (g_rows g ! r)"
  by (simp add: update_row_def)

lemma paint_effect:
  assumes "r < g_rows_count g" "r < length (g_rows g)" "length (g_rows g ! r) = g_cols g" "g_cols g \<le> u16_max"
    "k < g_cols g" "k + length cs \<le> g_cols g" "line_ok pr cs"
  shows "\<exists>s' n'. fold handle_call (paint_calls s cs) (screen g (at r k) s b n m) =
    screen (update_row r (\<lambda>l. take k l @ cs @ drop (k + length cs) l) g)
      (at r (min (k + length cs) (g_cols g - 1))) s' b n' m"
  using assms
proof (induction cs arbitrary: g k s n)
  case Nil
  have "update_row r (\<lambda>l. take k l @ [] @ drop (k + length []) l) g = g"
    using Nil by (simp add: update_row_def)
  then show ?case using Nil by (auto simp: min_def)
next
  case (Cons c cs)
  have c: "\<lparr>cell_ch = cell_ch c, cell_sgr = cell_sgr c\<rparr> = c" by (cases c) simp
  let ?g = "set_cell r k c g"
  have okc: "sgr_ok (cell_sgr c)" using Cons.prems by (simp add: cell_ok_def)
  obtain n1 where pen: "fold handle_call (if cell_sgr c \<noteq> s then [SetSgr (0 # sgr_numbers (cell_sgr c))] else [])
      (screen g (at r k) s b n m) = screen g (at r k) (cell_sgr c) b n1 m"
    using sgr_numbers_read [OF okc] by (cases "cell_sgr c = s") (auto simp: screen_calls)
  obtain n2 where pr: "handle_call (HPrint (cell_ch c)) (screen g (at r k) (cell_sgr c) b n1 m) =
      screen ?g (at r (min (k + 1) (g_cols g - 1))) (cell_sgr c) b n2 m"
    using screen_print [of r g k "cell_ch c" "cell_sgr c" b n1 m] Cons.prems unfolding c by auto
  have dims: "g_cols ?g = g_cols g" "g_rows_count ?g = g_rows_count g" "length (g_rows ?g) = length (g_rows g)"
    "length (g_rows ?g ! r) = g_cols g"
    using Cons.prems by (simp_all add: set_cell_def update_row_nth)
  have upd: "update_row r (\<lambda>l. take (k + 1) l @ cs @ drop (k + 1 + length cs) l) ?g =
      update_row r (\<lambda>l. take k l @ (c # cs) @ drop (k + length (c # cs)) l) g"
    unfolding set_cell_def update_row_twice using Cons.prems
    by (intro update_row_cong) (simp add: take_Suc_conv_app_nth)
  show ?case
  proof (cases "cs = []")
    case True
    have "?g = update_row r (\<lambda>l. take k l @ (c # cs) @ drop (k + length (c # cs)) l) g"
      unfolding set_cell_def using Cons.prems True
      by (intro update_row_cong) (simp add: upd_conv_take_nth_drop)
    then show ?thesis using True pen pr by auto
  next
    case False
    then have k: "k + 1 < g_cols g" using Cons.prems by (cases cs) auto
    then have "min (k + 1) (g_cols g - 1) = k + 1" by simp
    then show ?thesis
      using Cons.IH [of ?g "k + 1" "cell_sgr c" n2] Cons.prems k dims pen pr upd by auto
  qed
qed

section \<open>Repainting\<close>

lemma blank_default: "is_blank c \<Longrightarrow> c = cell_default"
  by (cases c) (simp add: is_blank_def cell_default_def)

lemma last_non_blank_snoc:
  "last_non_blank [] = None"
  "last_non_blank (cs @ [c]) = (if is_blank c then last_non_blank cs else Some (length cs))"
  by (simp_all add: last_non_blank_def enumerate_append_eq)

lemma last_non_blank_less: "last_non_blank cs = Some e \<Longrightarrow> e < length cs"
  by (induction cs arbitrary: e rule: rev_induct)
    (fastforce simp: last_non_blank_snoc split: if_splits)+

text \<open>Only blank cells are left out.\<close>

lemma shown_rest: "cs = shown cs @ replicate (length cs - length (shown cs)) cell_default"
proof (induction cs rule: rev_induct)
  case (snoc c cs)
  show ?case
  proof (cases "is_blank c")
    case True
    have "shown (cs @ [c]) = shown cs"
      using True last_non_blank_less by (fastforce simp: shown_def last_non_blank_snoc split: option.split)
    moreover have "length (shown cs) \<le> length cs" using snoc by (metis length_append le_add1)
    moreover have "cs @ [c] = (shown cs @ replicate (length cs - length (shown cs)) cell_default) @ [cell_default]"
      using snoc blank_default [OF True] by simp
    ultimately show ?thesis by (simp add: Suc_diff_le replicate_append_same)
  next
    case False
    then show ?thesis by (simp add: shown_def last_non_blank_snoc)
  qed
qed (simp add: shown_def last_non_blank_snoc)

definition repaint :: "cell list \<Rightarrow> cell list" where
  "repaint l = butlast l @ [cell_default]"

text \<open>Painting the visible part of a line over blanks and erasing from the cursor leaves the line with its
  last column blank: after a full line the cursor is on the last column, which the erasure clears.\<close>

lemma erase_after_shown:
  assumes "length l = cols" "1 \<le> cols" "k = min (length (shown l)) (cols - 1)"
    "p = shown l @ replicate (cols - length (shown l)) cell_default"
  shows "take k p @ map (\<lambda>_. cell_default) (drop k p) = repaint l"
proof -
  have p: "p = l" using shown_rest [of l] assms by simp
  have len: "length (shown l) \<le> cols" using shown_rest [of l] assms(1) by (metis length_append le_add1)
  have "map (\<lambda>_. cell_default) (drop k p) = replicate (cols - k) cell_default"
    using assms(1) p by (simp add: map_replicate_const)
  moreover have "butlast l = take k l @ replicate (cols - 1 - k) cell_default"
  proof (cases "length (shown l) = cols")
    case True
    then show ?thesis using assms by (simp add: butlast_conv_take)
  next
    case False
    then have k: "k = length (shown l)" "k < cols" using assms len by auto
    have l: "l = shown l @ replicate (cols - k) cell_default" using shown_rest [of l] assms(1) k by simp
    have "take (cols - 1) l = shown l @ replicate (cols - 1 - k) cell_default"
      using k by (subst l) simp
    moreover have "take k l = shown l" using k by (subst l) simp
    ultimately show ?thesis using assms(1) by (simp add: butlast_conv_take)
  qed
  moreover have "replicate (cols - k) cell_default = replicate (cols - 1 - k) cell_default @ [cell_default]"
    using assms(2,3) by (simp add: replicate_append_same Suc_diff_Suc del: replicate.simps flip: replicate_Suc)
  ultimately show ?thesis unfolding repaint_def p by simp
qed

lemma row_effect:
  assumes g: "length (g_rows g) = g_rows_count g" "g_cols g \<le> u16_max" "1 \<le> g_cols g" and r: "r < g_rows_count g"
    and blank: "g_rows g ! r = replicate (g_cols g) cell_default"
    and l: "length (g_rows g0 ! r) = g_cols g" "line_ok pr (g_rows g0 ! r)"
  shows "\<exists>cur' s' n'. fold handle_call (row_calls g0 r) (screen g cur s b n m) =
    screen (g\<lparr>g_rows := (g_rows g)[r := repaint (g_rows g0 ! r)]\<rparr>) cur' s' b n' m"
proof -
  let ?l = "g_rows g0 ! r"
  have len: "length (shown ?l) \<le> g_cols g" using shown_rest [of ?l] l(1) by (metis length_append le_add1)
  obtain n1 where 1: "fold handle_call [CursorTo r 0, SetSgr [0]] (screen g cur s b n m) = screen g (at r 0) sgr_default b n1 m"
    using r g by (auto simp: screen_calls sgr_loop_simps sgr_simple_def)
  obtain s2 n2 where 2: "fold handle_call (paint_calls sgr_default (shown ?l)) (screen g (at r 0) sgr_default b n1 m) =
      screen (update_row r (\<lambda>x. take 0 x @ shown ?l @ drop (0 + length (shown ?l)) x) g)
        (at r (min (0 + length (shown ?l)) (g_cols g - 1))) s2 b n2 m"
    using paint_effect [of r g 0 "shown ?l" pr sgr_default b n1 m] g r blank len shown_ok [OF l(2)] by auto
  have "clear_row_from r (min (length (shown ?l)) (g_cols g - 1)) (update_row r (\<lambda>x. shown ?l @ drop (length (shown ?l)) x) g)
      = g\<lparr>g_rows := (g_rows g)[r := repaint ?l]\<rparr>"
    unfolding clear_row_from_def update_row_twice
    using g r blank erase_after_shown [OF l(1) g(3) refl refl] by (simp add: update_row_def)
  then show ?thesis using 1 2 by (auto simp: row_calls_def screen_calls)
qed

lemma rows_effect:
  assumes dims: "g_rows_count g0 = g_rows_count g" "g_cols g0 = g_cols g" and wf: "grid_wf pr g0"
    and blank: "g_rows g = replicate (g_rows_count g) (replicate (g_cols g) cell_default)"
  shows "k \<le> g_rows_count g \<Longrightarrow> \<exists>cur' s' n'. fold handle_call (concat (map (row_calls g0) [0..<k])) (screen g cur s b n m) =
    screen (g\<lparr>g_rows := map repaint (take k (g_rows g0)) @ drop k (g_rows g)\<rparr>) cur' s' b n' m"
proof (induction k)
  case 0
  then show ?case by auto
next
  case (Suc k)
  let ?rows = "map repaint (take k (g_rows g0)) @ drop k (g_rows g)"
  let ?g = "g\<lparr>g_rows := ?rows\<rparr>"
  obtain cur1 s1 n1 where 1: "fold handle_call (concat (map (row_calls g0) [0..<k])) (screen g cur s b n m) =
      screen ?g cur1 s1 b n1 m" using Suc by auto
  have len: "length (g_rows g0) = g_rows_count g" using wf dims by (simp add: grid_wf_def)
  have "g_rows g0 ! k \<in> set (g_rows g0)" using Suc.prems len by simp
  then have l: "length (g_rows g0 ! k) = g_cols g" "line_ok pr (g_rows g0 ! k)"
    using wf dims by (auto simp: grid_wf_def)
  have d: "drop k (g_rows g) = replicate (g_cols g) cell_default # drop (Suc k) (g_rows g)"
    using Suc.prems blank by (metis Cons_nth_drop_Suc Suc_le_lessD length_replicate nth_replicate)
  have "length ?rows = g_rows_count ?g" "?rows ! k = replicate (g_cols ?g) cell_default"
    using Suc.prems len blank d by (auto simp: nth_append)
  moreover have "?rows[k := repaint (g_rows g0 ! k)] = map repaint (take (Suc k) (g_rows g0)) @ drop (Suc k) (g_rows g)"
    using Suc.prems len d by (simp add: list_update_append take_Suc_conv_app_nth)
  ultimately show ?case
    using row_effect [of ?g k g0 pr cur1 s1 b n1 m] 1 l wf dims Suc.prems by (auto simp: grid_wf_def)
qed

section \<open>The modes\<close>

definition with_modes :: "'p terminal_model \<Rightarrow> 'q terminal_model \<Rightarrow> 'q terminal_model" where
  "with_modes m c = c\<lparr>tm_alt_screen := tm_alt_screen c \<or> tm_alt_screen m,
     tm_mouse_x10 := tm_mouse_x10 c \<or> tm_mouse_x10 m, tm_mouse_vt200 := tm_mouse_vt200 c \<or> tm_mouse_vt200 m,
     tm_mouse_drag := tm_mouse_drag c \<or> tm_mouse_drag m, tm_mouse_any := tm_mouse_any c \<or> tm_mouse_any m,
     tm_mouse_sgr := tm_mouse_sgr c \<or> tm_mouse_sgr m,
     tm_focus_event_tracking := tm_focus_event_tracking c \<or> tm_focus_event_tracking m,
     tm_bracketed_paste := tm_bracketed_paste c \<or> tm_bracketed_paste m\<rparr>"

lemma host_call_effect:
  "fold handle_call (host_call b 1049) c = c\<lparr>tm_alt_screen := tm_alt_screen c \<or> b\<rparr>"
  "fold handle_call (host_call b 9) c = c\<lparr>tm_mouse_x10 := tm_mouse_x10 c \<or> b\<rparr>"
  "fold handle_call (host_call b 1000) c = c\<lparr>tm_mouse_vt200 := tm_mouse_vt200 c \<or> b\<rparr>"
  "fold handle_call (host_call b 1002) c = c\<lparr>tm_mouse_drag := tm_mouse_drag c \<or> b\<rparr>"
  "fold handle_call (host_call b 1003) c = c\<lparr>tm_mouse_any := tm_mouse_any c \<or> b\<rparr>"
  "fold handle_call (host_call b 1006) c = c\<lparr>tm_mouse_sgr := tm_mouse_sgr c \<or> b\<rparr>"
  "fold handle_call (host_call b 1004) c = c\<lparr>tm_focus_event_tracking := tm_focus_event_tracking c \<or> b\<rparr>"
  "fold handle_call (host_call b 2004) c = c\<lparr>tm_bracketed_paste := tm_bracketed_paste c \<or> b\<rparr>"
  by (cases c; simp add: host_call_def dec_mode_def handle_call.simps set_mouse_mode_def)+

lemma host_calls_effect: "fold handle_call (host_calls m) c = with_modes m c"
  by (simp add: host_calls_def host_call_effect with_modes_def)

lemma with_modes_screen: "\<exists>n. with_modes m c = screen (tm_grid c) (tm_cursor c) (tm_sgr c) (tm_cursor_visible c) n (with_modes m c)"
  using screen_ex [of "with_modes m c"] by (simp add: with_modes_def)

section \<open>A client that is fed a snapshot\<close>

lemma snapshot_effect:
  assumes m: "terminal_wf pr m" and c: "terminal_wf pr c" and size: "cols_of c = cols_of m" "rows_of c = rows_of m"
  shows "\<exists>n. fold handle_call (snapshot_calls m) c =
    screen ((tm_grid m)\<lparr>g_rows := map repaint (lines_of m)\<rparr>) (tm_cursor m) sgr_default (tm_cursor_visible m) n (with_modes m c)"
proof -
  let ?c = "with_modes m c" and ?blank = "clear_all (tm_grid c)"
  obtain n0 where 0: "?c = screen (tm_grid c) (tm_cursor c) (tm_sgr c) (tm_cursor_visible c) n0 ?c"
    using with_modes_screen by blast
  have pos: "0 < rows_of m" "0 < cols_of m" "row_of m < rows_of m" "col_of m < cols_of m" using wf_pos [OF m] by auto
  have wg: "grid_wf pr (tm_grid m)" using m by (simp add: terminal_wf_def)
  have b: "g_rows ?blank = replicate (rows_of m) (replicate (cols_of m) cell_default)"
    using c size by (auto simp: terminal_wf_def grid_wf_def clear_all_def map_replicate_const intro!: nth_equalityI)
  have "fold handle_call [SetCursorVisible False, EraseScreen EraseAll, CursorTo 0 0] ?c =
      screen ?blank (at 0 0) (tm_sgr c) False (min (min (min (n0 + 1) u32_max + 1) u32_max + 1) u32_max) ?c"
    using pos size by (subst 0) (simp add: screen_calls)
  then obtain n1 where 1: "fold handle_call [SetCursorVisible False, EraseScreen EraseAll, CursorTo 0 0] ?c =
      screen ?blank (at 0 0) (tm_sgr c) False n1 ?c" by blast
  obtain cur2 s2 n2 where 2: "fold handle_call (concat (map (row_calls (tm_grid m)) [0..<rows_of m])) (screen ?blank (at 0 0) (tm_sgr c) False n1 ?c)
      = screen (?blank\<lparr>g_rows := map repaint (lines_of m)\<rparr>) cur2 s2 False n2 ?c"
    using rows_effect [of "tm_grid m" ?blank pr "rows_of m" "at 0 0" "tm_sgr c" False n1 ?c] size wg b
    by (auto simp: grid_wf_def)
  have g: "?blank\<lparr>g_rows := map repaint (lines_of m)\<rparr> = (tm_grid m)\<lparr>g_rows := map repaint (lines_of m)\<rparr>"
    using size by (cases "tm_grid m"; cases "tm_grid c") (simp add: clear_all_def)
  have "at (row_of m) (col_of m) = tm_cursor m" by (simp add: at_def)
  then show ?thesis
    using 1 2 [unfolded g] pos size unfolding snapshot_calls_def
    by (auto simp: host_calls_effect screen_calls sgr_loop_simps sgr_simple_def)
qed

lemma feed_snapshot:
  assumes "vt_grammar v ground pr" "terminal_wf pr m" "terminal_wf pr c" "ground (tm_parser c)"
    "cols_of c = cols_of m" "rows_of c = rows_of m"
  shows "\<exists>n p. ground p \<and> feed v (snapshot_vt (cols_of m) (rows_of m) m) c =
    (screen ((tm_grid m)\<lparr>g_rows := map repaint (lines_of m)\<rparr>) (tm_cursor m) sgr_default
      (tm_cursor_visible m) n (with_modes m c))\<lparr>tm_parser := p\<rparr>"
proof -
  let ?c = "c\<lparr>tm_parser := parser_new v\<rparr>"
  obtain p where p: "ground p" "feed_bytes v (tm_parser c) (snapshot_vt (cols_of m) (rows_of m) m) ?c =
      (p, fold handle_call (snapshot_calls m) ?c)"
    using emits_snapshot [OF assms(1,2)] assms(4) unfolding emits_def by blast
  obtain n where "fold handle_call (snapshot_calls m) ?c = screen ((tm_grid m)\<lparr>g_rows := map repaint (lines_of m)\<rparr>)
      (tm_cursor m) sgr_default (tm_cursor_visible m) n (with_modes m ?c)"
    using snapshot_effect [OF assms(2), of ?c] assms wf_plain_fields(7) [OF assms(3)] by auto
  then show ?thesis
    using p by (intro exI [of _ n] exI [of _ p]) (simp add: feed_def screen_def with_modes_def)
qed

end
