(* ===== verification/Terminal_Render.thy ===== *)
theory Terminal_Render
  imports Terminal_Session Terminal_Snapshot
begin

text \<open>
  The output side of a terminal: the ring holds the longest recent run of whole chunks that fits, and
  the render plane as a machine whose inputs are chunks, resizes, colours, polls and the child's exit.
  Over any run its model stays well-formed and of the size the plane reports, every patch names the
  revision of the broadcast before it, and readiness is announced at most once and after output.
\<close>

section \<open>The ring\<close>

definition ring_ok :: "byte_ring \<Rightarrow> bool" where
  "ring_ok b \<longleftrightarrow> br_total_bytes b = length (concat (br_chunks b))"

lemma ring_evict_spec:
  "ring_ok b \<Longrightarrow> ring_evict b n = (b', m) \<Longrightarrow>
     ring_ok b' \<and> br_max_bytes b' = br_max_bytes b \<and> n \<le> m \<and> m - n \<le> length (br_chunks b) - 1 \<and>
     br_chunks b' = drop (m - n) (br_chunks b) \<and>
     (br_total_bytes b' \<le> br_max_bytes b \<or> length (br_chunks b') \<le> 1) \<and>
     (m > n \<longrightarrow> length (concat (drop (m - n - 1) (br_chunks b))) > br_max_bytes b)"
proof (induction b n rule: ring_evict.induct)
  case (1 b n)
  show ?case
  proof (cases "br_total_bytes b > br_max_bytes b \<and> length (br_chunks b) > 1")
    case True
    let ?b = "b\<lparr>br_chunks := tl (br_chunks b), br_total_bytes := br_total_bytes b - length (hd (br_chunks b))\<rparr>"
    obtain c cs where cs: "br_chunks b = c # cs" using True by (cases "br_chunks b") auto
    have ok: "ring_ok ?b" using "1.prems"(1) cs by (simp add: ring_ok_def)
    have e: "ring_evict ?b (Suc n) = (b', m)" using "1.prems"(2) True by (subst (asm) ring_evict.simps) simp
    note ih = "1.IH" [OF True ok e]
    show ?thesis
    proof (cases "m = Suc n")
      case True
      then show ?thesis using ih cs "1.prems"(1) \<open>br_total_bytes b > br_max_bytes b \<and> _\<close>
        by (cases cs) (auto simp: ring_ok_def)
    next
      case False
      then have "m - n = Suc (m - Suc n)" "m - n - 1 = Suc (m - Suc n - 1)" using ih by auto
      then show ?thesis using ih cs False by auto
    qed
  next
    case False
    then have "b' = b" "m = n" using "1.prems"(2) by (subst (asm) ring_evict.simps; auto)+
    then show ?thesis using False "1.prems"(1) by auto
  qed
qed

text \<open>After the chunks \<open>css\<close>, the ring is the longest run of them that ends with the last and fits.\<close>

definition ring_holds :: "nat \<Rightarrow> string list \<Rightarrow> nat \<Rightarrow> byte_ring \<Rightarrow> bool" where
  "ring_holds max_bytes css k b \<longleftrightarrow> ring_ok b \<and> br_max_bytes b = max_bytes \<and> k \<le> length css \<and>
     br_chunks b = drop k css \<and> (css \<noteq> [] \<longrightarrow> k < length css) \<and>
     (br_total_bytes b \<le> max_bytes \<or> length (br_chunks b) = 1) \<and>
     (k > 0 \<longrightarrow> length (concat (drop (k - 1) css)) > max_bytes)"

lemma ring_holds_new: "ring_holds max_bytes [] 0 (ring_new max_bytes)"
  by (simp add: ring_holds_def ring_ok_def ring_new_def)

lemma ring_holds_push:
  assumes "ring_holds max_bytes css k b" "ring_evict (ring_push c b) 0 = (b', j)"
  shows "ring_holds max_bytes (css @ [c]) (k + j) b'"
proof -
  define xs where "xs = css @ [c]"
  have k: "k < length xs" using assms(1) by (simp add: ring_holds_def xs_def)
  have p: "ring_ok (ring_push c b)" "br_max_bytes (ring_push c b) = max_bytes" "br_chunks (ring_push c b) = drop k xs"
    using assms(1) by (simp_all add: ring_holds_def ring_ok_def ring_push_def xs_def)
  note e = ring_evict_spec [OF p(1) assms(2)]
  have c: "br_chunks b' = drop (k + j) xs" "k + j < length xs"
    using e p(3) k by (auto simp: add.commute)
  have j: "length (concat (drop (k + j - 1) xs)) > max_bytes" if "j > 0"
  proof -
    have "drop (j - 1) (drop k xs) = drop (k + j - 1) xs" using that by (simp add: add.commute)
    then show ?thesis using e p(2,3) that by simp
  qed
  have "length (concat (drop (k - 1) xs)) > max_bytes" if "k > 0"
    using assms(1) that by (auto simp: ring_holds_def xs_def)
  then have "k + j > 0 \<longrightarrow> length (concat (drop (k + j - 1) xs)) > max_bytes" using j by (cases "j = 0") auto
  moreover have "br_total_bytes b' \<le> max_bytes \<or> length (br_chunks b') \<le> 1" using e p(2) by blast
  then have "br_total_bytes b' \<le> max_bytes \<or> length (br_chunks b') = 1" using c by auto
  ultimately show ?thesis unfolding xs_def [symmetric] using e p(2) c by (simp add: ring_holds_def)
qed

lemma sat_add_min: "sat_add_u32 (min a u32_max) 1 = min (a + 1) u32_max"
  by (simp add: sat_add_u32_def)

lemma sat_add_power: "((\<lambda>n. sat_add_u32 n 1) ^^ j) (min k u32_max) = min (k + j) u32_max"
  by (induction j) (simp_all add: sat_add_min del: One_nat_def)

lemma broadcaster_run:
  assumes "b = fold (\<lambda>c b. fst (broadcast_chunk c b)) css (broadcaster_new max_bytes)"
  shows "\<exists>k. ring_holds max_bytes css k (pb_buffer b) \<and> pb_pty_seq b = min (length css) u32_max \<and>
    pb_render_rev b = min (length css) u32_max \<and> pb_pty_seq_head b = min k u32_max"
  using assms
proof (induction css arbitrary: b rule: rev_induct)
  case Nil
  then show ?case by (intro exI [of _ 0]) (simp add: broadcaster_new_def ring_holds_new)
next
  case (snoc c css)
  let ?b = "fold (\<lambda>c b. fst (broadcast_chunk c b)) css (broadcaster_new max_bytes)"
  obtain k where k: "ring_holds max_bytes css k (pb_buffer ?b)" "pb_pty_seq ?b = min (length css) u32_max"
      "pb_render_rev ?b = min (length css) u32_max" "pb_pty_seq_head ?b = min k u32_max"
    using snoc.IH by blast
  obtain ring j where e: "ring_evict (ring_push c (pb_buffer ?b)) 0 = (ring, j)" by fastforce
  have "b = fst (broadcast_chunk c ?b)" using snoc.prems by simp
  then have "pb_buffer b = ring" "pb_pty_seq b = sat_add_u32 (pb_pty_seq ?b) 1"
    "pb_render_rev b = sat_add_u32 (pb_render_rev ?b) 1"
    "pb_pty_seq_head b = ((\<lambda>n. sat_add_u32 n 1) ^^ j) (pb_pty_seq_head ?b)"
    using e by (simp_all add: broadcast_chunk_def Let_def)
  then show ?case
    using ring_holds_push [OF k(1) e] k(2-4) by (intro exI [of _ "k + j"]) (simp add: sat_add_power sat_add_min del: One_nat_def)
qed

text \<open>Chunks one after the other, with what they broadcast.\<close>

fun broadcast_run :: "string list \<Rightarrow> pty_broadcaster \<Rightarrow> pty_broadcaster \<times> effect list" where
  "broadcast_run [] b = (b, [])"
| "broadcast_run (c # cs) b =
     (case broadcast_chunk c b of (b1, es) \<Rightarrow> case broadcast_run cs b1 of (b2, es') \<Rightarrow> (b2, es @ es'))"

definition numbered_patch :: "nat \<times> string \<Rightarrow> effect" where
  "numbered_patch = (\<lambda>(n, c). Broadcast (RenderPatch
     \<lparr>rp_render_rev = min n u32_max, rp_prev_render_rev = min (n - 1) u32_max,
      rp_pty_seq = min n u32_max, rp_encoding = Vt, rp_data = c\<rparr>))"

lemma broadcast_run_fst: "fst (broadcast_run css b) = fold (\<lambda>c b. fst (broadcast_chunk c b)) css b"
  by (induction css arbitrary: b) (simp_all split: prod.splits, metis fst_conv)

lemma broadcast_run_numbered:
  "pb_pty_seq b = min m u32_max \<Longrightarrow> pb_render_rev b = min m u32_max \<Longrightarrow>
     snd (broadcast_run css b) = map numbered_patch (enumerate (Suc m) css)"
proof (induction css arbitrary: m b)
  case (Cons c cs)
  obtain ring j where e: "ring_evict (ring_push c (pb_buffer b)) 0 = (ring, j)" by fastforce
  obtain b1 es where b1: "broadcast_chunk c b = (b1, es)" by fastforce
  have "pb_pty_seq b1 = min (Suc m) u32_max" "pb_render_rev b1 = min (Suc m) u32_max"
    "es = [numbered_patch (Suc m, c)]"
    using b1 e Cons.prems sat_add_min [of m] by (auto simp: broadcast_chunk_def Let_def numbered_patch_def)
  then show ?case using Cons.IH [of b1 "Suc m"] b1 by (auto split: prod.splits)
qed simp

section \<open>The plane as a machine\<close>

datatype plane_input =
  InChunk nat string | InResize nat nat | InPoll nat | InColors "rgb option" "rgb option" | InExit "i32 option"

fun plane_step :: "'p vte \<Rightarrow> plane_input \<Rightarrow> 'p render_plane \<Rightarrow> 'p render_plane \<times> effect list" where
  "plane_step v (InChunk now bytes) p = plane_chunk v now bytes p"
| "plane_step v (InResize cols rows) p = plane_resize cols rows p"
| "plane_step v (InPoll now) p = (case detect_ready now p of (p', e) \<Rightarrow> (p', case e of None \<Rightarrow> [] | Some x \<Rightarrow> [x]))"
| "plane_step v (InColors fg bg) p = (plane_set_colors fg bg p, [])"
| "plane_step v (InExit code) p = (p, plane_exit code p)"

fun plane_run :: "'p vte \<Rightarrow> plane_input list \<Rightarrow> 'p render_plane \<Rightarrow> 'p render_plane \<times> effect list" where
  "plane_run v [] p = (p, [])"
| "plane_run v (i # is) p =
     (case plane_step v i p of (p1, es) \<Rightarrow> case plane_run v is p1 of (p2, es') \<Rightarrow> (p2, es @ es'))"

text \<open>Sizes on the wire are u16.\<close>

fun input_ok :: "plane_input \<Rightarrow> bool" where
  "input_ok (InResize cols rows) \<longleftrightarrow> cols \<le> u16_max \<and> rows \<le> u16_max"
| "input_ok _ \<longleftrightarrow> True"

definition plane_wf :: "(nat \<Rightarrow> bool) \<Rightarrow> 'p render_plane \<Rightarrow> bool" where
  "plane_wf printable p \<longleftrightarrow> terminal_wf printable (pl_model p) \<and>
     cols_of (pl_model p) = max (pl_cols p) 1 \<and> rows_of (pl_model p) = max (pl_rows p) 1 \<and>
     pl_cols p \<le> u16_max \<and> pl_rows p \<le> u16_max \<and>
     pl_last_emitted_render_rev p = tm_rev (pl_model p) \<and> pl_pty_seq p \<le> u32_max \<and>
     (pl_last_rev_change_at p \<noteq> None \<longrightarrow> pl_pty_seq p \<ge> 1)"

lemma wf_terminal_new:
  "pr 32 \<Longrightarrow> cols \<le> u16_max \<Longrightarrow> rows \<le> u16_max \<Longrightarrow> terminal_wf pr (terminal_new v cols rows k)"
  by (simp add: terminal_wf_def terminal_new_def grid_wf_new cursor_wf_def history_wf_def) (simp add: grid_new_def max_def)

lemma plane_wf_new:
  "pr 32 \<Longrightarrow> cols \<le> u16_max \<Longrightarrow> rows \<le> u16_max \<Longrightarrow> plane_wf pr (plane_new v cols rows tmax smax)"
  by (simp add: plane_wf_def plane_new_def wf_terminal_new) (simp add: terminal_new_def grid_new_def u32_max_def)

lemma dims_power:
  fixes f :: "'p terminal_model \<Rightarrow> 'p terminal_model"
  assumes "\<And>m. cols_of (f m) = cols_of m \<and> rows_of (f m) = rows_of m"
  shows "cols_of ((f ^^ n) m) = cols_of m \<and> rows_of ((f ^^ n) m) = rows_of m"
  by (induction n) (simp_all add: assms)

lemma scroll_dims [simp]:
  "cols_of (scroll_up_inner n m) = cols_of m" "rows_of (scroll_up_inner n m) = rows_of m"
  "cols_of (scroll_down_inner n m) = cols_of m" "rows_of (scroll_down_inner n m) = rows_of m"
  using dims_power [of scroll_up_once n m] dims_power [of scroll_down_once n m]
  by (simp_all add: scroll_up_inner_def scroll_down_inner_def scroll_up_once_def scroll_down_once_def split: list.split)

lemma cursor_dims [simp]:
  "tm_grid (clamp_cursor m) = tm_grid m" "cols_of (newline m) = cols_of m" "rows_of (newline m) = rows_of m"
  by (simp_all add: clamp_cursor_def newline_def Let_def)

lemma clear_rows_dims [simp]:
  "g_cols (fold clear_row rs g) = g_cols g" "g_rows_count (fold clear_row rs g) = g_rows_count g"
  by (induction rs arbitrary: g) simp_all

lemma handle_call_dims: "cols_of (handle_call h m) = cols_of m \<and> rows_of (handle_call h m) = rows_of m"
  by (cases h)
    (simp_all add: handle_call.simps print_char_def carriage_return_def line_feed_def backspace_def horizontal_tab_def
      cursor_up_def cursor_down_def cursor_forward_def cursor_backward_def cursor_to_def cursor_column_def cursor_row_def
      erase_screen_def erase_line_def scroll_up_def scroll_down_def set_sgr_def set_cursor_visible_def
      set_mouse_mode_def osc_color_query_def device_status_report_cursor_def push_reply_def Let_def
      split: option.split erase_mode.split)

lemma feed_dims: "cols_of (feed v bytes m) = cols_of m \<and> rows_of (feed v bytes m) = rows_of m"
proof -
  have calls: "cols_of (fold handle_call hs m) = cols_of m \<and> rows_of (fold handle_call hs m) = rows_of m"
    for hs and m :: "'a terminal_model" by (induction hs arbitrary: m) (simp_all add: handle_call_dims)
  have acts: "cols_of (fold perform_action as m) = cols_of m \<and> rows_of (fold perform_action as m) = rows_of m"
    for as and m :: "'a terminal_model" by (induction as arbitrary: m) (simp_all add: perform_action_def calls)
  show ?thesis by (simp add: feed_def feed_bytes_run acts)
qed

lemma resize_dims:
  "cols_of (resize cols rows m) = max cols 1 \<and> rows_of (resize cols rows m) = max rows 1"
proof -
  have d: "cols_of ((drop_line ^^ n) x) = cols_of x" for n and x :: "'a terminal_model"
    by (induction n) (auto simp: drop_line_def Let_def split: list.split)
  define nc nr where "nc = max cols 1" and "nr = max rows 1"
  have rows: "cols_of (resize_rows nc nr x) = cols_of x" for x :: "'a terminal_model"
    by (simp add: resize_rows_def Let_def d)
  show ?thesis
    unfolding resize_def Let_def nc_def [symmetric] nr_def [symmetric] by (auto simp: rows)
qed

lemma resize_rev: "tm_rev (resize cols rows m) = min (tm_rev m + 1) u32_max"
proof -
  have d: "tm_rev ((drop_line ^^ n) x) = tm_rev x" for n and x :: "'a terminal_model"
    by (rule tm_rev_power) (simp add: drop_line_def Let_def split: list.split)
  have rows: "tm_rev (resize_rows nc nr x) = tm_rev x" for nc nr and x :: "'a terminal_model"
    by (simp add: resize_rows_def Let_def d)
  show ?thesis unfolding resize_def Let_def by (auto simp: rows bump_def)
qed

lemma observe_fields [simp]:
  "pl_model (observe c p) = pl_model p" "pl_transcript (observe c p) = pl_transcript p"
  "pl_pty_seq (observe c p) = pl_pty_seq p" "pl_cols (observe c p) = pl_cols p" "pl_rows (observe c p) = pl_rows p"
  "pl_last_emitted_render_rev (observe c p) = pl_last_emitted_render_rev p"
  "pl_last_rev_change_at (observe c p) = pl_last_rev_change_at p"
  "pl_child_ready_fired (observe c p) = pl_child_ready_fired p"
  by (simp_all add: observe_def)

lemma plane_step_wf:
  assumes v: "prints_only pr v" and wf: "plane_wf pr p" and ok: "input_ok i" and s: "plane_step v i p = (p', es)"
  shows "plane_wf pr p'"
proof (cases i)
  case (InChunk now bytes)
  have "terminal_wf pr (feed v bytes (pl_model p))" using wf_feed [OF v] wf by (simp add: plane_wf_def)
  then show ?thesis
    using wf s InChunk feed_dims [of v bytes "pl_model p"]
    by (auto simp: plane_chunk_def Let_def take_pending_osc_replies_def plane_wf_def wf_plain_fields sat_add_u32_def
        u32_max_def)
next
  case (InResize cols rows)
  have "terminal_wf pr (resize cols rows (pl_model p))"
    using resize_outcome [of pr "pl_model p" cols rows] v wf ok InResize by (simp add: plane_wf_def prints_only_def)
  then show ?thesis
    using wf s InResize ok resize_dims [of cols rows "pl_model p"]
    by (auto simp: plane_resize_def Let_def plane_wf_def build_snapshot_def)
next
  case (InPoll now)
  then show ?thesis using wf s by (auto simp: detect_ready_def plane_wf_def split: option.splits if_splits)
next
  case (InColors fg bg)
  then show ?thesis using wf s by (auto simp: plane_set_colors_def Let_def plane_wf_def wf_plain_fields) (simp_all add: set_default_colors_def)
next
  case (InExit code)
  then show ?thesis using wf s by simp
qed

lemma plane_run_wf:
  "prints_only pr v \<Longrightarrow> list_all input_ok is \<Longrightarrow> plane_wf pr p \<Longrightarrow> plane_wf pr (fst (plane_run v is p))"
proof (induction "is" arbitrary: p)
  case (Cons i "is")
  obtain p1 es where s: "plane_step v i p = (p1, es)" by fastforce
  have "plane_wf pr p1" using plane_step_wf [OF Cons.prems(1,3) _ s] Cons.prems(2) by simp
  then have "plane_wf pr (fst (plane_run v is p1))" using Cons.IH [OF Cons.prems(1)] Cons.prems(2) by simp
  then show ?case using s by (simp add: split_beta)
qed simp

section \<open>Revisions of broadcasts\<close>

text \<open>Each patch names the revision of the patch or snapshot broadcast before it.\<close>

fun chained :: "nat \<Rightarrow> effect list \<Rightarrow> bool" where
  "chained r [] = True"
| "chained r (Broadcast (RenderPatch x) # es) \<longleftrightarrow>
     rp_prev_render_rev x = r \<and> r \<le> rp_render_rev x \<and> chained (rp_render_rev x) es"
| "chained r (Broadcast (RenderSnapshot x) # es) \<longleftrightarrow> r \<le> rs_render_rev x \<and> chained (rs_render_rev x) es"
| "chained r (_ # es) \<longleftrightarrow> chained r es"

fun last_rev :: "nat \<Rightarrow> effect list \<Rightarrow> nat" where
  "last_rev r [] = r"
| "last_rev r (Broadcast (RenderPatch x) # es) = last_rev (rp_render_rev x) es"
| "last_rev r (Broadcast (RenderSnapshot x) # es) = last_rev (rs_render_rev x) es"
| "last_rev r (_ # es) = last_rev r es"

lemma chained_append: "chained r (a @ b) \<longleftrightarrow> chained r a \<and> chained (last_rev r a) b"
  by (induction r a rule: chained.induct) auto

lemma last_rev_append: "last_rev r (a @ b) = last_rev (last_rev r a) b"
  by (induction r a rule: chained.induct) auto

lemma plane_step_chained:
  assumes "plane_wf pr p" "plane_step v i p = (p', es)"
  shows "chained (pl_last_emitted_render_rev p) es \<and> last_rev (pl_last_emitted_render_rev p) es = pl_last_emitted_render_rev p'"
proof (cases i)
  case (InChunk now bytes)
  have "tm_rev (pl_model p) \<le> tm_rev (feed v bytes (pl_model p))"
    using feed_rev_tells [of "pl_model p" v bytes] assms(1) by (simp add: rev_tells_def plane_wf_def terminal_wf_def)
  then show ?thesis
    using assms InChunk by (auto simp: plane_chunk_def Let_def take_pending_osc_replies_def plane_wf_def split: if_splits)
next
  case (InResize cols rows)
  then show ?thesis
    using assms resize_rev [of cols rows "pl_model p"]
    by (auto simp: plane_resize_def Let_def build_snapshot_def plane_wf_def terminal_wf_def)
next
  case (InPoll now)
  then show ?thesis using assms by (auto simp: detect_ready_def split: option.splits if_splits)
next
  case (InColors fg bg)
  then show ?thesis using assms by (auto simp: plane_set_colors_def Let_def)
next
  case (InExit code)
  then show ?thesis using assms by (auto simp: plane_exit_def)
qed

lemma plane_run_chained:
  "prints_only pr v \<Longrightarrow> list_all input_ok is \<Longrightarrow> plane_wf pr p \<Longrightarrow> plane_run v is p = (p', es) \<Longrightarrow>
     chained (pl_last_emitted_render_rev p) es \<and> last_rev (pl_last_emitted_render_rev p) es = pl_last_emitted_render_rev p'"
proof (induction "is" arbitrary: p es)
  case (Cons i "is")
  obtain p1 es1 where s: "plane_step v i p = (p1, es1)" by fastforce
  obtain es2 where r: "plane_run v is p1 = (p', es2)" "es = es1 @ es2"
    using Cons.prems(4) s by (auto split: prod.splits)
  have "plane_wf pr p1" using plane_step_wf [OF Cons.prems(1,3) _ s] Cons.prems(2) by simp
  then show ?case
    using Cons.IH [OF Cons.prems(1) _ _ r(1)] Cons.prems(2) plane_step_chained [OF Cons.prems(3) s] r(2)
    by (simp add: chained_append last_rev_append)
qed simp

section \<open>Readiness\<close>

fun is_child_ready :: "effect \<Rightarrow> bool" where
  "is_child_ready (Broadcast (ChildReady _ _)) = True"
| "is_child_ready _ = False"

definition ready_count :: "effect list \<Rightarrow> nat" where
  "ready_count es = length (filter is_child_ready es)"

lemma plane_step_ready:
  assumes "plane_wf pr p" "plane_step v i p = (p', es)"
  shows "ready_count es + (if pl_child_ready_fired p then 1 else 0) = (if pl_child_ready_fired p' then 1 else 0) \<and>
    (\<forall>seq rev. Broadcast (ChildReady seq rev) \<in> set es \<longrightarrow> 1 \<le> seq)"
  using assms
  by (cases i) (auto simp: plane_chunk_def plane_resize_def detect_ready_def plane_set_colors_def plane_exit_def
      take_pending_osc_replies_def ready_count_def plane_wf_def Let_def split: option.splits if_splits)

lemma plane_run_ready:
  "prints_only pr v \<Longrightarrow> list_all input_ok is \<Longrightarrow> plane_wf pr p \<Longrightarrow> plane_run v is p = (p', es) \<Longrightarrow>
     ready_count es + (if pl_child_ready_fired p then 1 else 0) = (if pl_child_ready_fired p' then 1 else 0) \<and>
     (\<forall>seq rev. Broadcast (ChildReady seq rev) \<in> set es \<longrightarrow> 1 \<le> seq)"
proof (induction "is" arbitrary: p es)
  case (Cons i "is")
  obtain p1 es1 where s: "plane_step v i p = (p1, es1)" by fastforce
  obtain es2 where r: "plane_run v is p1 = (p', es2)" "es = es1 @ es2"
    using Cons.prems(4) s by (auto split: prod.splits)
  have w: "plane_wf pr p1" using plane_step_wf [OF Cons.prems(1,3) _ s] Cons.prems(2) by simp
  have "ready_count es = ready_count es1 + ready_count es2" using r(2) by (simp add: ready_count_def)
  then show ?case
    using Cons.IH [OF Cons.prems(1) _ w r(1)] Cons.prems(2) plane_step_ready [OF Cons.prems(3) s] r(2) by auto
qed (simp add: ready_count_def)

end
