(* ===== verification/Terminal_Authority.thy ===== *)
theory Terminal_Authority
  imports Terminal_Owner
begin

text \<open>
  Who may write to a terminal at the moment of writing (crates/calm-server/src/terminal\_renderer/input\_authority.rs).
  A barrier serialises admitted writes with handshakes and claims: its two locks are flags, and an
  operation that has to wait for a lock is \<open>Pending\<close>. The answers of a bound scope's checks, which are
  queries of the caller, are arguments; \<open>None\<close> is no answer within the limit of five seconds. \<open>admit_write\<close> is
  one step, where the source holds the serial lock while it awaits the scope's answer and then the
  completion of the write before: a write that would wait there has not begun, here, and tries again.
\<close>

datatype 'a poll = Pending | Ready 'a

section \<open>Scopes\<close>

datatype client_input_scope = InteractiveUser | Bound

record scope_answers =
  an_observe :: "bool option"
  an_control :: "bool option"

fun scope_allowed :: "client_input_scope \<Rightarrow> scope_answers \<Rightarrow> bool" where
  "scope_allowed InteractiveUser ans = True"
| "scope_allowed Bound ans = (case an_observe ans of None \<Rightarrow> False | Some b \<Rightarrow> b)"

fun control_allowed :: "client_input_scope \<Rightarrow> scope_answers \<Rightarrow> bool" where
  "control_allowed InteractiveUser ans = True"
| "control_allowed Bound ans = (case an_control ans of None \<Rightarrow> False | Some b \<Rightarrow> b)"

section \<open>The barrier\<close>

record input_barrier =
  ib_serial :: bool
  ib_write_completion :: bool
  ib_uncertain :: bool
  ib_awaiting_spawn :: bool

definition barrier_default :: input_barrier where
  "barrier_default =
     \<lparr>ib_serial = False, ib_write_completion = False, ib_uncertain = False, ib_awaiting_spawn = False\<rparr>"

definition barrier_awaiting_spawn :: input_barrier where
  "barrier_awaiting_spawn = barrier_default\<lparr>ib_awaiting_spawn := True\<rparr>"

definition interactive :: "input_barrier \<Rightarrow> bool" where
  "interactive b \<longleftrightarrow> \<not> ib_awaiting_spawn b"

definition spawned :: "input_barrier \<Rightarrow> input_barrier" where
  "spawned b = b\<lparr>ib_awaiting_spawn := False\<rparr>"

text \<open>Taking the lock and dropping it at once.\<close>

definition wait_for_write_completion :: "input_barrier \<Rightarrow> unit poll" where
  "wait_for_write_completion b = (if ib_write_completion b then Pending else Ready ())"

text \<open>The lock is held when the answer is \<open>True\<close>, and dropped again when it is \<open>False\<close>.\<close>

definition grant :: "input_barrier \<Rightarrow> (input_barrier \<times> bool) poll" where
  "grant b =
     (if ib_serial b then Pending
      else if ib_uncertain b then Ready (b, False)
      else Ready (b\<lparr>ib_serial := True\<rparr>, True))"

definition drop_grant :: "input_barrier \<Rightarrow> input_barrier" where
  "drop_grant b = b\<lparr>ib_serial := False\<rparr>"

section \<open>Admission of a write\<close>

datatype write_authority = TrustedKernel | ConnectionAuthority input_permission client_input_scope

record write_guard =
  wg_ownership :: bool
  wg_serial :: bool
  wg_write_completion :: bool
  wg_started :: bool
  wg_completed :: bool

definition kernel_guard :: write_guard where
  "kernel_guard = \<lparr>wg_ownership = False, wg_serial = False, wg_write_completion = False,
     wg_started = False, wg_completed = False\<rparr>"

definition connection_guard :: write_guard where
  "connection_guard = \<lparr>wg_ownership = True, wg_serial = True, wg_write_completion = True,
     wg_started = False, wg_completed = False\<rparr>"

definition admit_write ::
  "write_authority \<Rightarrow> scope_answers \<Rightarrow> owner_registry \<Rightarrow> input_barrier \<Rightarrow>
     (input_barrier \<times> write_guard option) poll" where
  "admit_write authority ans reg b =
     (case authority of
        TrustedKernel \<Rightarrow> Ready (b, Some kernel_guard)
      | ConnectionAuthority permission scope \<Rightarrow>
          (case grant b of
             Pending \<Rightarrow> Pending
           | Ready (b1, False) \<Rightarrow> Ready (b1, None)
           | Ready (b1, True) \<Rightarrow>
               if \<not> interactive b1 then Ready (drop_grant b1, None)
               else if \<not> control_allowed scope ans then Ready (drop_grant b1, None)
               else if \<not> permission_allowed permission reg then Ready (drop_grant b1, None)
               else if ib_write_completion b1 then Pending
               else Ready (b1\<lparr>ib_write_completion := True\<rparr>, Some connection_guard)))"

definition guard_started :: "write_guard \<Rightarrow> write_guard" where
  "guard_started g = g\<lparr>wg_started := True\<rparr>"

definition guard_completed :: "write_guard \<Rightarrow> write_guard" where
  "guard_completed g = g\<lparr>wg_completed := True\<rparr>"

definition guard_drop :: "write_guard \<Rightarrow> input_barrier \<Rightarrow> input_barrier" where
  "guard_drop g b =
     (let b1 = (if wg_started g \<and> \<not> wg_completed g \<and> wg_ownership g then b\<lparr>ib_uncertain := True\<rparr> else b);
          b2 = (if wg_serial g then b1\<lparr>ib_serial := False\<rparr> else b1)
      in if wg_write_completion g then b2\<lparr>ib_write_completion := False\<rparr> else b2)"

section \<open>What each operation does\<close>

lemma grant_cases [consumes 1, case_names refused granted]:
  assumes "grant b = Ready (b1, ok)"
  obtains (refused) "ib_uncertain b" "\<not> ok" "b1 = b" "\<not> ib_serial b"
  | (granted) "\<not> ib_uncertain b" "\<not> ib_serial b" ok "b1 = b\<lparr>ib_serial := True\<rparr>"
  using assms by (auto simp: grant_def split: if_splits)

lemma drop_grant_granted: "\<not> ib_serial b \<Longrightarrow> drop_grant (b\<lparr>ib_serial := True\<rparr>) = b"
  by (simp add: drop_grant_def)

text \<open>A refused write leaves the barrier as it was; an admitted one of a connection was allowed by the
  registry and holds both locks.\<close>

lemma admit_write_cases [consumes 1, case_names refused kernel connection]:
  assumes "admit_write authority ans reg b = Ready (b1, res)"
  obtains (refused) "res = None" "b1 = b"
  | (kernel) "authority = TrustedKernel" "res = Some kernel_guard" "b1 = b"
  | (connection) permission scope where "authority = ConnectionAuthority permission scope"
      "res = Some connection_guard" "b1 = b\<lparr>ib_serial := True, ib_write_completion := True\<rparr>"
      "\<not> ib_serial b" "\<not> ib_uncertain b" "interactive b" "control_allowed scope ans" "permission_allowed permission reg"
proof (cases authority)
  case TrustedKernel
  then show ?thesis using assms that by (simp add: admit_write_def)
next
  case (ConnectionAuthority permission scope)
  obtain b2 ok where g: "grant b = Ready (b2, ok)"
    using assms ConnectionAuthority by (cases "grant b") (auto simp: admit_write_def)
  then show ?thesis
    by (cases rule: grant_cases)
      (use assms ConnectionAuthority g that in \<open>auto simp: admit_write_def drop_grant_granted interactive_def split: if_splits\<close>)
qed

lemma guard_drop_uncertain: "ib_uncertain b \<Longrightarrow> ib_uncertain (guard_drop g b)"
  by (simp add: guard_drop_def Let_def)

end
