(* ===== verification/Terminal_Pump.thy ===== *)
theory Terminal_Pump
  imports Terminal_Authority Terminal_Session
begin

text \<open>
  The server's side of a terminal's clients (crates/calm-server/src/terminal\_renderer: client\_pump.rs,
  control\_writer.rs): a connection's handshake and its frames under the input barrier, the delivery of messages
  to the client, and the writer that hands admitted writes to the supervisor. A channel is the list of what
  was sent on it; a connection's own channel is named by the connection's number. What the supervisor
  answers is an argument. A send that fails because the client is gone is the connection being dropped.

  An operation here is one step, where the source is several critical sections. \<open>first_frame\<close> runs
  \<open>on_client_frame\<close> and then its effects on the same plane; the source drops the grant and both locks in
  between and locks the plane again for the snapshot. \<open>pump_admitted\<close> runs its effects with the registry change;
  the source runs them after dropping the locks. What another connection does in between is not modelled.
\<close>

section \<open>Writes\<close>

datatype write_shape = Verbatim | SplitTrailingCr

definition write_parts :: "string \<Rightarrow> write_shape \<Rightarrow> string list" where
  "write_parts data shape =
     (case shape of
        Verbatim \<Rightarrow> [data]
      | SplitTrailingCr \<Rightarrow>
          if length data \<ge> 2 \<and> last data = CHR 0x0D then [butlast data, [last data]] else [data])"

record pty_write =
  pw_data :: string
  pw_input_seq :: nat
  pw_ack :: "nat option"
  pw_authority :: write_authority
  pw_shape :: write_shape

datatype supervisor_control = CtlWrite pty_write | CtlResize nat nat | CtlStop

definition INPUT_REVOKED_BEFORE_WRITE :: string where
  "INPUT_REVOKED_BEFORE_WRITE = ''terminal input control or scope was revoked before write''"

definition PRE_READY_REFUSAL :: string where
  "PRE_READY_REFUSAL = ''terminal execution is not interactive yet''"

definition CONTROL_HELD_BY_ANOTHER_CLIENT :: string where
  "CONTROL_HELD_BY_ANOTHER_CLIENT = ''terminal is controlled by another client''"

definition CONTROL_UNAVAILABLE :: string where
  "CONTROL_UNAVAILABLE = ''terminal control is unavailable or its scope was revoked''"

section \<open>What the connections of a terminal share\<close>

record 'p terminal_shared =
  th_plane :: "'p render_plane"
  th_registry :: owner_registry
  th_barrier :: input_barrier
  th_exit :: "(i32 option \<times> nat \<times> nat) option"
  th_events :: "daemon_msg list"
  th_control :: "supervisor_control list"
  th_control_open :: bool

record client_lifetime =
  cl_state :: terminal_session_state
  cl_scope :: client_input_scope
  cl_scrollback :: "scrollback_limit option"
  cl_direct :: "daemon_msg list"

definition pump_context :: "string \<Rightarrow> uuid \<Rightarrow> 'p render_plane \<Rightarrow> session_context" where
  "pump_context terminal_id session_id p =
     \<lparr>cx_terminal_id = terminal_id, cx_session_id = session_id, cx_pty_size = current_size p,
      cx_pty_seq_head = 0, cx_pty_seq_tail = pl_pty_seq p, cx_render_rev = tm_rev (pl_model p),
      cx_is_child_ready = pl_child_ready_fired p, cx_current_default_fg = tm_default_fg (pl_model p),
      cx_current_default_bg = tm_default_bg (pl_model p)\<rparr>"

definition send_event :: "daemon_msg \<Rightarrow> 'p terminal_shared \<Rightarrow> 'p terminal_shared" where
  "send_event msg sh = sh\<lparr>th_events := th_events sh @ [msg]\<rparr>"

definition send_direct :: "daemon_msg \<Rightarrow> client_lifetime \<Rightarrow> client_lifetime" where
  "send_direct msg cl = cl\<lparr>cl_direct := cl_direct cl @ [msg]\<rparr>"

definition send_control :: "supervisor_control \<Rightarrow> 'p terminal_shared \<Rightarrow> 'p terminal_shared" where
  "send_control item sh = (if th_control_open sh then sh\<lparr>th_control := th_control sh @ [item]\<rparr> else sh)"

definition request_resize :: "nat \<Rightarrow> nat \<Rightarrow> 'p terminal_shared \<Rightarrow> 'p terminal_shared" where
  "request_resize cols rows sh = (if cols = 0 \<or> rows = 0 then sh else send_control (CtlResize cols rows) sh)"

definition client_drop :: "client_lifetime \<Rightarrow> 'p terminal_shared \<Rightarrow> 'p terminal_shared" where
  "client_drop cl sh =
     (case release_owner (cl_state cl) (th_registry sh) of
        (_, reg, changed) \<Rightarrow>
          let sh1 = sh\<lparr>th_registry := reg\<rparr> in if changed then send_event (OwnerChanged None) sh1 else sh1)"

section \<open>The handshake\<close>

text \<open>Before the child runs, a lease only reserves control: the client is shown as an observer.\<close>

fun present_hello :: "input_barrier \<Rightarrow> daemon_msg \<Rightarrow> daemon_msg" where
  "present_hello b (ServerHello h) =
     ServerHello (if interactive b then h else h\<lparr>sh_client_role := Observer, sh_owner_client_id := None\<rparr>)"
| "present_hello b msg = msg"

fun is_server_hello :: "daemon_msg \<Rightarrow> bool" where
  "is_server_hello (ServerHello _) = True"
| "is_server_hello _ = False"

definition exit_messages :: "(i32 option \<times> nat \<times> nat) option \<Rightarrow> daemon_msg list" where
  "exit_messages e = (case e of None \<Rightarrow> [] | Some (code, pty_seq, render_rev) \<Rightarrow> [TerminalExited code pty_seq render_rev])"

fun first_effect ::
  "scrollback_limit option \<Rightarrow> effect \<Rightarrow> 'p terminal_shared \<times> daemon_msg list \<times> bool \<Rightarrow>
     'p terminal_shared \<times> daemon_msg list \<times> bool" where
  "first_effect limit eff (sh, out, failed) =
     (case eff of
        ResizePty cols rows \<Rightarrow>
          (let sh1 = request_resize cols rows sh
           in (sh1\<lparr>th_plane := fst (plane_resize cols rows (th_plane sh1))\<rparr>, out, failed))
      | SendToClient msg \<Rightarrow>
          (let msg1 = present_hello (th_barrier sh) (rebuild_server_hello_snapshot msg (Some (th_plane sh)) limit)
           in (sh, out @ [msg1] @ (if is_server_hello msg1 then exit_messages (th_exit sh) else []), failed))
      | SendProtocolError code message version \<Rightarrow> (sh, out @ [ProtocolError code message version], True)
      | CloseConnection \<Rightarrow> (sh, out, True)
      | ProtocolViolation reason \<Rightarrow> (sh, out, True)
      | _ \<Rightarrow> (sh, out, failed))"

definition scrollback_of :: "client_msg \<Rightarrow> scrollback_limit option" where
  "scrollback_of msg = (case msg of ClientHello h \<Rightarrow> Some (scrollback_request (ch_initial_scrollback h)) | _ \<Rightarrow> None)"

text \<open>The result is the connection when the handshake succeeded, and the messages sent to the client.\<close>

definition first_frame ::
  "string \<Rightarrow> uuid \<Rightarrow> client_input_scope \<Rightarrow> scope_answers \<Rightarrow> client_msg \<Rightarrow> 'p terminal_shared \<Rightarrow>
     ('p terminal_shared \<times> client_lifetime option \<times> daemon_msg list) poll" where
  "first_frame terminal_id session_id scope ans msg sh =
     (case grant (th_barrier sh) of
        Pending \<Rightarrow> Pending
      | Ready (b, False) \<Rightarrow> Ready (sh, None, [])
      | Ready (b, True) \<Rightarrow>
          if \<not> scope_allowed scope ans then Ready (sh\<lparr>th_barrier := drop_grant b\<rparr>, None, [])
          else
            (case on_client_frame msg session_new (pl_transcript (th_plane sh)) (th_registry sh)
                    (pump_context terminal_id session_id (th_plane sh)) of
               (st, reg, effs) \<Rightarrow>
                 (case fold (first_effect (scrollback_of msg)) effs
                         (sh\<lparr>th_registry := reg, th_barrier := drop_grant b\<rparr>, [], False) of
                    (sh1, out, failed) \<Rightarrow>
                      let cl = \<lparr>cl_state = st, cl_scope = scope, cl_scrollback = scrollback_of msg, cl_direct = []\<rparr>
                      in if failed then Ready (client_drop cl sh1, None, out) else Ready (sh1, Some cl, out))))"

section \<open>Frames of a connected client\<close>

datatype pump_input = WireFrame client_msg | ClaimIfUnowned | CommandInput string nat write_shape

datatype claim_outcome = Granted | Refused message_text

fun pump_message :: "pump_input \<Rightarrow> client_msg \<times> bool \<times> write_shape" where
  "pump_message (WireFrame msg) = (msg, False, Verbatim)"
| "pump_message ClaimIfUnowned = (OwnerClaim, True, Verbatim)"
| "pump_message (CommandInput data input_seq shape) = (Input data input_seq, False, shape)"

fun is_input :: "client_msg \<Rightarrow> bool" where
  "is_input (Input _ _) = True"
| "is_input _ = False"

text \<open>One effect: the shared state, the connection, and whether the loop over effects is left.\<close>

fun pump_effect ::
  "nat \<Rightarrow> write_authority \<Rightarrow> write_shape \<Rightarrow> effect \<Rightarrow> 'p terminal_shared \<times> client_lifetime \<Rightarrow>
     'p terminal_shared \<times> client_lifetime \<times> bool" where
  "pump_effect c authority shape eff (sh, cl) =
     (case eff of
        SendToClient msg \<Rightarrow> (sh, send_direct msg cl, False)
      | Broadcast msg \<Rightarrow> (send_event msg sh, cl, False)
      | ResizePty cols rows \<Rightarrow>
          (let sh1 = request_resize cols rows sh
           in case plane_resize cols rows (th_plane sh1) of
                (p, effs) \<Rightarrow>
                  (fold (\<lambda>e s. case e of Broadcast m \<Rightarrow> send_event m s | _ \<Rightarrow> s) effs (sh1\<lparr>th_plane := p\<rparr>), cl, False))
      | WriteToPty data input_seq \<Rightarrow>
          (let w = \<lparr>pw_data = data, pw_input_seq = input_seq, pw_ack = (if input_seq > 0 then Some c else None),
                    pw_authority = authority, pw_shape = shape\<rparr>
           in (send_control (CtlWrite w) sh, cl, \<not> th_control_open sh))
      | KillChild \<Rightarrow> (send_control CtlStop sh, cl, False)
      | SendProtocolError code message version \<Rightarrow> (sh, send_direct (ProtocolError code message version) cl, False)
      | CloseConnection \<Rightarrow> (sh, cl, True)
      | AssignOwner _ \<Rightarrow> (sh, cl, False)
      | BroadcastOwnerChanged owner \<Rightarrow> (send_event (OwnerChanged owner) sh, cl, False)
      | ProtocolViolation reason \<Rightarrow> (sh, cl, True)
      | TerminalThemeUpdate fg bg \<Rightarrow>
          (let sh1 = sh\<lparr>th_plane := plane_set_colors (Some fg) (Some bg) (th_plane sh)\<rparr>
           in if \<not> tm_focus_event_tracking (pl_model (th_plane sh1)) then (sh1, cl, False)
              else (send_control (CtlWrite \<lparr>pw_data = ESC # ''[I'', pw_input_seq = 0, pw_ack = None,
                      pw_authority = authority, pw_shape = Verbatim\<rparr>) sh1, cl, \<not> th_control_open sh1)))"

fun pump_effects ::
  "nat \<Rightarrow> write_authority \<Rightarrow> write_shape \<Rightarrow> effect list \<Rightarrow> 'p terminal_shared \<times> client_lifetime \<Rightarrow>
     'p terminal_shared \<times> client_lifetime \<times> bool" where
  "pump_effects c authority shape [] (sh, cl) = (sh, cl, False)"
| "pump_effects c authority shape (eff # effs) (sh, cl) =
     (case pump_effect c authority shape eff (sh, cl) of
        (sh1, cl1, closed) \<Rightarrow> if closed then (sh1, cl1, True) else pump_effects c authority shape effs (sh1, cl1))"

fun first_error :: "effect list \<Rightarrow> message_text option" where
  "first_error [] = None"
| "first_error (SendProtocolError code message version # effs) = Some message"
| "first_error (eff # effs) = first_error effs"

text \<open>A frame once the barrier let it pass: the outcome of a claim, and whether the connection is closed.\<close>

definition pump_admitted ::
  "string \<Rightarrow> uuid \<Rightarrow> nat \<Rightarrow> client_msg \<Rightarrow> bool \<Rightarrow> write_shape \<Rightarrow> client_lifetime \<Rightarrow> 'p terminal_shared \<Rightarrow>
     'p terminal_shared \<times> client_lifetime \<times> claim_outcome option \<times> bool" where
  "pump_admitted terminal_id session_id c msg only_if_unowned shape cl sh =
     (let st = cl_state cl; reg = th_registry sh;
          held_by_another = (only_if_unowned \<and>
            (case current_owner reg of None \<Rightarrow> False | Some owner \<Rightarrow> Some owner \<noteq> ts_client_id st));
          (st', reg', effs) =
            (if held_by_another
             then (st, reg, [SendProtocolError NotOwner (Text CONTROL_HELD_BY_ANOTHER_CLIENT) None])
             else on_client_frame msg st (pl_transcript (th_plane sh)) reg
                    (pump_context terminal_id session_id (th_plane sh)));
          outcome =
            (if \<not> only_if_unowned then None
             else if ts_client_id st' \<noteq> None \<and> current_owner reg' = ts_client_id st' then Some Granted
             else Some (Refused (case first_error effs of
                    None \<Rightarrow> Text CONTROL_HELD_BY_ANOTHER_CLIENT | Some m \<Rightarrow> m)));
          (sh1, cl1, closed) =
            pump_effects c (ConnectionAuthority (input_permission_of st') (cl_scope cl)) shape effs
              (sh\<lparr>th_registry := reg'\<rparr>, cl\<lparr>cl_state := st'\<rparr>)
      in (sh1, cl1, outcome, closed))"

definition refuse_frame ::
  "string \<Rightarrow> bool \<Rightarrow> client_lifetime \<Rightarrow> 'p terminal_shared \<Rightarrow>
     'p terminal_shared \<times> client_lifetime \<times> claim_outcome option \<times> bool" where
  "refuse_frame message is_claim cl sh =
     (sh, send_direct (ProtocolError NotOwner (Text message) None) cl,
      if is_claim then Some (Refused (Text message)) else None, False)"

definition pump_frame ::
  "string \<Rightarrow> uuid \<Rightarrow> nat \<Rightarrow> scope_answers \<Rightarrow> pump_input \<Rightarrow> client_lifetime \<Rightarrow> 'p terminal_shared \<Rightarrow>
     ('p terminal_shared \<times> client_lifetime \<times> claim_outcome option \<times> bool) poll" where
  "pump_frame terminal_id session_id c ans inp cl sh =
     (case pump_message inp of
        (msg, is_claim, shape) \<Rightarrow>
          if (is_input msg \<or> msg = OwnerClaim) \<and> \<not> interactive (th_barrier sh)
          then Ready (refuse_frame PRE_READY_REFUSAL is_claim cl sh)
          else if msg = OwnerClaim then
            (case grant (th_barrier sh) of
               Pending \<Rightarrow> Pending
             | Ready (b, False) \<Rightarrow> Ready (refuse_frame CONTROL_UNAVAILABLE is_claim cl sh)
             | Ready (b, True) \<Rightarrow>
                 if control_allowed (cl_scope cl) ans
                 then Ready (pump_admitted terminal_id session_id c msg is_claim shape cl (sh\<lparr>th_barrier := drop_grant b\<rparr>))
                 else Ready (refuse_frame CONTROL_UNAVAILABLE is_claim cl (sh\<lparr>th_barrier := drop_grant b\<rparr>)))
          else Ready (pump_admitted terminal_id session_id c msg is_claim shape cl sh))"

section \<open>Delivery to the client\<close>

definition is_pre_ready_refusal :: "daemon_msg \<Rightarrow> bool" where
  "is_pre_ready_refusal msg \<longleftrightarrow>
     (case msg of ProtocolError code message _ \<Rightarrow> code = NotOwner \<and> message = Text PRE_READY_REFUSAL | _ \<Rightarrow> False)"

fun is_exit :: "daemon_msg \<Rightarrow> bool" where
  "is_exit (TerminalExited _ _ _) = True"
| "is_exit _ = False"

text \<open>A message is sent, on exit after the outcomes still queued for the client; a refusal that readiness has
  overtaken is followed by the owner. The last component says whether delivery ends.\<close>

definition deliver_message ::
  "daemon_msg \<Rightarrow> client_lifetime \<Rightarrow> 'p terminal_shared \<Rightarrow> (client_lifetime \<times> daemon_msg list \<times> bool) poll" where
  "deliver_message msg cl sh =
     (if is_exit msg then
        (case wait_for_write_completion (th_barrier sh) of
           Pending \<Rightarrow> Pending
         | Ready _ \<Rightarrow> Ready (cl\<lparr>cl_direct := []\<rparr>, cl_direct cl @ [msg], True))
      else if is_pre_ready_refusal msg \<and> interactive (th_barrier sh)
      then Ready (cl, [msg, OwnerChanged (current_owner (th_registry sh))], False)
      else Ready (cl, [msg], False))"

definition deliver_direct ::
  "client_lifetime \<Rightarrow> 'p terminal_shared \<Rightarrow> (client_lifetime \<times> daemon_msg list \<times> bool) poll" where
  "deliver_direct cl sh =
     (case cl_direct cl of [] \<Rightarrow> Pending | msg # rest \<Rightarrow> deliver_message msg (cl\<lparr>cl_direct := rest\<rparr>) sh)"

text \<open>A client that fell behind the broadcasts is sent a fresh snapshot.\<close>

definition deliver_lagged :: "nat \<Rightarrow> client_lifetime \<Rightarrow> 'p terminal_shared \<Rightarrow> daemon_msg list" where
  "deliver_lagged n cl sh =
     (let p = th_plane sh; sz = current_size p;
          limit = (case cl_scrollback cl of None \<Rightarrow> NoScrollback | Some l \<Rightarrow> l)
      in [SnapshotRequired (''broadcast lagged by '' @ show_nat n @ '' frames''),
          RenderSnapshot (build_snapshot (ps_cols sz) (ps_rows sz) limit p)])"

section \<open>Output of the child\<close>

fun broadcaster_effect :: "effect \<Rightarrow> 'p terminal_shared \<Rightarrow> 'p terminal_shared" where
  "broadcaster_effect (Broadcast msg) sh = send_event msg sh"
| "broadcaster_effect (WriteToPty data input_seq) sh =
     send_control (CtlWrite \<lparr>pw_data = data, pw_input_seq = input_seq, pw_ack = None,
       pw_authority = TrustedKernel, pw_shape = Verbatim\<rparr>) sh"
| "broadcaster_effect _ sh = sh"

definition apply_broadcaster_effects :: "effect list \<Rightarrow> 'p terminal_shared \<Rightarrow> 'p terminal_shared" where
  "apply_broadcaster_effects effs sh = fold broadcaster_effect effs sh"

section \<open>The writer\<close>

text \<open>An admitted write between its start and its outcome: the item, its guard, its parts and the
  sequence number before its first part.\<close>

record write_in_flight =
  wf_write :: pty_write
  wf_guard :: write_guard
  wf_parts :: "string list"
  wf_first :: u64

record writer =
  wr_sequence :: u64
  wr_exited :: bool
  wr_in_flight :: "write_in_flight option"
  wr_closed :: bool

definition checked_add_u64 :: "u64 \<Rightarrow> nat \<Rightarrow> u64 option" where
  "checked_add_u64 a n = (if unat a + n < 2 ^ 64 then Some (a + of_nat n) else None)"

text \<open>Messages the writer sends to a connection's own channel.\<close>

type_synonym acks = "(nat \<times> daemon_msg) list"

definition refuse_write :: "pty_write \<Rightarrow> acks" where
  "refuse_write w =
     (case pw_ack w of None \<Rightarrow> []
      | Some c \<Rightarrow> [(c, ProtocolError NotOwner (Text INPUT_REVOKED_BEFORE_WRITE) None)])"

definition close_writer :: "writer \<Rightarrow> 'p terminal_shared \<Rightarrow> writer \<times> 'p terminal_shared" where
  "close_writer wr sh = (wr\<lparr>wr_closed := True\<rparr>, sh\<lparr>th_control := [], th_control_open := False\<rparr>)"

definition begin_write ::
  "scope_answers \<Rightarrow> pty_write \<Rightarrow> writer \<Rightarrow> 'p terminal_shared \<Rightarrow> (writer \<times> 'p terminal_shared \<times> acks) poll" where
  "begin_write ans w wr sh =
     (case admit_write (pw_authority w) ans (th_registry sh) (th_barrier sh) of
        Pending \<Rightarrow> Pending
      | Ready (b, None) \<Rightarrow> Ready (wr, sh\<lparr>th_barrier := b\<rparr>, refuse_write w)
      | Ready (b, Some g) \<Rightarrow>
          let parts = write_parts (pw_data w) (pw_shape w) in
          (case checked_add_u64 (wr_sequence wr) (length parts) of
             None \<Rightarrow>
               (case close_writer wr (sh\<lparr>th_barrier := guard_drop g b\<rparr>) of (wr1, sh1) \<Rightarrow> Ready (wr1, sh1, []))
           | Some n \<Rightarrow>
               Ready (wr\<lparr>wr_sequence := n, wr_in_flight := Some \<lparr>wf_write = w, wf_guard = guard_started g,
                        wf_parts = parts, wf_first = wr_sequence wr\<rparr>\<rparr>,
                      sh\<lparr>th_barrier := b\<rparr>, [])))"

text \<open>The outcome of the write in flight: every part acknowledged in time, or not.\<close>

definition finish_write ::
  "bool \<Rightarrow> write_in_flight \<Rightarrow> writer \<Rightarrow> 'p terminal_shared \<Rightarrow> writer \<times> 'p terminal_shared \<times> acks" where
  "finish_write acknowledged f wr sh =
     (let wr1 = wr\<lparr>wr_in_flight := None\<rparr>; w = wf_write f in
      if acknowledged
      then (wr1, sh\<lparr>th_barrier := guard_drop (guard_completed (wf_guard f)) (th_barrier sh)\<rparr>,
            case pw_ack w of None \<Rightarrow> []
            | Some c \<Rightarrow> if pw_input_seq w > 0 then [(c, InputAck (pw_input_seq w))] else [])
      else (case close_writer wr1 (sh\<lparr>th_barrier := guard_drop (wf_guard f) (th_barrier sh)\<rparr>) of
              (wr2, sh2) \<Rightarrow> (wr2, sh2, [])))"

text \<open>The writer takes an item. \<open>answered\<close> says whether the supervisor answered a resize or a stop.\<close>

definition writer_take ::
  "scope_answers \<Rightarrow> bool \<Rightarrow> writer \<Rightarrow> 'p terminal_shared \<Rightarrow> (writer \<times> 'p terminal_shared \<times> acks) poll" where
  "writer_take ans answered wr sh =
     (case th_control sh of
        [] \<Rightarrow> Pending
      | item # rest \<Rightarrow>
          let sh1 = sh\<lparr>th_control := rest\<rparr>;
              next = (if answered then (wr, sh1) else close_writer wr sh1) in
          if wr_exited wr \<and> item \<noteq> CtlStop then Ready (wr, sh1, [])
          else
            (case item of
               CtlWrite w \<Rightarrow> begin_write ans w wr sh1
             | CtlResize cols rows \<Rightarrow>
                 if cols = 0 \<or> rows = 0 then Ready (wr, sh1, []) else Ready (fst next, snd next, [])
             | CtlStop \<Rightarrow> Ready (fst next, snd next, [])))"

text \<open>The child's exit is known: no item is accepted any more, those accepted are drained.\<close>

definition writer_exited :: "writer \<Rightarrow> 'p terminal_shared \<Rightarrow> writer \<times> 'p terminal_shared" where
  "writer_exited wr sh = (wr\<lparr>wr_exited := True\<rparr>, sh\<lparr>th_control_open := False\<rparr>)"

end
