(* ===== verification/Terminal_Connections.thy ===== *)
theory Terminal_Connections
  imports Terminal_Session
begin

text \<open>
  Several connections to one terminal: connecting, frames in any order and disconnecting, as a step
  relation over the registry and the connections' states. Its invariant is that a lease is held by at
  most one connection, that the owner the registry names is connected, and that a connection has
  the role of owner exactly while it holds a lease.
\<close>

record connections =
  sy_registry :: owner_registry
  sy_conns :: "nat \<rightharpoonup> terminal_session_state"

inductive conn_step :: "connections \<Rightarrow> nat \<Rightarrow> effect list \<Rightarrow> connections \<Rightarrow> bool" where
  connect: "sy_conns s c = None \<Longrightarrow> conn_step s c [] (s\<lparr>sy_conns := (sy_conns s)(c \<mapsto> session_new)\<rparr>)"
| frame: "sy_conns s c = Some st \<Longrightarrow> on_client_frame msg st buffer (sy_registry s) ctx = (st', reg', es) \<Longrightarrow>
     conn_step s c es \<lparr>sy_registry = reg', sy_conns = (sy_conns s)(c \<mapsto> st')\<rparr>"
| disconnect: "sy_conns s c = Some st \<Longrightarrow> release_owner st (sy_registry s) = (st', reg', released) \<Longrightarrow>
     conn_step s c [] \<lparr>sy_registry = reg', sy_conns = (sy_conns s)(c := None)\<rparr>"

inductive_cases conn_stepE: "conn_step s c es s'"

definition conn_run :: "connections \<Rightarrow> connections \<Rightarrow> bool" where
  "conn_run = (\<lambda>s s'. \<exists>c es. conn_step s c es s')\<^sup>*\<^sup>*"

definition no_connections :: connections where
  "no_connections = \<lparr>sy_registry = registry_new, sy_conns = Map.empty\<rparr>"

section \<open>What a frame does to leases\<close>

definition lease_change ::
  "terminal_session_state \<Rightarrow> owner_registry \<Rightarrow> terminal_session_state \<Rightarrow> owner_registry \<Rightarrow> bool" where
  "lease_change st reg st' reg' \<longleftrightarrow>
     reg' = reg \<and> (ts_owner_lease st' = ts_owner_lease st \<or>
        ts_owner_lease st' = None \<and> ts_owner_lease st \<noteq> or_owner reg) \<or>
     reg' = reg\<lparr>or_owner := None\<rparr> \<and> ts_owner_lease st = or_owner reg \<and> ts_owner_lease st' = None \<or>
     (\<exists>l. ts_owner_lease st' = Some l \<and> or_owner reg' = Some l \<and> or_generation reg' = ol_generation l \<and>
        unat (ol_generation l) = Suc (unat (or_generation reg)))"

definition role_matches :: "terminal_session_state \<Rightarrow> bool" where
  "role_matches st \<longleftrightarrow> (ts_role st = Some Owner \<longleftrightarrow> ts_owner_lease st \<noteq> None) \<and>
     (ts_owner_lease st \<noteq> None \<longrightarrow> ts_attached st)"

lemma lease_change_same: "ts_owner_lease st' = ts_owner_lease st \<Longrightarrow> lease_change st reg st' reg"
  by (simp add: lease_change_def)

lemma refresh_lease_change: "lease_change st reg (refresh_lease reg st) reg"
  by (auto simp: lease_change_def refresh_lease_def)

lemma refresh_role: "role_matches st \<Longrightarrow> role_matches (refresh_lease reg st)"
  by (auto simp: role_matches_def refresh_lease_def)

lemma refresh_current: "ts_owner_lease (refresh_lease reg st) \<noteq> None \<Longrightarrow>
    ts_owner_lease st = or_owner reg \<and> ts_owner_lease (refresh_lease reg st) = or_owner reg"
  by (auto simp: refresh_lease_def split: if_splits)

lemma lease_change_refreshed:
  assumes "lease_change (refresh_lease reg st) reg st' reg'"
  shows "lease_change st reg st' reg'"
  using assms by (auto simp: lease_change_def refresh_lease_def split: if_splits)

lemma release_owner_change:
  assumes "release_owner st reg = (st', reg', released)" "role_matches st"
  shows "lease_change st reg st' reg' \<and> role_matches st' \<and> ts_owner_lease st' = None"
  using assms
  by (auto simp: release_owner_def release_def lease_change_def role_matches_def Let_def
      split: option.splits if_splits)

lemma claim_change:
  assumes "on_owner_claim st reg = (st', reg', es)" "role_matches st" "ts_attached st"
  shows "lease_change st reg st' reg' \<and> role_matches st'"
proof (cases "ts_client_id st")
  case (Some cid)
  obtain reg1 res where c: "claim cid reg = (reg1, res)" by fastforce
  then show ?thesis
    by (cases rule: claim_cases)
      (use assms Some c in \<open>auto simp: on_owner_claim_def lease_change_def role_matches_def\<close>)
qed (use assms in \<open>auto simp: on_owner_claim_def lease_change_same\<close>)

lemma attach_change:
  assumes "attach h st buffer reg ctx = (st', reg', es)" "ts_owner_lease st = None"
  shows "lease_change st reg st' reg' \<and> role_matches st'"
proof -
  obtain reg1 r where a: "on_attach (ch_client_id h) (ch_role_hint h) reg = (reg1, r)" by fastforce
  then show ?thesis
    by (cases rule: on_attach_cases)
      (use assms a in \<open>auto simp: attach_def lease_change_def role_matches_def Let_def\<close>)
qed

lemma hello_change:
  assumes "process_hello msg st buffer reg ctx = (st', reg', es)" "role_matches st" "\<not> ts_attached st"
  shows "lease_change st reg st' reg' \<and> role_matches st'"
proof -
  have "ts_owner_lease st = None" using assms by (auto simp: role_matches_def)
  then show ?thesis
    using assms attach_change
    by (auto simp: process_hello_def lease_change_same split: client_msg.splits if_splits)
qed

lemma attached_change:
  assumes "on_attached_frame msg st reg ctx = (st', reg', es)" "role_matches st" "ts_attached st"
  shows "lease_change st reg st' reg' \<and> role_matches st'"
proof (cases msg)
  case OwnerClaim
  then show ?thesis using assms claim_change by (simp add: on_attached_frame_def)
next
  case OwnerRelease
  then show ?thesis
    using assms release_owner_change by (fastforce simp: on_attached_frame_def split: prod.splits)
next
  case (ResizeCommit e c r)
  then show ?thesis
    using assms by (auto simp: on_attached_frame_def lease_change_def role_matches_def split: if_splits)
next
  case (RenderAck r q)
  then show ?thesis using assms by (auto simp: on_attached_frame_def lease_change_def role_matches_def)
qed (use assms in \<open>auto simp: on_attached_frame_def lease_change_same split: if_splits\<close>)

lemma frame_change:
  assumes "on_client_frame msg st buffer reg ctx = (st', reg', es)" "role_matches st"
  shows "lease_change st reg st' reg' \<and> role_matches st'"
proof (cases "ts_attached st")
  case True
  then have "ts_attached (refresh_lease reg st)" by (simp add: refresh_lease_def)
  then show ?thesis
    using assms True attached_change lease_change_refreshed refresh_role by (auto simp: on_client_frame_def)
next
  case False
  then show ?thesis using assms hello_change by (auto simp: on_client_frame_def)
qed

section \<open>Effects on the terminal\<close>

fun needs_lease :: "effect \<Rightarrow> bool" where
  "needs_lease (ResizePty _ _) = True"
| "needs_lease KillChild = True"
| "needs_lease _ = False"

fun needs_input_right :: "effect \<Rightarrow> bool" where
  "needs_input_right (WriteToPty _ _) = True"
| "needs_input_right (TerminalThemeUpdate _ _) = True"
| "needs_input_right _ = False"

lemma claim_effects: "e \<in> set (snd (snd (on_owner_claim st reg))) \<Longrightarrow> \<not> needs_lease e \<and> \<not> needs_input_right e"
  by (auto simp: on_owner_claim_def split: option.splits prod.splits)

lemma hello_effects: "e \<in> set (snd (snd (process_hello msg st buffer reg ctx))) \<Longrightarrow> \<not> needs_lease e \<and> \<not> needs_input_right e"
  by (auto simp: process_hello_def attach_def reject_def Let_def split: client_msg.splits prod.splits if_splits)

lemma attached_effects:
  assumes "e \<in> set (snd (snd (on_attached_frame msg st reg ctx)))"
  shows "(needs_lease e \<longrightarrow> ts_role st = Some Owner) \<and>
    (needs_input_right e \<longrightarrow> ts_role st = Some Owner \<or> kernel_input st)"
  using assms claim_effects [of e st reg]
  by (cases msg) (auto simp: on_attached_frame_def not_owner_error_def reject_def release_owner_def Let_def
      split: if_splits prod.splits)

lemma frame_effects:
  assumes "on_client_frame msg st buffer reg ctx = (st', reg', es)" "role_matches st" "e \<in> set es"
  shows "(needs_lease e \<longrightarrow> ts_owner_lease st \<noteq> None \<and> ts_owner_lease st = or_owner reg) \<and>
    (needs_input_right e \<longrightarrow> ts_owner_lease st \<noteq> None \<and> ts_owner_lease st = or_owner reg \<or> kernel_input st)"
proof (cases "ts_attached st")
  case True
  have "e \<in> set (snd (snd (on_attached_frame msg (refresh_lease reg st) reg ctx)))"
    using assms True by (simp add: on_client_frame_def)
  note e = attached_effects [OF this]
  have "kernel_input (refresh_lease reg st) = kernel_input st" by (simp add: refresh_lease_def kernel_input_def)
  moreover have "ts_owner_lease st \<noteq> None \<and> ts_owner_lease st = or_owner reg"
    if "ts_role (refresh_lease reg st) = Some Owner"
    using that refresh_role [OF assms(2), of reg] refresh_current [of reg st] unfolding role_matches_def by metis
  ultimately show ?thesis using e by blast
next
  case False
  then show ?thesis using assms hello_effects [of e msg st buffer reg ctx] by (auto simp: on_client_frame_def)
qed

section \<open>The invariant\<close>

definition holds_lease :: "connections \<Rightarrow> nat \<Rightarrow> owner_lease \<Rightarrow> bool" where
  "holds_lease s c l \<longleftrightarrow> (\<exists>st. sy_conns s c = Some st \<and> ts_owner_lease st = Some l)"

definition connections_inv :: "connections \<Rightarrow> bool" where
  "connections_inv s \<longleftrightarrow>
     (\<forall>c st. sy_conns s c = Some st \<longrightarrow> role_matches st) \<and>
     (\<forall>c l. holds_lease s c l \<longrightarrow> issued_by l (sy_registry s)) \<and>
     (\<forall>c d l. holds_lease s c l \<longrightarrow> holds_lease s d l \<longrightarrow> c = d) \<and>
     (\<forall>l. or_owner (sy_registry s) = Some l \<longrightarrow> (\<exists>c. holds_lease s c l))"

lemma no_connections_inv: "connections_inv no_connections"
  by (simp add: connections_inv_def holds_lease_def no_connections_def registry_new_def)

text \<open>A connection's state and the registry change together, the other connections stay.\<close>

lemma inv_change:
  assumes inv: "connections_inv s" and c: "sy_conns s c = Some st"
    and ch: "lease_change st (sy_registry s) st' reg'" "role_matches st'"
  shows "connections_inv \<lparr>sy_registry = reg', sy_conns = (sy_conns s)(c \<mapsto> st')\<rparr>"
proof -
  define s' where "s' = \<lparr>sy_registry = reg', sy_conns = (sy_conns s)(c \<mapsto> st')\<rparr>"
  have reg: "sy_registry s' = reg'" by (simp add: s'_def)
  have held: "holds_lease s c l \<longleftrightarrow> ts_owner_lease st = Some l"
    "holds_lease s' d l \<longleftrightarrow> (if d = c then ts_owner_lease st' = Some l else holds_lease s d l)" for d l
    using c by (auto simp: holds_lease_def s'_def)
  have fresh: "\<not> holds_lease s d l" if "unat (ol_generation l) = Suc (unat (or_generation (sy_registry s)))" for d l
    using inv that by (fastforce simp: connections_inv_def issued_by_def)
  have rm: "\<forall>d x. sy_conns s' d = Some x \<longrightarrow> role_matches x" using inv ch(2) by (auto simp: connections_inv_def s'_def)
  from inv have old: "holds_lease s d l \<Longrightarrow> issued_by l (sy_registry s)" "holds_lease s d l \<Longrightarrow> holds_lease s e l \<Longrightarrow> d = e"
    "or_owner (sy_registry s) = Some l \<Longrightarrow> \<exists>d. holds_lease s d l" for d e l
    unfolding connections_inv_def by blast+
  consider (kept) "reg' = sy_registry s" "ts_owner_lease st' = ts_owner_lease st"
    | (stale) "reg' = sy_registry s" "ts_owner_lease st' = None" "ts_owner_lease st \<noteq> or_owner (sy_registry s)"
    | (released) "reg' = (sy_registry s)\<lparr>or_owner := None\<rparr>" "ts_owner_lease st' = None"
    | (claimed) l where "ts_owner_lease st' = Some l" "or_owner reg' = Some l" "or_generation reg' = ol_generation l"
        "unat (ol_generation l) = Suc (unat (or_generation (sy_registry s)))"
    using ch(1) unfolding lease_change_def by (elim disjE conjE exE) (rule that, assumption+)+
  then have "(\<forall>d l. holds_lease s' d l \<longrightarrow> issued_by l (sy_registry s')) \<and>
     (\<forall>d e l. holds_lease s' d l \<longrightarrow> holds_lease s' e l \<longrightarrow> d = e) \<and>
     (\<forall>l. or_owner (sy_registry s') = Some l \<longrightarrow> (\<exists>d. holds_lease s' d l))"
  proof cases
    case kept
    then have "holds_lease s' d l \<longleftrightarrow> holds_lease s d l" for d l using held by auto
    then show ?thesis using old kept reg by auto
  next
    case stale
    have "\<exists>d. holds_lease s' d l" if "or_owner (sy_registry s) = Some l" for l
      using old(3) [OF that] stale held that by (metis option.distinct(1))
    then show ?thesis using old stale by (auto simp: held(2) reg)
  next
    case released
    then show ?thesis using old by (auto simp: held(2) issued_by_def reg)
  next
    case (claimed l)
    have "issued_by k reg'" if "issued_by k (sy_registry s)" for k using that claimed by (simp add: issued_by_def)
    moreover have "issued_by l reg'" using claimed by (simp add: issued_by_def)
    ultimately show ?thesis using old claimed fresh [OF claimed(4)] by (auto simp: held(2) reg)
  qed
  then show ?thesis using rm unfolding connections_inv_def s'_def by blast
qed

lemma conn_step_inv: "conn_step s c es s' \<Longrightarrow> connections_inv s \<Longrightarrow> connections_inv s'"
proof (induction rule: conn_step.induct)
  case (connect s c)
  let ?s = "s\<lparr>sy_conns := (sy_conns s)(c \<mapsto> session_new)\<rparr>"
  have "holds_lease ?s d l \<longleftrightarrow> holds_lease s d l" for d l
    using connect by (auto simp: holds_lease_def session_new_def)
  moreover have "role_matches session_new" by (simp add: role_matches_def session_new_def)
  ultimately show ?case using connect.prems by (simp add: connections_inv_def)
next
  case (frame s c st msg buffer ctx st' reg' es)
  then have "role_matches st" by (auto simp: connections_inv_def)
  then show ?case using inv_change [OF frame.prems frame.hyps(1)] frame_change [OF frame.hyps(2)] by blast
next
  case (disconnect s c st st' reg' released)
  then have "role_matches st" by (auto simp: connections_inv_def)
  then have ch: "lease_change st (sy_registry s) st' reg'" "role_matches st'" "ts_owner_lease st' = None"
    using release_owner_change [OF disconnect.hyps(2)] by auto
  have "connections_inv \<lparr>sy_registry = reg', sy_conns = (sy_conns s)(c \<mapsto> st')\<rparr>"
    using inv_change [OF disconnect.prems disconnect.hyps(1)] ch by blast
  moreover have "holds_lease \<lparr>sy_registry = reg', sy_conns = (sy_conns s)(c \<mapsto> st')\<rparr> d l \<longleftrightarrow>
      holds_lease \<lparr>sy_registry = reg', sy_conns = (sy_conns s)(c := None)\<rparr> d l" for d l
    using ch(3) by (auto simp: holds_lease_def)
  ultimately show ?case by (auto simp: connections_inv_def split: if_splits)
qed

lemma conn_run_inv: "conn_run s s' \<Longrightarrow> connections_inv s \<Longrightarrow> connections_inv s'"
  unfolding conn_run_def by (induction rule: rtranclp_induct) (auto intro: conn_step_inv)

section \<open>The registry over a run\<close>

lemma lease_change_registry: "lease_change st reg st' reg' \<Longrightarrow> registry_step reg reg'"
  by (auto simp: lease_change_def registry_step_def)

lemma conn_step_registry:
  "conn_step s c es s' \<Longrightarrow> connections_inv s \<Longrightarrow> registry_step (sy_registry s) (sy_registry s')"
proof (induction rule: conn_step.induct)
  case (connect s c)
  then show ?case by (simp add: registry_step_def)
next
  case (frame s c st msg buffer ctx st' reg' es)
  then have "role_matches st" by (auto simp: connections_inv_def)
  then show ?case using frame_change [OF frame.hyps(2)] lease_change_registry by auto
next
  case (disconnect s c st st' reg' released)
  then have "role_matches st" by (auto simp: connections_inv_def)
  then show ?case using release_owner_change [OF disconnect.hyps(2)] lease_change_registry by auto
qed

lemma conn_run_registry:
  "conn_run s s' \<Longrightarrow> connections_inv s \<Longrightarrow> registry_step\<^sup>*\<^sup>* (sy_registry s) (sy_registry s')"
  unfolding conn_run_def
proof (induction rule: rtranclp_induct)
  case (step y z)
  then have "connections_inv y" using conn_run_inv by (simp add: conn_run_def)
  then show ?case using step conn_step_registry by (meson rtranclp.rtrancl_into_rtrancl)
qed simp

end
