(* ===== verification/Terminal_Traffic.thy ===== *)
theory Terminal_Traffic
  imports Terminal_Pump Terminal_Connections
begin

text \<open>
  A terminal with its connections, its writer and its child as a step relation. A step is one operation of
  Terminal\_Pump taken whole, effects included; a step whose operation is \<open>Pending\<close> does not happen. It refines the machine of
  connections of Terminal\_Connections, and the barrier keeps the registry from naming a new owner
  while a connection's write is in flight.
\<close>

record 'p terminal_system =
  sy_shared :: "'p terminal_shared"
  sy_clients :: "nat \<rightharpoonup> client_lifetime"
  sy_next :: nat
  sy_writer :: writer

definition route :: "acks \<Rightarrow> (nat \<rightharpoonup> client_lifetime) \<Rightarrow> (nat \<rightharpoonup> client_lifetime)" where
  "route acks = fold (\<lambda>(c, msg) m. case m c of None \<Rightarrow> m | Some cl \<Rightarrow> m(c \<mapsto> send_direct msg cl)) acks"

inductive term_step :: "'p vte \<Rightarrow> string \<Rightarrow> uuid \<Rightarrow> 'p terminal_system \<Rightarrow> 'p terminal_system \<Rightarrow> bool"
  for v terminal_id session_id where
  hello: "first_frame terminal_id session_id scope ans msg (sy_shared s) = Ready (sh, Some cl, out) \<Longrightarrow>
     term_step v terminal_id session_id s
       (s\<lparr>sy_shared := sh, sy_clients := (sy_clients s)(sy_next s \<mapsto> cl), sy_next := Suc (sy_next s)\<rparr>)"
| refused_hello: "first_frame terminal_id session_id scope ans msg (sy_shared s) = Ready (sh, None, out) \<Longrightarrow>
     term_step v terminal_id session_id s (s\<lparr>sy_shared := sh\<rparr>)"
| frame: "sy_clients s c = Some cl \<Longrightarrow>
     pump_frame terminal_id session_id c ans inp cl (sy_shared s) = Ready (sh, cl', outcome, closed) \<Longrightarrow>
     term_step v terminal_id session_id s
       (if closed then s\<lparr>sy_shared := client_drop cl' sh, sy_clients := (sy_clients s)(c := None)\<rparr>
        else s\<lparr>sy_shared := sh, sy_clients := (sy_clients s)(c \<mapsto> cl')\<rparr>)"
| gone: "sy_clients s c = Some cl \<Longrightarrow>
     term_step v terminal_id session_id s
       (s\<lparr>sy_shared := client_drop cl (sy_shared s), sy_clients := (sy_clients s)(c := None)\<rparr>)"
| delivery: "sy_clients s c = Some cl \<Longrightarrow> deliver_direct cl (sy_shared s) = Ready (cl', out, ended) \<Longrightarrow>
     term_step v terminal_id session_id s (s\<lparr>sy_clients := (sy_clients s)(c \<mapsto> cl')\<rparr>)"
| event: "sy_clients s c = Some cl \<Longrightarrow> msg \<in> set (th_events (sy_shared s)) \<Longrightarrow>
     deliver_message msg cl (sy_shared s) = Ready (cl', out, ended) \<Longrightarrow>
     term_step v terminal_id session_id s (s\<lparr>sy_clients := (sy_clients s)(c \<mapsto> cl')\<rparr>)"
| child_output: "plane_chunk v now bytes (th_plane (sy_shared s)) = (p, effs) \<Longrightarrow>
     term_step v terminal_id session_id s
       (s\<lparr>sy_shared := apply_broadcaster_effects effs ((sy_shared s)\<lparr>th_plane := p\<rparr>)\<rparr>)"
| child_exit: "plane_exit code (th_plane (sy_shared s)) = effs \<Longrightarrow>
     term_step v terminal_id session_id s
       (s\<lparr>sy_shared := apply_broadcaster_effects effs
          ((sy_shared s)\<lparr>th_exit := Some (code, pl_pty_seq (th_plane (sy_shared s)), tm_rev (pl_model (th_plane (sy_shared s))))\<rparr>)\<rparr>)"
| spawn: "term_step v terminal_id session_id s
       (s\<lparr>sy_shared := (sy_shared s)\<lparr>th_barrier := spawned (th_barrier (sy_shared s))\<rparr>\<rparr>)"
| writer_takes: "wr_in_flight (sy_writer s) = None \<Longrightarrow> \<not> wr_closed (sy_writer s) \<Longrightarrow>
     writer_take ans answered (sy_writer s) (sy_shared s) = Ready (wr, sh, acks) \<Longrightarrow>
     term_step v terminal_id session_id s (s\<lparr>sy_shared := sh, sy_writer := wr, sy_clients := route acks (sy_clients s)\<rparr>)"
| writer_finishes: "wr_in_flight (sy_writer s) = Some f \<Longrightarrow>
     finish_write acknowledged f (sy_writer s) (sy_shared s) = (wr, sh, acks) \<Longrightarrow>
     term_step v terminal_id session_id s (s\<lparr>sy_shared := sh, sy_writer := wr, sy_clients := route acks (sy_clients s)\<rparr>)"
| writer_exit: "wr_in_flight (sy_writer s) = None \<Longrightarrow> \<not> wr_exited (sy_writer s) \<Longrightarrow>
     writer_exited (sy_writer s) (sy_shared s) = (wr, sh) \<Longrightarrow>
     term_step v terminal_id session_id s (s\<lparr>sy_shared := sh, sy_writer := wr\<rparr>)"

definition term_run :: "'p vte \<Rightarrow> string \<Rightarrow> uuid \<Rightarrow> 'p terminal_system \<Rightarrow> 'p terminal_system \<Rightarrow> bool" where
  "term_run v terminal_id session_id = (term_step v terminal_id session_id)\<^sup>*\<^sup>*"

definition term_start :: "'p render_plane \<Rightarrow> 'p terminal_system" where
  "term_start p =
     \<lparr>sy_shared = \<lparr>th_plane = p, th_registry = registry_new, th_barrier = barrier_awaiting_spawn, th_exit = None,
        th_events = [], th_control = [], th_control_open = True\<rparr>,
      sy_clients = Map.empty, sy_next = 0,
      sy_writer = \<lparr>wr_sequence = 0, wr_exited = False, wr_in_flight = None, wr_closed = False\<rparr>\<rparr>"

text \<open>The shared parts the barrier protects.\<close>

abbreviation "reg_of s \<equiv> th_registry (sy_shared s)"
abbreviation "owner_of s \<equiv> or_owner (th_registry (sy_shared s))"
abbreviation "barrier_of s \<equiv> th_barrier (sy_shared s)"
abbreviation "flight_of s \<equiv> wr_in_flight (sy_writer s)"

section \<open>What the operations leave alone\<close>

lemma send_fields [simp]:
  "th_registry (send_event m sh) = th_registry sh" "th_barrier (send_event m sh) = th_barrier sh"
  "th_registry (send_control i sh) = th_registry sh" "th_barrier (send_control i sh) = th_barrier sh"
  "th_registry (request_resize c r sh) = th_registry sh" "th_barrier (request_resize c r sh) = th_barrier sh"
  "cl_state (send_direct m cl) = cl_state cl" "cl_scope (send_direct m cl) = cl_scope cl"
  by (simp_all add: send_event_def send_control_def request_resize_def send_direct_def)

lemma first_effects_leave:
  "fold (first_effect limit) effs (sh, out, failed) = (sh', out', failed') \<Longrightarrow>
     th_registry sh' = th_registry sh \<and> th_barrier sh' = th_barrier sh \<and> (failed \<longrightarrow> failed')"
proof (induction effs arbitrary: sh out failed)
  case (Cons e effs)
  obtain sh1 out1 failed1 where e: "first_effect limit e (sh, out, failed) = (sh1, out1, failed1)" by (metis prod_cases3)
  then have "th_registry sh1 = th_registry sh \<and> th_barrier sh1 = th_barrier sh \<and> (failed \<longrightarrow> failed1)"
    by (auto simp: Let_def split: effect.splits)
  then show ?case using Cons.IH [of sh1 out1 failed1] Cons.prems e by simp
qed simp

lemma fold_events_leave:
  "th_registry (fold (\<lambda>e s. case e of Broadcast m \<Rightarrow> send_event m s | _ \<Rightarrow> s) effs sh) = th_registry sh \<and>
   th_barrier (fold (\<lambda>e s. case e of Broadcast m \<Rightarrow> send_event m s | _ \<Rightarrow> s) effs sh) = th_barrier sh"
  by (induction effs arbitrary: sh) (simp_all split: effect.split)

lemma pump_effect_leave:
  "pump_effect c a shape e (sh, cl) = (sh', cl', closed) \<Longrightarrow>
     th_registry sh' = th_registry sh \<and> th_barrier sh' = th_barrier sh \<and> cl_state cl' = cl_state cl"
  by (auto simp: Let_def fold_events_leave split: effect.splits prod.splits if_splits)

lemma pump_effects_leave:
  "pump_effects c a shape effs (sh, cl) = (sh', cl', closed) \<Longrightarrow>
     th_registry sh' = th_registry sh \<and> th_barrier sh' = th_barrier sh \<and> cl_state cl' = cl_state cl"
proof (induction effs arbitrary: sh cl)
  case (Cons e effs)
  obtain sh1 cl1 closed1 where e: "pump_effect c a shape e (sh, cl) = (sh1, cl1, closed1)" by (metis prod_cases3)
  from pump_effect_leave [OF this] show ?case using Cons e by (cases closed1) auto
qed simp

lemma broadcaster_effects_leave [simp]:
  "th_registry (apply_broadcaster_effects effs sh) = th_registry sh \<and>
   th_barrier (apply_broadcaster_effects effs sh) = th_barrier sh"
proof -
  have "th_registry (broadcaster_effect e sh) = th_registry sh \<and> th_barrier (broadcaster_effect e sh) = th_barrier sh"
    for e and sh :: "'a terminal_shared" by (cases e) simp_all
  then show ?thesis unfolding apply_broadcaster_effects_def by (induction effs arbitrary: sh) simp_all
qed

lemma route_state: "map_option cl_state (route acks m c) = map_option cl_state (m c)"
proof -
  have "map_option cl_state (fold (\<lambda>(c, msg) m. case m c of None \<Rightarrow> m | Some cl \<Rightarrow> m(c \<mapsto> send_direct msg cl)) acks m c) =
      map_option cl_state (m c)"
    by (induction acks arbitrary: m) (auto split: option.split)
  then show ?thesis by (simp add: route_def)
qed

lemma route_client: "route acks m c = Some cl \<Longrightarrow> \<exists>k. m c = Some k \<and> cl_state k = cl_state cl"
  using route_state [of acks m c] by (cases "m c") auto

lemma deliver_state: "deliver_message msg cl sh = Ready (cl', out, ended) \<Longrightarrow> cl_state cl' = cl_state cl"
  by (auto simp: deliver_message_def split: if_splits poll.splits)

lemma deliver_direct_state: "deliver_direct cl sh = Ready (cl', out, ended) \<Longrightarrow> cl_state cl' = cl_state cl"
  by (auto simp: deliver_direct_def split: list.splits dest: deliver_state)

section \<open>Refinement of the machine of connections\<close>

definition conns_of :: "'p terminal_system \<Rightarrow> connections" where
  "conns_of s = \<lparr>sy_registry = reg_of s, sy_conns = (\<lambda>c. map_option cl_state (sy_clients s c))\<rparr>"

definition clients_ok :: "'p terminal_system \<Rightarrow> bool" where
  "clients_ok s \<longleftrightarrow> (\<forall>c cl. sy_clients s c = Some cl \<longrightarrow> c < sy_next s \<and> ts_attached (cl_state cl))"

text \<open>A first frame either leaves the registry alone, or is the frame of a new connection, whose state is
  kept exactly when it attached; either way the barrier is as before.\<close>

lemma first_frame_cases [consumes 1, case_names nothing attached failed]:
  assumes "first_frame tid sid scope ans msg sh = Ready (sh', res, out)"
  obtains (nothing) "res = None" "th_registry sh' = th_registry sh" "th_barrier sh' = th_barrier sh"
  | (attached) cl ctx effs where "res = Some cl" "\<not> ib_serial (th_barrier sh)" "\<not> ib_uncertain (th_barrier sh)"
      "on_client_frame msg session_new (pl_transcript (th_plane sh)) (th_registry sh) ctx = (cl_state cl, th_registry sh', effs)"
      "ts_attached (cl_state cl)" "th_barrier sh' = th_barrier sh"
  | (failed) st reg ctx effs where "res = None" "\<not> ib_serial (th_barrier sh)" "\<not> ib_uncertain (th_barrier sh)"
      "on_client_frame msg session_new (pl_transcript (th_plane sh)) (th_registry sh) ctx = (st, reg, effs)"
      "th_registry sh' = fst (snd (release_owner st reg))" "th_barrier sh' = th_barrier sh"
proof -
  obtain b ok where g: "grant (th_barrier sh) = Ready (b, ok)"
    using assms by (cases "grant (th_barrier sh)") (auto simp: first_frame_def)
  then show ?thesis
  proof (cases rule: grant_cases)
    case refused
    then show ?thesis using assms g that(1) by (auto simp: first_frame_def)
  next
    case granted
    have d: "drop_grant b = th_barrier sh" using granted by (simp add: drop_grant_granted)
    let ?ctx = "pump_context tid sid (th_plane sh)"
    obtain st reg effs where f: "on_client_frame msg session_new (pl_transcript (th_plane sh)) (th_registry sh) ?ctx = (st, reg, effs)"
      by (metis prod_cases3)
    obtain sh1 out1 bad where e: "fold (first_effect (scrollback_of msg)) effs
        (sh\<lparr>th_registry := reg, th_barrier := drop_grant b\<rparr>, [], False) = (sh1, out1, bad)" by (metis prod_cases3)
    from first_effects_leave [OF e] have l: "th_registry sh1 = reg" "th_barrier sh1 = th_barrier sh" by (simp_all add: d)
    show ?thesis
    proof (cases "scope_allowed scope ans")
      case False
      then show ?thesis using assms g granted that(1) d by (auto simp: first_frame_def)
    next
      case True
      let ?cl = "\<lparr>cl_state = st, cl_scope = scope, cl_scrollback = scrollback_of msg, cl_direct = []\<rparr>"
      have r: "(if bad then Ready (client_drop ?cl sh1, None, out1) else Ready (sh1, Some ?cl, out1)) = Ready (sh', res, out)"
        using assms g granted True f e by (simp add: first_frame_def Let_def)
      show ?thesis
      proof (cases bad)
        case True
        then show ?thesis
          using that(3) [OF _ granted(2,1) f] r l by (auto simp: client_drop_def Let_def split: prod.splits if_splits)
      next
        case False
        have "ts_attached st"
          using f e False by (auto simp: on_client_frame_def session_new_def process_hello_def attach_def reject_def Let_def
            split: client_msg.splits if_splits prod.splits)
        then show ?thesis using that(2) [OF _ granted(2,1), of ?cl] f r l False by auto
      qed
    qed
  qed
qed

text \<open>A frame is refused without effect, or is a frame of the connection; a claim needs the barrier's grant.\<close>

definition frame_done ::
  "client_msg \<Rightarrow> client_lifetime \<Rightarrow> 'p terminal_shared \<Rightarrow> client_lifetime \<Rightarrow> 'p terminal_shared \<Rightarrow> bool" where
  "frame_done msg cl sh cl' sh' \<longleftrightarrow> th_barrier sh' = th_barrier sh \<and>
     (cl_state cl' = cl_state cl \<and> th_registry sh' = th_registry sh \<or>
      (\<exists>ctx effs. on_client_frame msg (cl_state cl) (pl_transcript (th_plane sh)) (th_registry sh) ctx =
         (cl_state cl', th_registry sh', effs)))"

lemma pump_admitted_done:
  assumes "pump_admitted tid sid c msg is_claim shape cl sh = (sh', cl', outcome, closed)"
  shows "frame_done msg cl sh cl' sh'"
proof -
  let ?held = "is_claim \<and> (case current_owner (th_registry sh) of None \<Rightarrow> False
      | Some owner \<Rightarrow> Some owner \<noteq> ts_client_id (cl_state cl))"
  let ?ctx = "pump_context tid sid (th_plane sh)"
  obtain st reg effs where f: "(if ?held
        then (cl_state cl, th_registry sh, [SendProtocolError NotOwner (Text CONTROL_HELD_BY_ANOTHER_CLIENT) None])
        else on_client_frame msg (cl_state cl) (pl_transcript (th_plane sh)) (th_registry sh) ?ctx) = (st, reg, effs)"
    by (metis prod_cases3)
  obtain sh1 cl1 closed1 where e: "pump_effects c (ConnectionAuthority (input_permission_of st) (cl_scope cl)) shape effs
      (sh\<lparr>th_registry := reg\<rparr>, cl\<lparr>cl_state := st\<rparr>) = (sh1, cl1, closed1)" by (metis prod_cases3)
  have "sh' = sh1" "cl' = cl1" using assms f e by (auto simp: pump_admitted_def Let_def)
  then show ?thesis using pump_effects_leave [OF e] f by (auto simp: frame_done_def split: if_splits)
qed

lemma refuse_frame_done: "refuse_frame t is_claim cl sh = (sh', cl', outcome, closed) \<Longrightarrow> frame_done msg cl sh cl' sh'"
  by (auto simp: refuse_frame_def frame_done_def)

lemma pump_frame_done [consumes 1, case_names refused framed claimed]:
  assumes "pump_frame tid sid c ans inp cl sh = Ready (sh', cl', outcome, closed)"
  obtains (refused) "cl_state cl' = cl_state cl" "th_registry sh' = th_registry sh" "th_barrier sh' = th_barrier sh"
  | (framed) msg where "frame_done msg cl sh cl' sh'" "msg \<noteq> OwnerClaim"
  | (claimed) "frame_done OwnerClaim cl sh cl' sh'" "\<not> ib_serial (th_barrier sh)" "\<not> ib_uncertain (th_barrier sh)"
proof -
  obtain msg is_claim shape where m: "pump_message inp = (msg, is_claim, shape)" by (metis prod_cases3)
  show ?thesis
  proof (cases "(is_input msg \<or> msg = OwnerClaim) \<and> \<not> interactive (th_barrier sh)")
    case True
    then show ?thesis using that(1) assms m by (auto simp: pump_frame_def refuse_frame_def)
  next
    case ready: False
    show ?thesis
    proof (cases "msg = OwnerClaim")
      case False
      then have "pump_admitted tid sid c msg is_claim shape cl sh = (sh', cl', outcome, closed)"
        using assms m ready by (auto simp: pump_frame_def split: if_splits)
      then show ?thesis using that(2) False pump_admitted_done by blast
    next
      case True
      obtain b ok where g: "grant (th_barrier sh) = Ready (b, ok)"
        using assms m ready True by (cases "grant (th_barrier sh)") (auto simp: pump_frame_def)
      then show ?thesis
      proof (cases rule: grant_cases)
        case refused
        then show ?thesis using that(1) assms m ready True g by (auto simp: pump_frame_def refuse_frame_def)
      next
        case granted
        then have d: "sh\<lparr>th_barrier := drop_grant b\<rparr> = sh" by (simp add: drop_grant_granted)
        have "frame_done OwnerClaim cl sh cl' sh'"
        proof (cases "control_allowed (cl_scope cl) ans")
          case allowed: True
          then have "pump_admitted tid sid c OwnerClaim is_claim shape cl sh = (sh', cl', outcome, closed)"
            using assms m ready True g granted(3) d by (simp add: pump_frame_def)
          then show ?thesis by (rule pump_admitted_done)
        next
          case denied: False
          then have "refuse_frame CONTROL_UNAVAILABLE is_claim cl sh = (sh', cl', outcome, closed)"
            using assms m ready True g granted(3) d by (simp add: pump_frame_def)
          then show ?thesis by (rule refuse_frame_done)
        qed
        then show ?thesis using that(3) granted(1,2) by blast
      qed
    qed
  qed
qed

text \<open>Only a claim makes an attached connection the owner.\<close>

lemma release_owner_or: "release_owner st reg = (st', reg', released) \<Longrightarrow> or_owner reg' \<in> {or_owner reg, None}"
  by (auto simp: release_owner_def release_def Let_def split: option.splits if_splits)

lemma attached_frame:
  assumes "on_client_frame msg st buffer reg ctx = (st', reg', effs)" "ts_attached st"
  shows "ts_attached st' \<and> (msg = OwnerClaim \<or> or_owner reg' \<in> {or_owner reg, None})"
proof -
  define st1 where "st1 = refresh_lease reg st"
  have f: "on_attached_frame msg st1 reg ctx = (st', reg', effs)" and a: "ts_attached st1"
    using assms by (simp_all add: on_client_frame_def st1_def refresh_lease_def)
  show ?thesis
  proof (cases msg)
    case OwnerClaim
    then show ?thesis using f a by (auto simp: on_attached_frame_def on_owner_claim_def split: option.splits prod.splits)
  next
    case OwnerRelease
    obtain st2 reg2 b where r: "release_owner st1 reg = (st2, reg2, b)" by (metis prod_cases3)
    then have "ts_attached st2" using a by (auto simp: release_owner_def Let_def split: prod.splits)
    then show ?thesis using f OwnerRelease r release_owner_or [OF r] by (auto simp: on_attached_frame_def)
  qed (use f a in \<open>auto simp: on_attached_frame_def split: if_splits\<close>)
qed

lemma client_drop_fields:
  "th_registry (client_drop cl sh) = fst (snd (release_owner (cl_state cl) (th_registry sh)))"
  "th_barrier (client_drop cl sh) = th_barrier sh"
  by (auto simp: client_drop_def Let_def split: prod.split)

section \<open>One step\<close>

text \<open>What a step does to a connection's state and the registry, as steps of the machine of connections.\<close>

lemma conn_run_trans: "conn_run a b \<Longrightarrow> conn_run b c \<Longrightarrow> conn_run a c"
  unfolding conn_run_def by (rule rtranclp_trans)

lemma conn_run_self: "conn_run s s"
  by (simp add: conn_run_def)

lemma conn_run_one: "conn_step s c es s' \<Longrightarrow> conn_run s s'"
  unfolding conn_run_def by (rule r_into_rtranclp) blast

lemma conns_of_eq:
  "reg_of s' = reg_of s \<Longrightarrow> (\<And>c. map_option cl_state (sy_clients s' c) = map_option cl_state (sy_clients s c)) \<Longrightarrow>
     conns_of s' = conns_of s"
  by (simp add: conns_of_def)

lemma run_hello:
  assumes "sy_conns s c = None" "on_client_frame msg session_new buffer (sy_registry s) ctx = (st, reg, effs)"
  shows "conn_run s \<lparr>sy_registry = reg, sy_conns = (sy_conns s)(c \<mapsto> st)\<rparr>"
proof -
  let ?s = "s\<lparr>sy_conns := (sy_conns s)(c \<mapsto> session_new)\<rparr>"
  have "conn_step ?s c effs \<lparr>sy_registry = reg, sy_conns = (sy_conns ?s)(c \<mapsto> st)\<rparr>"
    by (rule conn_step.frame [where st = session_new]) (use assms(2) in simp_all)
  then show ?thesis using conn_run_trans [OF conn_run_one [OF connect [OF assms(1)]] conn_run_one] by simp
qed

lemma run_gone:
  assumes "sy_conns s c = Some st"
  shows "conn_run s \<lparr>sy_registry = fst (snd (release_owner st (sy_registry s))), sy_conns = (sy_conns s)(c := None)\<rparr>"
proof -
  obtain st' reg r where "release_owner st (sy_registry s) = (st', reg, r)" by (metis prod_cases3)
  then show ?thesis using conn_run_one [OF disconnect [OF assms]] by simp
qed

lemma run_frame_done:
  assumes "sy_conns s c = Some (cl_state cl)" "sy_registry s = th_registry sh" "frame_done msg cl sh cl' sh'"
  shows "conn_run s \<lparr>sy_registry = th_registry sh', sy_conns = (sy_conns s)(c \<mapsto> cl_state cl')\<rparr>"
proof (cases "cl_state cl' = cl_state cl \<and> th_registry sh' = th_registry sh")
  case True
  then have "\<lparr>sy_registry = th_registry sh', sy_conns = (sy_conns s)(c \<mapsto> cl_state cl')\<rparr> = s"
    using assms(1,2) by (cases s) (auto simp: fun_upd_idem)
  then show ?thesis by (simp add: conn_run_self)
next
  case False
  then obtain ctx effs where "on_client_frame msg (cl_state cl) (pl_transcript (th_plane sh)) (sy_registry s) ctx =
      (cl_state cl', th_registry sh', effs)" using assms(2,3) by (auto simp: frame_done_def)
  then show ?thesis by (rule conn_run_one [OF conn_step.frame [OF assms(1)]])
qed

text \<open>The writer leaves registry and connections alone.\<close>

lemma begin_write_registry:
  "begin_write ans w wr sh = Ready (wr', sh', acks) \<Longrightarrow> th_registry sh' = th_registry sh"
  by (auto simp: begin_write_def close_writer_def Let_def split: poll.splits prod.splits option.splits)

lemma writer_take_registry:
  "writer_take ans answered wr sh = Ready (wr', sh', acks) \<Longrightarrow> th_registry sh' = th_registry sh"
  by (auto simp: writer_take_def close_writer_def Let_def dest: begin_write_registry
      split: list.splits if_splits supervisor_control.splits)

lemma finish_write_registry: "finish_write ok f wr sh = (wr', sh', acks) \<Longrightarrow> th_registry sh' = th_registry sh"
  by (auto simp: finish_write_def close_writer_def Let_def split: if_splits)

lemma step_clients_ok: "term_step v tid sid s s' \<Longrightarrow> clients_ok s \<Longrightarrow> clients_ok s'"
proof (induction rule: term_step.induct)
  case (hello scope ans msg s sh cl out)
  from hello.hyps have "ts_attached (cl_state cl)" by (cases rule: first_frame_cases) auto
  then show ?case using hello.prems by (auto simp: clients_ok_def less_Suc_eq)
next
  case (frame s c cl ans inp sh cl' outcome closed)
  have a: "ts_attached (cl_state cl)" "c < sy_next s" using frame by (auto simp: clients_ok_def)
  have "ts_attached (cl_state cl')"
    using frame.hyps(2)
  proof (cases rule: pump_frame_done)
    case (framed msg)
    then show ?thesis using a(1) attached_frame by (auto simp: frame_done_def)
  next
    case claimed
    then show ?thesis using a(1) attached_frame by (auto simp: frame_done_def)
  qed (use a in simp)
  then show ?case using frame.prems a(2) by (auto simp: clients_ok_def split: if_splits)
next
  case (delivery s c cl cl' out ended)
  then show ?case using deliver_direct_state [OF delivery.hyps(2)] by (auto simp: clients_ok_def)
next
  case (event s c cl msg cl' out ended)
  then show ?case using deliver_state [OF event.hyps(3)] by (auto simp: clients_ok_def)
next
  case (writer_takes s ans answered wr sh acks)
  then show ?case using route_client by (fastforce simp: clients_ok_def)
next
  case (writer_finishes s f acknowledged wr sh acks)
  then show ?case using route_client by (fastforce simp: clients_ok_def)
qed (auto simp: clients_ok_def)

lemma clients_ok_next: "clients_ok s \<Longrightarrow> sy_conns (conns_of s) (sy_next s) = None"
  by (cases "sy_clients s (sy_next s)") (auto simp: conns_of_def clients_ok_def)

lemma hello_refines:
  assumes "first_frame tid sid scope ans msg (sy_shared s) = Ready (sh, Some cl, out)" "clients_ok s"
    and t: "t = s\<lparr>sy_shared := sh, sy_clients := (sy_clients s)(sy_next s \<mapsto> cl), sy_next := Suc (sy_next s)\<rparr>"
  shows "conn_run (conns_of s) (conns_of t)"
  using assms(1)
proof (cases rule: first_frame_cases)
  case (attached cl' ctx effs)
  have e: "conns_of t = \<lparr>sy_registry = th_registry sh, sy_conns = (sy_conns (conns_of s))(sy_next s \<mapsto> cl_state cl)\<rparr>"
    by (auto simp: conns_of_def t)
  have r: "sy_registry (conns_of s) = th_registry (sy_shared s)" by (simp add: conns_of_def)
  show ?thesis unfolding e using run_hello [OF clients_ok_next [OF assms(2)] attached(4) [folded r]] attached(1) by simp
qed simp_all

lemma refused_hello_refines:
  assumes "first_frame tid sid scope ans msg (sy_shared s) = Ready (sh, None, out)" "clients_ok s"
  shows "conn_run (conns_of s) (conns_of (s\<lparr>sy_shared := sh\<rparr>))"
  using assms(1)
proof (cases rule: first_frame_cases)
  case nothing
  then have "conns_of (s\<lparr>sy_shared := sh\<rparr>) = conns_of s" by (intro conns_of_eq) simp_all
  then show ?thesis by (simp add: conn_run_self)
next
  case (failed st reg ctx effs)
  note new = clients_ok_next [OF assms(2)]
  let ?mid = "\<lparr>sy_registry = reg, sy_conns = (sy_conns (conns_of s))(sy_next s \<mapsto> st)\<rparr>"
  have r: "sy_registry (conns_of s) = th_registry (sy_shared s)" by (simp add: conns_of_def)
  have e: "conns_of (s\<lparr>sy_shared := sh\<rparr>) =
      \<lparr>sy_registry = fst (snd (release_owner st (sy_registry ?mid))), sy_conns = (sy_conns ?mid)(sy_next s := None)\<rparr>"
    using failed(5) new by (auto simp: conns_of_def fun_eq_iff)
  show ?thesis unfolding e
    by (rule conn_run_trans [OF run_hello [OF new failed(4) [folded r]] run_gone]) simp
qed simp

lemma frame_refines:
  assumes "sy_clients s c = Some cl" "pump_frame tid sid c ans inp cl (sy_shared s) = Ready (sh, cl', outcome, closed)"
  shows "conn_run (conns_of s) (conns_of
    (if closed then s\<lparr>sy_shared := client_drop cl' sh, sy_clients := (sy_clients s)(c := None)\<rparr>
     else s\<lparr>sy_shared := sh, sy_clients := (sy_clients s)(c \<mapsto> cl')\<rparr>))"
proof -
  let ?s = "conns_of s" and ?mid = "\<lparr>sy_registry = th_registry sh, sy_conns = (sy_conns (conns_of s))(c \<mapsto> cl_state cl')\<rparr>"
  have c: "sy_conns ?s c = Some (cl_state cl)" "sy_registry ?s = th_registry (sy_shared s)"
    using assms(1) by (simp_all add: conns_of_def)
  have "\<exists>msg. frame_done msg cl (sy_shared s) cl' sh"
    using assms(2) by (cases rule: pump_frame_done) (auto simp: frame_done_def)
  then have run: "conn_run ?s ?mid" using run_frame_done [OF c] by blast
  have "conns_of (s\<lparr>sy_shared := sh, sy_clients := (sy_clients s)(c \<mapsto> cl')\<rparr>) = ?mid" by (auto simp: conns_of_def)
  moreover have "conns_of (s\<lparr>sy_shared := client_drop cl' sh, sy_clients := (sy_clients s)(c := None)\<rparr>) =
      \<lparr>sy_registry = fst (snd (release_owner (cl_state cl') (sy_registry ?mid))), sy_conns = (sy_conns ?mid)(c := None)\<rparr>"
    by (auto simp: conns_of_def client_drop_fields)
  ultimately show ?thesis using run conn_run_trans [OF run run_gone [of ?mid c "cl_state cl'"]] by simp
qed

lemma step_refines: "term_step v tid sid s s' \<Longrightarrow> clients_ok s \<Longrightarrow> conn_run (conns_of s) (conns_of s')"
proof (induction rule: term_step.induct)
  case (hello scope ans msg s sh cl out)
  then show ?case using hello_refines by blast
next
  case (refused_hello scope ans msg s sh out)
  then show ?case using refused_hello_refines by blast
next
  case (frame s c cl ans inp sh cl' outcome closed)
  then show ?case using frame_refines by blast
next
  case (gone s c cl)
  have e: "conns_of (s\<lparr>sy_shared := client_drop cl (sy_shared s), sy_clients := (sy_clients s)(c := None)\<rparr>) =
      \<lparr>sy_registry = fst (snd (release_owner (cl_state cl) (sy_registry (conns_of s)))), sy_conns = (sy_conns (conns_of s))(c := None)\<rparr>"
    by (auto simp: conns_of_def client_drop_fields)
  show ?case unfolding e by (rule run_gone) (use gone in \<open>simp add: conns_of_def\<close>)
next
  case (delivery s c cl cl' out ended)
  have "conns_of (s\<lparr>sy_clients := (sy_clients s)(c \<mapsto> cl')\<rparr>) = conns_of s"
    using delivery.hyps(1) deliver_direct_state [OF delivery.hyps(2)] by (intro conns_of_eq) simp_all
  then show ?case by (simp add: conn_run_self)
next
  case (event s c cl msg cl' out ended)
  have "conns_of (s\<lparr>sy_clients := (sy_clients s)(c \<mapsto> cl')\<rparr>) = conns_of s"
    using event.hyps(1) deliver_state [OF event.hyps(3)] by (intro conns_of_eq) simp_all
  then show ?case by (simp add: conn_run_self)
next
  case (writer_takes s ans answered wr sh acks)
  have "conns_of (s\<lparr>sy_shared := sh, sy_writer := wr, sy_clients := route acks (sy_clients s)\<rparr>) = conns_of s"
    using writer_take_registry [OF writer_takes.hyps(3)] route_state by (intro conns_of_eq) simp_all
  then show ?case by (simp add: conn_run_self)
next
  case (writer_finishes s f acknowledged wr sh acks)
  have "conns_of (s\<lparr>sy_shared := sh, sy_writer := wr, sy_clients := route acks (sy_clients s)\<rparr>) = conns_of s"
    using finish_write_registry [OF writer_finishes.hyps(2)] route_state by (intro conns_of_eq) simp_all
  then show ?case by (simp add: conn_run_self)
qed (auto simp: conns_of_def writer_exited_def conn_run_self)

section \<open>Owners and the barrier\<close>

definition may_write :: "input_permission \<Rightarrow> owner_lease option \<Rightarrow> bool" where
  "may_write permission owner \<longleftrightarrow>
     (case permission of PermOwner l \<Rightarrow> owner \<in> {Some l, None} | PermKernel \<Rightarrow> True | PermDenied \<Rightarrow> False)"

text \<open>The locks are held exactly for a connection's write in flight, whose lease nobody has replaced; an
  abandoned write has closed the writer.\<close>

definition flight_ok :: "writer \<Rightarrow> 'p terminal_shared \<Rightarrow> bool" where
  "flight_ok wr sh \<longleftrightarrow>
     (case wr_in_flight wr of
        None \<Rightarrow> \<not> ib_serial (th_barrier sh) \<and> \<not> ib_write_completion (th_barrier sh)
      | Some f \<Rightarrow>
          (case pw_authority (wf_write f) of
             TrustedKernel \<Rightarrow> wf_guard f = guard_started kernel_guard \<and>
               \<not> ib_serial (th_barrier sh) \<and> \<not> ib_write_completion (th_barrier sh)
           | ConnectionAuthority permission scope \<Rightarrow> wf_guard f = guard_started connection_guard \<and>
               ib_serial (th_barrier sh) \<and> ib_write_completion (th_barrier sh) \<and>
               may_write permission (or_owner (th_registry sh)))) \<and>
     (ib_uncertain (th_barrier sh) \<longrightarrow> wr_closed wr \<and> wr_in_flight wr = None)"

lemma may_write_kept: "may_write p o1 \<Longrightarrow> o2 \<in> {o1, None} \<Longrightarrow> may_write p o2"
  by (auto simp: may_write_def split: input_permission.splits)

lemma flight_ok_kept:
  assumes "flight_ok wr sh" "ib_serial (th_barrier sh') = ib_serial (th_barrier sh)"
    "ib_write_completion (th_barrier sh') = ib_write_completion (th_barrier sh)"
    "ib_uncertain (th_barrier sh') = ib_uncertain (th_barrier sh)"
    "or_owner (th_registry sh') \<in> {or_owner (th_registry sh), None} \<or> \<not> ib_serial (th_barrier sh)"
  shows "flight_ok wr sh'"
  using assms may_write_kept [of _ "or_owner (th_registry sh)" "or_owner (th_registry sh')"]
  by (auto simp: flight_ok_def split: option.splits write_authority.splits)

text \<open>The registry names a new owner only with the barrier's grant.\<close>

definition owner_kept :: "'p terminal_system \<Rightarrow> 'p terminal_system \<Rightarrow> bool" where
  "owner_kept s s' \<longleftrightarrow> owner_of s' \<in> {owner_of s, None} \<or> \<not> ib_serial (barrier_of s) \<and> \<not> ib_uncertain (barrier_of s)"

lemma release_owner_fst: "or_owner (fst (snd (release_owner st reg))) \<in> {or_owner reg, None}"
  using release_owner_or [of st reg] by (metis prod.collapse)

lemma frame_owner:
  assumes "pump_frame tid sid c ans inp cl sh = Ready (sh', cl', outcome, closed)" "ts_attached (cl_state cl)"
  shows "th_barrier sh' = th_barrier sh \<and> (or_owner (th_registry sh') \<in> {or_owner (th_registry sh), None} \<or>
    \<not> ib_serial (th_barrier sh) \<and> \<not> ib_uncertain (th_barrier sh))"
  using assms(1)
proof (cases rule: pump_frame_done)
  case (framed msg)
  then show ?thesis by (auto simp: frame_done_def dest!: attached_frame [OF _ assms(2)])
qed (auto simp: frame_done_def)

lemma first_frame_owner:
  assumes "first_frame tid sid scope ans msg sh = Ready (sh', res, out)"
  shows "th_barrier sh' = th_barrier sh \<and> (or_owner (th_registry sh') \<in> {or_owner (th_registry sh), None} \<or>
    \<not> ib_serial (th_barrier sh) \<and> \<not> ib_uncertain (th_barrier sh))"
  using assms by (cases rule: first_frame_cases) auto

lemma step_owner_kept: "term_step v tid sid s s' \<Longrightarrow> clients_ok s \<Longrightarrow> owner_kept s s'"
proof (induction rule: term_step.induct)
  case (hello scope ans msg s sh cl out)
  then show ?case using first_frame_owner [OF hello.hyps] by (auto simp: owner_kept_def)
next
  case (refused_hello scope ans msg s sh out)
  then show ?case using first_frame_owner [OF refused_hello.hyps] by (auto simp: owner_kept_def)
next
  case (frame s c cl ans inp sh cl' outcome closed)
  then have "ts_attached (cl_state cl)" by (auto simp: clients_ok_def)
  from frame_owner [OF frame.hyps(2) this] show ?case
    using release_owner_fst [of "cl_state cl'" "th_registry sh"] by (auto simp: owner_kept_def client_drop_fields)
next
  case (gone s c cl)
  then show ?case using release_owner_fst by (simp add: owner_kept_def client_drop_fields)
next
  case (writer_takes s ans answered wr sh acks)
  then show ?case using writer_take_registry [OF writer_takes.hyps(3)] by (simp add: owner_kept_def)
next
  case (writer_finishes s f acknowledged wr sh acks)
  then show ?case using finish_write_registry [OF writer_finishes.hyps(2)] by (simp add: owner_kept_def)
qed (auto simp: owner_kept_def writer_exited_def)

text \<open>What the writer does to the barrier.\<close>

lemma begin_write_flight:
  assumes "begin_write ans w wr sh = Ready (wr', sh', acks)" "flight_ok wr sh" "wr_in_flight wr = None" "\<not> wr_closed wr"
  shows "flight_ok wr' sh'"
proof -
  obtain b res where a: "admit_write (pw_authority w) ans (th_registry sh) (th_barrier sh) = Ready (b, res)"
    using assms(1) by (cases "admit_write (pw_authority w) ans (th_registry sh) (th_barrier sh)") (auto simp: begin_write_def)
  have free: "\<not> ib_serial (th_barrier sh)" "\<not> ib_write_completion (th_barrier sh)" "\<not> ib_uncertain (th_barrier sh)"
    using assms(2-4) by (auto simp: flight_ok_def)
  from a show ?thesis
  proof (cases rule: admit_write_cases)
    case refused
    then show ?thesis using assms a free by (auto simp: begin_write_def flight_ok_def)
  next
    case kernel
    then show ?thesis
      using assms a free by (auto simp: begin_write_def flight_ok_def guard_drop_def kernel_guard_def close_writer_def Let_def
          split: option.splits)
  next
    case (connection permission scope)
    have "may_write permission (or_owner (th_registry sh))"
      using connection(8) by (cases permission) (auto simp: may_write_def is_current_def)
    then show ?thesis
      using assms a free connection by (auto simp: begin_write_def flight_ok_def guard_drop_def connection_guard_def
          close_writer_def Let_def split: option.splits)
  qed
qed

lemma writer_take_flight:
  assumes "writer_take ans answered wr sh = Ready (wr', sh', acks)" "flight_ok wr sh" "wr_in_flight wr = None" "\<not> wr_closed wr"
  shows "flight_ok wr' sh'"
proof -
  obtain item rest where c: "th_control sh = item # rest"
    using assms(1) by (cases "th_control sh") (auto simp: writer_take_def)
  have ok: "flight_ok wr (sh\<lparr>th_control := rest\<rparr>)" by (rule flight_ok_kept [OF assms(2)]) simp_all
  show ?thesis
  proof (cases "\<exists>w. item = CtlWrite w \<and> \<not> wr_exited wr")
    case True
    then obtain w where "item = CtlWrite w" "\<not> wr_exited wr" by blast
    then have "begin_write ans w wr (sh\<lparr>th_control := rest\<rparr>) = Ready (wr', sh', acks)"
      using assms(1) c by (simp add: writer_take_def Let_def)
    then show ?thesis by (rule begin_write_flight [OF _ ok assms(3,4)])
  next
    case False
    then show ?thesis
      using assms c by (auto simp: writer_take_def flight_ok_def close_writer_def Let_def
          split: supervisor_control.splits if_splits)
  qed
qed

lemma finish_write_flight:
  assumes "finish_write ok f wr sh = (wr', sh', acks)" "flight_ok wr sh" "wr_in_flight wr = Some f"
  shows "flight_ok wr' sh'"
  using assms
  by (auto simp: finish_write_def flight_ok_def guard_drop_def guard_started_def guard_completed_def kernel_guard_def
      connection_guard_def close_writer_def Let_def split: if_splits write_authority.splits)

lemma step_flight_ok:
  assumes step: "term_step v tid sid s s'" and ok: "clients_ok s" "flight_ok (sy_writer s) (sy_shared s)"
  shows "flight_ok (sy_writer s') (sy_shared s')"
proof -
  have "owner_of s' \<in> {owner_of s, None} \<or> \<not> ib_serial (barrier_of s)"
    using step_owner_kept [OF step ok(1)] by (auto simp: owner_kept_def)
  note kept = flight_ok_kept [OF ok(2) _ _ _ this]
  from step show ?thesis
  proof (cases rule: term_step.cases)
    case (hello scope ans msg sh cl out)
    then show ?thesis using kept first_frame_owner [OF hello(2)] by simp
  next
    case (refused_hello scope ans msg sh out)
    then show ?thesis using kept first_frame_owner [OF refused_hello(2)] by simp
  next
    case (frame c cl ans inp sh cl' outcome closed)
    then have "ts_attached (cl_state cl)" using ok(1) by (auto simp: clients_ok_def)
    then have "th_barrier sh = barrier_of s" using frame_owner [OF frame(3)] by blast
    then show ?thesis using frame(1) kept by (cases closed) (simp_all add: client_drop_fields)
  next
    case (writer_takes ans answered wr sh acks)
    then show ?thesis using writer_take_flight [OF writer_takes(4) ok(2) writer_takes(2,3)] by simp
  next
    case (writer_finishes f acknowledged wr sh acks)
    then show ?thesis using finish_write_flight [OF writer_finishes(3) ok(2) writer_finishes(2)] by simp
  next
    case (writer_exit wr sh)
    then show ?thesis using ok(2) by (auto simp: writer_exited_def flight_ok_def)
  qed (use kept in \<open>simp_all add: client_drop_fields spawned_def\<close>)
qed

section \<open>Runs\<close>

text \<open>A machine that simulates another step by step, under an invariant, simulates its runs.\<close>

locale refinement_map =
  fixes conc :: "'c \<Rightarrow> 'c \<Rightarrow> bool" and abst :: "'a \<Rightarrow> 'a \<Rightarrow> bool" and abs :: "'c \<Rightarrow> 'a" and inv :: "'c \<Rightarrow> bool"
  assumes inv_step: "conc s t \<Longrightarrow> inv s \<Longrightarrow> inv t"
    and step_sim: "conc s t \<Longrightarrow> inv s \<Longrightarrow> abst\<^sup>*\<^sup>* (abs s) (abs t)"
begin

lemma run_inv: "conc\<^sup>*\<^sup>* s t \<Longrightarrow> inv s \<Longrightarrow> inv t"
  by (induction rule: rtranclp_induct) (auto intro: inv_step)

lemma run_sim: "conc\<^sup>*\<^sup>* s t \<Longrightarrow> inv s \<Longrightarrow> abst\<^sup>*\<^sup>* (abs s) (abs t)"
proof (induction rule: rtranclp_induct)
  case (step y z)
  then show ?case using run_inv step_sim by (meson rtranclp_trans)
qed simp

text \<open>What one step keeps of a state once \<open>stop\<close> holds, a run keeps.\<close>

lemma run_stop:
  assumes "\<And>s t. conc s t \<Longrightarrow> inv s \<Longrightarrow> stop s \<Longrightarrow> stop t \<and> (obs t = obs s \<or> obs t = None)"
  shows "conc\<^sup>*\<^sup>* s t \<Longrightarrow> inv s \<Longrightarrow> stop s \<Longrightarrow> stop t \<and> (obs t = obs s \<or> obs t = None)"
proof (induction rule: rtranclp_induct)
  case (step y z)
  have "inv y" using run_inv step.hyps(1) step.prems(1) .
  then show ?case using assms [OF step.hyps(2)] step.IH [OF step.prems] by auto
qed simp

end

definition term_inv :: "'p terminal_system \<Rightarrow> bool" where
  "term_inv s \<longleftrightarrow> clients_ok s \<and> flight_ok (sy_writer s) (sy_shared s)"

interpretation traffic: refinement_map "term_step v tid sid" "\<lambda>s s'. \<exists>c es. conn_step s c es s'" conns_of term_inv
  for v tid sid
  by unfold_locales
    (auto simp: term_inv_def step_clients_ok step_flight_ok dest: step_refines [unfolded conn_run_def])

lemma term_start_inv: "term_inv (term_start p)" "conns_of (term_start p) = no_connections"
  by (simp_all add: term_inv_def term_start_def clients_ok_def flight_ok_def barrier_awaiting_spawn_def barrier_default_def
      conns_of_def no_connections_def)

lemma term_run_inv: "term_run v tid sid s s' \<Longrightarrow> term_inv s \<Longrightarrow> term_inv s'"
  unfolding term_run_def by (rule traffic.run_inv)

lemma term_run_refines: "term_run v tid sid s s' \<Longrightarrow> term_inv s \<Longrightarrow> conn_run (conns_of s) (conns_of s')"
  unfolding term_run_def conn_run_def by (rule traffic.run_sim)

text \<open>Once a write was abandoned, nothing is written and nobody becomes the owner.\<close>

lemma step_uncertain:
  assumes step: "term_step v tid sid s s'" and ok: "clients_ok s" "flight_ok (sy_writer s) (sy_shared s)"
    and u: "ib_uncertain (barrier_of s)"
  shows "ib_uncertain (barrier_of s') \<and> owner_of s' \<in> {owner_of s, None}"
proof -
  have o: "owner_of s' \<in> {owner_of s, None}" using step_owner_kept [OF step ok(1)] u by (auto simp: owner_kept_def)
  have w: "wr_closed (sy_writer s)" "flight_of s = None" using ok(2) u by (auto simp: flight_ok_def)
  from step have "ib_uncertain (barrier_of s')"
  proof (cases rule: term_step.cases)
    case (frame c cl ans inp sh cl' outcome closed)
    then have "ts_attached (cl_state cl)" using ok(1) by (auto simp: clients_ok_def)
    then have "th_barrier sh = barrier_of s" using frame_owner [OF frame(3)] by blast
    then show ?thesis using frame(1) u by (simp add: client_drop_fields)
  next
    case (hello scope ans msg sh cl out)
    then show ?thesis using u first_frame_owner [OF hello(2)] by simp
  next
    case (refused_hello scope ans msg sh out)
    then show ?thesis using u first_frame_owner [OF refused_hello(2)] by simp
  qed (use u w in \<open>auto simp: client_drop_fields spawned_def writer_exited_def\<close>)
  then show ?thesis using o by blast
qed

lemma run_uncertain:
  assumes "term_run v tid sid s s'" "term_inv s" "ib_uncertain (barrier_of s)"
  shows "ib_uncertain (barrier_of s') \<and> (owner_of s' = owner_of s \<or> owner_of s' = None)"
proof (rule traffic.run_stop [where stop = "\<lambda>s. ib_uncertain (barrier_of s)" and obs = owner_of])
  show "(term_step v tid sid)\<^sup>*\<^sup>* s s'" using assms(1) by (simp add: term_run_def)
next
  fix a b
  assume "term_step v tid sid a b" "term_inv a" "ib_uncertain (barrier_of a)"
  then show "ib_uncertain (barrier_of b) \<and> (owner_of b = owner_of a \<or> owner_of b = None)"
    using step_uncertain [of v tid sid a b] by (simp add: term_inv_def)
qed (use assms in simp_all)

end
