(* ===== verification/Wire_Frame.thy ===== *)
theory Wire_Frame
  imports Calm_Prelude
begin

text \<open>
  Frames on a stream (crates/calm-session/src/lib.rs): four bytes of magic, the version and the length of
  the payload in network order, the payload. What writes the payload and reads it back is the crate
  bincode: \<open>encode\<close> and \<open>decode\<close> are parameters. A stream that can be written to is the bytes written;
  one that is read is the bytes that are left, and reading past its end is the error \<open>FrameIo\<close>.
\<close>

datatype ('ee, 'de) frame_error =
    FrameIo
  | FrameEncode 'ee
  | FrameDecode 'de
  | BadMagic string string
  | UnsupportedFrameVersion nat nat
  | Oversize nat nat

definition MAX_FRAME :: nat where
  "MAX_FRAME = 16 * 1024 * 1024"

definition FRAME_MAGIC :: string where
  "FRAME_MAGIC = ''NEIG''"

definition FRAME_VERSION :: nat where
  "FRAME_VERSION = 4"

text \<open>\<open>to_be_bytes\<close> and \<open>from_be_bytes\<close> of an unsigned integer of \<open>k\<close> bytes.\<close>

fun be_bytes :: "nat \<Rightarrow> nat \<Rightarrow> string" where
  "be_bytes 0 n = []"
| "be_bytes (Suc k) n = be_bytes k (n div 256) @ [char_of (n mod 256)]"

definition from_be_bytes :: "string \<Rightarrow> nat" where
  "from_be_bytes s = foldl (\<lambda>n c. 256 * n + byte_of c) 0 s"

definition write_frame ::
  "('a \<Rightarrow> (string, 'ee) result) \<Rightarrow> 'a \<Rightarrow> (string, ('ee, 'de) frame_error) result" where
  "write_frame encode msg =
     (case encode msg of
        Inl e \<Rightarrow> Inl (FrameEncode e)
      | Inr buf \<Rightarrow>
          if length buf > 2 ^ 32 - 1 then Inl (Oversize (2 ^ 32 - 1) MAX_FRAME)
          else if length buf > MAX_FRAME then Inl (Oversize (length buf) MAX_FRAME)
          else Inr (FRAME_MAGIC @ be_bytes 2 FRAME_VERSION @ be_bytes 4 (length buf) @ buf))"

definition read_exact :: "nat \<Rightarrow> string \<Rightarrow> (string \<times> string, ('ee, 'de) frame_error) result" where
  "read_exact n s = (if n \<le> length s then Inr (take n s, drop n s) else Inl FrameIo)"

definition read_frame ::
  "(string \<Rightarrow> ('a \<times> nat, 'de) result) \<Rightarrow> string \<Rightarrow> ('a \<times> string, ('ee, 'de) frame_error) result" where
  "read_frame decode s =
     and_then (read_exact 4 s) (\<lambda>(magic, s1).
       if magic \<noteq> FRAME_MAGIC then Inl (BadMagic magic FRAME_MAGIC)
       else and_then (read_exact 2 s1) (\<lambda>(ver, s2).
         if from_be_bytes ver \<noteq> FRAME_VERSION
         then Inl (UnsupportedFrameVersion (from_be_bytes ver) FRAME_VERSION)
         else and_then (read_exact 4 s2) (\<lambda>(len, s3).
           if from_be_bytes len > MAX_FRAME then Inl (Oversize (from_be_bytes len) MAX_FRAME)
           else and_then (read_exact (from_be_bytes len) s3) (\<lambda>(buf, s4).
             case decode buf of Inl e \<Rightarrow> Inl (FrameDecode e) | Inr (msg, _) \<Rightarrow> Inr (msg, s4)))))"

section \<open>Numbers in network order\<close>

lemma length_be_bytes [simp]: "length (be_bytes k n) = k"
  by (induction k arbitrary: n) auto

lemma from_be_bytes_snoc: "from_be_bytes (s @ [c]) = 256 * from_be_bytes s + byte_of c"
  by (simp add: from_be_bytes_def)

lemma byte_of_less: "byte_of c < 256"
  by (simp add: byte_of_def of_char_def)

lemma from_be_be [simp]: "n < 256 ^ k \<Longrightarrow> from_be_bytes (be_bytes k n) = n"
proof (induction k arbitrary: n)
  case (Suc k)
  then have "n div 256 < 256 ^ k" by (simp add: less_mult_imp_div_less mult.commute)
  then show ?case using Suc.IH by (simp add: from_be_bytes_snoc byte_of_def)
qed (simp add: from_be_bytes_def)

lemma be_from_be: "be_bytes (length s) (from_be_bytes s) = s"
proof (induction s rule: rev_induct)
  case (snoc c s)
  have "byte_of c < 256" by (rule byte_of_less)
  then show ?case using snoc by (simp add: from_be_bytes_snoc) (simp add: byte_of_def)
qed simp

section \<open>Frames\<close>

lemma read_exact_append: "read_exact (length a) (a @ b) = Inr (a, b)"
  by (simp add: read_exact_def)

lemma read_exact_Inr: "read_exact n s = Inr (a, b) \<longleftrightarrow> s = a @ b \<and> length a = n"
  by (auto simp: read_exact_def)

definition frame_bytes :: "string \<Rightarrow> string" where
  "frame_bytes buf = FRAME_MAGIC @ be_bytes 2 FRAME_VERSION @ be_bytes 4 (length buf) @ buf"

lemma header_numbers:
  "from_be_bytes (be_bytes 2 FRAME_VERSION) = FRAME_VERSION"
  "n \<le> MAX_FRAME \<Longrightarrow> from_be_bytes (be_bytes 4 n) = n"
  by (simp_all add: FRAME_VERSION_def MAX_FRAME_def)

lemma read_header:
  "read_exact 4 (FRAME_MAGIC @ s) = Inr (FRAME_MAGIC, s)"
  "read_exact 2 (be_bytes 2 n @ s) = Inr (be_bytes 2 n, s)"
  "read_exact 4 (be_bytes 4 n @ s) = Inr (be_bytes 4 n, s)"
  by (simp_all add: read_exact_Inr FRAME_MAGIC_def)

lemma read_frame_bytes:
  "length buf \<le> MAX_FRAME \<Longrightarrow> read_frame decode (frame_bytes buf @ rest) =
    (case decode buf of Inl e \<Rightarrow> Inl (FrameDecode e) | Inr (msg, _) \<Rightarrow> Inr (msg, rest))"
  by (simp add: read_frame_def frame_bytes_def header_numbers read_header read_exact_append)

text \<open>A frame is accepted exactly when its header is right and its payload decodes.\<close>

lemma read_frame_Inr:
  fixes decode :: "string \<Rightarrow> ('a \<times> nat, 'd) result"
  shows "(read_frame decode s :: ('a \<times> string, ('e, 'd) frame_error) result) = Inr (msg, rest) \<longleftrightarrow>
     (\<exists>buf n. s = frame_bytes buf @ rest \<and> length buf \<le> MAX_FRAME \<and> decode buf = Inr (msg, n))"
proof
  assume "(read_frame decode s :: ('a \<times> string, ('e, 'd) frame_error) result) = Inr (msg, rest)"
  then obtain magic s1 ver s2 len s3 buf s4 where
    r: "read_exact 4 s = (Inr (magic, s1) :: (_, ('e, 'd) frame_error) result)" "magic = FRAME_MAGIC"
      "read_exact 2 s1 = (Inr (ver, s2) :: (_, ('e, 'd) frame_error) result)" "from_be_bytes ver = FRAME_VERSION"
      "read_exact 4 s2 = (Inr (len, s3) :: (_, ('e, 'd) frame_error) result)" "from_be_bytes len \<le> MAX_FRAME"
      "read_exact (from_be_bytes len) s3 = (Inr (buf, s4) :: (_, ('e, 'd) frame_error) result)"
    and d: "(case decode buf of Inl e \<Rightarrow> Inl (FrameDecode e) | Inr (msg, _) \<Rightarrow> Inr (msg, s4)) = (Inr (msg, rest) :: (_, ('e, 'd) frame_error) result)"
    by (auto simp: read_frame_def and_then_Inr not_less split: if_splits)
  have "be_bytes 2 FRAME_VERSION = ver" "be_bytes 4 (length buf) = len"
    using r be_from_be [of ver] be_from_be [of len] by (auto simp: read_exact_Inr)
  then have "s = frame_bytes buf @ s4" using r by (auto simp: read_exact_Inr frame_bytes_def)
  moreover have "length buf \<le> MAX_FRAME" using r by (auto simp: read_exact_Inr)
  ultimately show "\<exists>buf n. s = frame_bytes buf @ rest \<and> length buf \<le> MAX_FRAME \<and> decode buf = Inr (msg, n)"
    using d by (auto split: sum.splits)
next
  assume "\<exists>buf n. s = frame_bytes buf @ rest \<and> length buf \<le> MAX_FRAME \<and> decode buf = Inr (msg, n)"
  then show "(read_frame decode s :: ('a \<times> string, ('e, 'd) frame_error) result) = Inr (msg, rest)" by (auto simp: read_frame_bytes)
qed

lemma write_frame_Inr:
  "write_frame encode msg = Inr s \<longleftrightarrow> (\<exists>buf. encode msg = Inr buf \<and> length buf \<le> MAX_FRAME \<and> s = frame_bytes buf)"
  by (auto simp: write_frame_def frame_bytes_def MAX_FRAME_def split: sum.splits if_splits)

text \<open>Reading frames until the stream ends.\<close>

fun read_frames :: "nat \<Rightarrow> (string \<Rightarrow> ('a \<times> nat, 'de) result) \<Rightarrow> string \<Rightarrow> ('a list \<times> string, ('ee, 'de) frame_error) result" where
  "read_frames 0 decode s = Inr ([], s)"
| "read_frames (Suc n) decode s =
     and_then (read_frame decode s) (\<lambda>(msg, rest).
       and_then (read_frames n decode rest) (\<lambda>(msgs, rest'). Inr (msg # msgs, rest')))"

lemma read_written_frames:
  assumes "\<And>msg buf. encode msg = Inr buf \<Longrightarrow> decode buf = Inr (msg, length buf)"
  shows "list_all2 (\<lambda>msg s. write_frame encode msg = (Inr s :: (_, ('ee, 'de) frame_error) result)) msgs ss \<Longrightarrow>
    read_frames (length msgs) decode (concat ss @ rest) = (Inr (msgs, rest) :: (_, ('ee, 'de) frame_error) result)"
proof (induction rule: list_all2_induct)
  case (Cons msg msgs s ss)
  then obtain buf where b: "encode msg = Inr buf" "length buf \<le> MAX_FRAME" "s = frame_bytes buf"
    by (auto simp: write_frame_Inr)
  then show ?case using Cons.IH assms [OF b(1)] by (simp add: read_frame_bytes)
qed simp

end
