(* ===== verification/Terminal_Properties.thy ===== *)
theory Terminal_Properties
  imports Terminal_Render Terminal_Traffic Wire_Frame
begin

text \<open>
  The properties of terminals: what a client sees that attaches, who may drive the terminal and
  write to it, the revisions of what is broadcast, the memory of recent output, and the frames on the wire. A small
  parser that knows printable ASCII and control sequences shows that the assumptions on the
  parser can hold.
\<close>

section \<open>A concrete parser\<close>

datatype demo_state = DGround | DEsc | DCsi string "nat list" "nat option"

definition demo_number :: "nat option \<Rightarrow> nat" where
  "demo_number cur = (case cur of None \<Rightarrow> 0 | Some n \<Rightarrow> n)"

fun demo_advance :: "demo_state \<Rightarrow> char \<Rightarrow> demo_state \<times> vt_action list" where
  "demo_advance DGround b =
     (if b = ESC then (DEsc, [])
      else if 32 \<le> byte_of b \<and> byte_of b < 127 then (DGround, [VtPrint (byte_of b)])
      else (DGround, [VtExecute (byte_of b)]))"
| "demo_advance DEsc b = (if b = CHR ''['' then (DCsi [] [] None, []) else (DGround, []))"
| "demo_advance (DCsi i ps cur) b =
     (if b = CHR ''?'' then (DCsi (i @ [b]) ps cur, [])
      else if 48 \<le> byte_of b \<and> byte_of b < 58 then (DCsi i ps (Some (10 * demo_number cur + (byte_of b - 48))), [])
      else if b = CHR '';'' then (DCsi i (ps @ [demo_number cur]) None, [])
      else (DGround, [VtCsi (map (\<lambda>n. [n]) (ps @ [demo_number cur])) i False b]))"

definition demo_vte :: "demo_state vte" where
  "demo_vte = \<lparr>parser_new = DGround, advance = demo_advance\<rparr>"

definition ascii_printable :: "nat \<Rightarrow> bool" where
  "ascii_printable c \<longleftrightarrow> 32 \<le> c \<and> c < 127"

lemma run_parser_append:
  "run_parser v p (a @ b) = (let (p1, x) = run_parser v p a; (p2, y) = run_parser v p1 b in (p2, x @ y))"
  by (induction a arbitrary: p) (auto simp: Let_def split: prod.splits)

lemma byte_of_digit: "d < 10 \<Longrightarrow> byte_of (digit d) = 48 + d"
  by (simp add: byte_of_def digit_def)

lemma demo_digit:
  "d < 10 \<Longrightarrow> run_parser demo_vte (DCsi i ps cur) [digit d] = (DCsi i ps (Some (10 * demo_number cur + d)), [])"
proof -
  assume d: "d < 10"
  have "digit d \<noteq> CHR ''?''" using byte_of_digit [OF d] d by (auto simp: byte_of_def)
  then show ?thesis using byte_of_digit [OF d] d by (simp add: demo_vte_def)
qed

lemma demo_show_nat:
  "run_parser demo_vte (DCsi i ps None) (show_nat n) = (DCsi i ps (Some n), [])"
proof (induction n rule: show_nat.induct)
  case (1 n)
  show ?case
  proof (cases "n < 10")
    case True
    then show ?thesis using demo_digit [OF True] by (simp add: show_nat.simps [of n] demo_number_def)
  next
    case False
    then show ?thesis
      using 1 demo_digit [of "n mod 10" i ps "Some (n div 10)"]
      by (simp add: show_nat.simps [of n] run_parser_append demo_number_def Let_def)
  qed
qed

lemma demo_final:
  assumes "final_byte f"
  shows "run_parser demo_vte (DCsi i ps cur) [f] = (DGround, [VtCsi (map (\<lambda>n. [n]) (ps @ [demo_number cur])) i False f])"
proof -
  have "f \<noteq> CHR ''?''" "f \<noteq> CHR '';''" "\<not> byte_of f < 58" using assms by (auto simp: final_byte_def byte_of_def)
  then show ?thesis by (simp add: demo_vte_def)
qed

lemma demo_params:
  "final_byte f \<Longrightarrow> qs \<noteq> [] \<Longrightarrow> run_parser demo_vte (DCsi i ps None) (join '';'' (map show_nat qs) @ [f]) =
     (DGround, [VtCsi (map (\<lambda>n. [n]) (ps @ qs)) i False f])"
proof (induction qs arbitrary: ps)
  case (Cons q qs)
  have sep: "run_parser demo_vte (DCsi i ps cur) [CHR '';''] = (DCsi i (ps @ [demo_number cur]) None, [])" for ps cur
    by (simp add: demo_vte_def byte_of_def)
  show ?case
  proof (cases qs)
    case Nil
    then show ?thesis using Cons.prems demo_final by (simp add: run_parser_append demo_show_nat demo_number_def)
  next
    case (Cons q' qs')
    have "join '';'' (map show_nat (q # qs)) @ [f] = show_nat q @ [CHR '';''] @ join '';'' (map show_nat qs) @ [f]"
      using Cons by simp
    then show ?thesis
      using Cons.IH [OF Cons.prems(1), of "ps @ [q]"] Cons sep
      by (simp add: run_parser_append demo_show_nat demo_number_def Let_def del: join.simps)
  qed
qed simp

lemma demo_csi:
  assumes "final_byte f" "i = [] \<or> i = ''?''"
  shows "\<exists>params. run_parser demo_vte DGround (csi_bytes i qs f) = (DGround, [VtCsi params i False f]) \<and> csi_params qs params"
proof -
  have start: "run_parser demo_vte DGround ([ESC] @ ''['' @ i) = (DCsi i [] None, [])"
    using assms(2) by (auto simp: demo_vte_def ESC_def)
  have "run_parser demo_vte (DCsi i [] None) (join '';'' (map show_nat qs) @ [f]) =
      (DGround, [VtCsi (if qs = [] then [[0]] else map (\<lambda>n. [n]) qs) i False f])"
    using demo_params [OF assms(1), of qs i "[]"] demo_final [OF assms(1), of i "[]" None]
    by (cases "qs = []") (simp_all add: demo_number_def)
  then have "run_parser demo_vte DGround (([ESC] @ ''['' @ i) @ join '';'' (map show_nat qs) @ [f]) =
      (DGround, [VtCsi (if qs = [] then [[0]] else map (\<lambda>n. [n]) qs) i False f])"
    using run_parser_append [of demo_vte DGround "[ESC] @ ''['' @ i" "join '';'' (map show_nat qs) @ [f]"] start
    by (simp only: Let_def prod.case append_Nil)
  then show ?thesis by (auto simp: csi_bytes_def csi_params_def)
qed

lemma demo_grammar: "vt_grammar demo_vte (\<lambda>p. p = DGround) ascii_printable"
  unfolding vt_grammar_def
proof (intro conjI allI impI)
  fix p i qs f
  assume "p = DGround" "i = [] \<or> i = ''?''" "final_byte f"
  then show "\<exists>p' params. run_parser demo_vte p (csi_bytes i qs f) = (p', [VtCsi params i False f]) \<and>
      p' = DGround \<and> csi_params qs params"
    using demo_csi [of f i qs] by auto
next
  fix p c
  assume "p = DGround" "ascii_printable c"
  then show "\<exists>p'. run_parser demo_vte p (push_char_utf8 c) = (p', [VtPrint c]) \<and> p' = DGround"
    by (auto simp: ascii_printable_def push_char_utf8_def demo_vte_def byte_of_def ESC_def char_of_eq_iff take_bit_eq_mod)
qed

lemma demo_prints: "prints_only ascii_printable demo_vte"
proof -
  have "ascii_printable c" if "VtPrint c \<in> set (snd (demo_advance p b))" for p b c
    using that by (cases p) (auto simp: ascii_printable_def split: if_splits)
  then show ?thesis by (auto simp: prints_only_def demo_vte_def ascii_printable_def)
qed

section \<open>What a client sees\<close>

lemma snapshot_vt_max: "snapshot_vt (max cols 1) (max rows 1) m = snapshot_vt cols rows m"
  by (simp add: snapshot_vt_def)

lemma terminal_new_dims:
  "cols_of (terminal_new v cols rows k) = max cols 1" "rows_of (terminal_new v cols rows k) = max rows 1"
  by (simp_all add: terminal_new_def grid_new_def)

text \<open>What a snapshot shows of a terminal: its size, the cursor, and the modes a host has set.\<close>

definition shown_state :: "'p terminal_model \<Rightarrow> nat \<times> nat \<times> cursor \<times> bool \<times> bool list" where
  "shown_state m = (cols_of m, rows_of m, tm_cursor m, tm_cursor_visible m,
     [tm_alt_screen m, tm_mouse_x10 m, tm_mouse_vt200 m, tm_mouse_drag m, tm_mouse_any m, tm_mouse_sgr m,
      tm_focus_event_tracking m, tm_bracketed_paste m])"

lemma fresh_client_sees:
  assumes "vt_grammar v ground pr" "ground (parser_new v)" "pr 32" "plane_wf pr p"
    "c = feed v (snapshot_vt (pl_cols p) (pl_rows p) (pl_model p)) (terminal_new v (pl_cols p) (pl_rows p) k)"
  shows "lines_of c = map repaint (lines_of (pl_model p)) \<and> shown_state c = shown_state (pl_model p)"
proof -
  let ?m = "pl_model p" and ?n = "terminal_new v (pl_cols p) (pl_rows p) k"
  have d: "cols_of ?m = max (pl_cols p) 1" "rows_of ?m = max (pl_rows p) 1" "pl_cols p \<le> u16_max" "pl_rows p \<le> u16_max"
    and wf: "terminal_wf pr ?m" using assms(4) by (simp_all add: plane_wf_def)
  have n: "terminal_wf pr ?n" "ground (tm_parser ?n)" "cols_of ?n = cols_of ?m" "rows_of ?n = rows_of ?m"
    using wf_terminal_new [of pr "pl_cols p" "pl_rows p" v k] assms(2,3) d
    by (simp_all add: terminal_new_dims) (simp add: terminal_new_def)
  obtain r q where "c = (screen ((tm_grid ?m)\<lparr>g_rows := map repaint (lines_of ?m)\<rparr>) (tm_cursor ?m) sgr_default
      (tm_cursor_visible ?m) r (with_modes ?m ?n))\<lparr>tm_parser := q\<rparr>"
    using feed_snapshot [OF assms(1) wf n] assms(5) unfolding d(1,2) snapshot_vt_max by auto
  then show ?thesis by (simp add: screen_def shown_state_def with_modes_def) (simp add: terminal_new_def)
qed

definition demo_client_hello :: client_hello where
  "demo_client_hello = \<lparr>ch_protocol_version = 4, ch_terminal_id = ''t'', ch_client_id = 7,
     ch_desired_size = \<lparr>ps_cols = 4, ps_rows = 2, ps_pixel_width = None, ps_pixel_height = None\<rparr>,
     ch_cell_size = None, ch_initial_scrollback = IsNone, ch_resume_from = None, ch_role_hint = Some Owner,
     ch_capabilities = \<lparr>cc_render_encodings = [Vt], cc_supports_scrollback = False, cc_supports_sixel = False,
        cc_supports_images = False, cc_kernel_originated_input = False\<rparr>\<rparr>"

definition demo_context :: session_context where
  "demo_context = \<lparr>cx_terminal_id = ''t'', cx_session_id = 1,
     cx_pty_size = \<lparr>ps_cols = 4, ps_rows = 2, ps_pixel_width = None, ps_pixel_height = None\<rparr>,
     cx_pty_seq_head = 0, cx_pty_seq_tail = 1, cx_render_rev = 1, cx_is_child_ready = False,
     cx_current_default_fg = None, cx_current_default_bg = None\<rparr>"

definition demo_plane :: "demo_state render_plane" where
  "demo_plane = fst (plane_run demo_vte [InChunk 0 ''hi'', InPoll 200] (plane_new demo_vte 4 2 100 100))"

text \<open>C3. A client that attaches sees the terminal's screen. After any output, resizes and colours, let a
  client's hello be accepted and its server's hello be given the render plane's snapshot, as the server
  does before sending it. A client that starts an empty terminal of the size of the hello and feeds it
  the snapshot then has the same size, cursor, visibility of the cursor and host modes as the
  terminal, and every line of its screen is the terminal's line with the last column blank. The parser
  is only assumed to print printable characters and to read control sequences. The size in the hello is the
  size the plane has when the snapshot is built: the server drops its locks between the two, and a resize
  that comes there is outside this property.\<close>

theorem attached_client_sees_screen:
  assumes "vt_grammar v ground printable" "ground (parser_new v)" "prints_only printable v"
    and "cols \<le> u16_max" "rows \<le> u16_max" "list_all input_ok is"
    and "p = fst (plane_run v is (plane_new v cols rows transcript_max scrollback_max))"
    and "on_client_frame (ClientHello h) session_new buffer reg ctx = (st, reg', [SendToClient msg])"
    and "cx_pty_size ctx = current_size p"
    and "rebuild_server_hello_snapshot msg (Some p) limit = ServerHello sh"
    and "c = feed v (rs_data (sh_snapshot sh))
               (terminal_new v (rs_cols (sh_snapshot sh)) (rs_rows (sh_snapshot sh)) k)"
  shows "lines_of c = map repaint (lines_of (pl_model p)) \<and> shown_state c = shown_state (pl_model p) \<and>
    rs_render_rev (sh_snapshot sh) = tm_rev (pl_model p)"
proof -
  have pr: "printable 32" using assms(3) by (simp add: prints_only_def)
  have wf: "plane_wf printable p"
    using plane_run_wf [OF assms(3,6) plane_wf_new [of printable cols rows, OF pr assms(4,5)]] assms(7) by simp
  obtain h' where m: "msg = ServerHello h'" "sh_pty_size h' = cx_pty_size ctx"
    using assms(8)
    by (auto simp: on_client_frame_def process_hello_def session_new_def attach_def reject_def Let_def
        split: if_splits prod.splits)
  have "rs_data (sh_snapshot sh) = snapshot_vt (pl_cols p) (pl_rows p) (pl_model p)"
    "rs_cols (sh_snapshot sh) = pl_cols p" "rs_rows (sh_snapshot sh) = pl_rows p"
    "rs_render_rev (sh_snapshot sh) = tm_rev (pl_model p)"
    using assms(9,10) m by (auto simp: rebuild_server_hello_snapshot_def build_snapshot_def current_size_def Let_def)
  then show ?thesis using fresh_client_sees [OF assms(1,2) pr wf] assms(11) by simp
qed

lemma demo_hello_accepted:
  "\<exists>st reg h. on_client_frame (ClientHello demo_client_hello) session_new (ring_new 10) registry_new demo_context =
     (st, reg, [SendToClient (ServerHello h)]) \<and> sh_pty_size h = cx_pty_size demo_context"
  by (simp add: on_client_frame_def process_hello_def session_new_def attach_def Let_def demo_client_hello_def
      demo_context_def PROTOCOL_VERSION_def split: prod.split)

theorem attached_client_sees_screen_witness:
  "\<exists>(sh :: server_hello) c. rs_cols (sh_snapshot sh) = 4 \<and> rs_rows (sh_snapshot sh) = 2 \<and>
     c = feed demo_vte (rs_data (sh_snapshot sh)) (terminal_new demo_vte 4 2 0) \<and>
     lines_of c = map repaint (lines_of (pl_model demo_plane)) \<and> shown_state c = shown_state (pl_model demo_plane) \<and>
     rs_render_rev (sh_snapshot sh) = tm_rev (pl_model demo_plane)"
proof -
  obtain st reg h where h: "on_client_frame (ClientHello demo_client_hello) session_new (ring_new 10) registry_new
      demo_context = (st, reg, [SendToClient (ServerHello h)])" "sh_pty_size h = cx_pty_size demo_context"
    using demo_hello_accepted by blast
  have size: "cx_pty_size demo_context = current_size demo_plane"
    by (simp add: demo_context_def current_size_def demo_plane_def plane_chunk_def plane_new_def observe_def
        detect_ready_def Let_def take_pending_osc_replies_def split: option.split)
  obtain sh where sh: "rebuild_server_hello_snapshot (ServerHello h) (Some demo_plane) None = ServerHello sh"
    and d: "rs_cols (sh_snapshot sh) = 4" "rs_rows (sh_snapshot sh) = 2"
    using h(2) by (simp add: Let_def rebuild_server_hello_snapshot_def build_snapshot_def demo_context_def)
  note seen = attached_client_sees_screen [OF demo_grammar _ demo_prints _ _ _ demo_plane_def h(1) size sh refl, of 0]
  show ?thesis by (rule exI [of _ sh]) (use seen d in \<open>simp add: demo_vte_def u16_max_def\<close>)
qed

section \<open>Who drives the terminal\<close>

lemma reachable_inv: "conn_run no_connections s \<Longrightarrow> connections_inv s"
  using conn_run_inv no_connections_inv by blast

lemma conn_run_step: "conn_run s s' \<Longrightarrow> conn_step s' c es s'' \<Longrightarrow> conn_run s s''"
  unfolding conn_run_def by (rule rtranclp.rtrancl_into_rtrancl) auto

lemma conn_run_refl: "conn_run s s"
  by (simp add: conn_run_def)

text \<open>A run in which one client attaches as the owner and a second one takes the terminal over.\<close>

definition demo_frame :: "nat \<Rightarrow> client_msg \<Rightarrow> connections \<Rightarrow> connections \<times> effect list" where
  "demo_frame c msg s =
     (case on_client_frame msg (the (sy_conns s c)) (ring_new 10) (sy_registry s) demo_context of
        (st, reg, es) \<Rightarrow> (\<lparr>sy_registry = reg, sy_conns = (sy_conns s)(c \<mapsto> st)\<rparr>, es))"

definition demo_connect :: "nat \<Rightarrow> connections \<Rightarrow> connections" where
  "demo_connect c s = s\<lparr>sy_conns := (sy_conns s)(c \<mapsto> session_new)\<rparr>"

definition demo_owned :: connections where
  "demo_owned = fst (demo_frame 1 (ClientHello demo_client_hello) (demo_connect 1 no_connections))"

definition demo_taken :: connections where
  "demo_taken = fst (demo_frame 2 OwnerClaim
     (fst (demo_frame 2 (ClientHello demo_client_hello) (demo_connect 2 demo_owned))))"

lemma demo_frame_step: "sy_conns s c \<noteq> None \<Longrightarrow> conn_step s c (snd (demo_frame c msg s)) (fst (demo_frame c msg s))"
  by (auto simp: demo_frame_def split: prod.split intro: conn_step.frame)

lemma demo_connect_step: "sy_conns s c = None \<Longrightarrow> conn_step s c [] (demo_connect c s)"
  by (simp add: demo_connect_def conn_step.connect)

lemmas demo_conn_defs = demo_frame_def demo_connect_def no_connections_def registry_new_def session_new_def
  demo_client_hello_def demo_context_def PROTOCOL_VERSION_def process_hello_def attach_def on_attach_def claim_def
  on_client_frame_def on_attached_frame_def refresh_lease_def on_owner_claim_def checked_succ_def

lemma demo_owned_run: "conn_run no_connections demo_owned"
  unfolding demo_owned_def
  by (rule conn_run_step [OF conn_run_step [OF conn_run_refl demo_connect_step] demo_frame_step])
    (simp_all add: no_connections_def demo_connect_def)

lemma demo_owned_eq:
  "or_owner (sy_registry demo_owned) = Some \<lparr>ol_client_id = 7, ol_generation = 1\<rparr>"
  "\<exists>st. sy_conns demo_owned = [1 \<mapsto> st] \<and> ts_attached st \<and> ts_role st = Some Owner \<and>
     ts_owner_lease st = Some \<lparr>ol_client_id = 7, ol_generation = 1\<rparr>"
  by (simp_all add: demo_owned_def demo_conn_defs Let_def) (rule exI, rule conjI, rule refl, simp)

lemma demo_taken_run: "conn_run demo_owned demo_taken"
proof -
  have "sy_conns demo_owned 2 = None" using demo_owned_eq(2) by auto
  then show ?thesis
    unfolding demo_taken_def
    by (intro conn_run_step [OF conn_run_step [OF conn_run_step [OF conn_run_refl demo_connect_step] demo_frame_step] demo_frame_step])
      (auto simp: demo_connect_def demo_frame_def split: prod.split)
qed

lemma demo_taken_eq: "or_owner (sy_registry demo_taken) = Some \<lparr>ol_client_id = 7, ol_generation = 2\<rparr>"
  by (simp add: demo_taken_def demo_owned_def demo_conn_defs Let_def)

definition demo_retaken :: connections where
  "demo_retaken = fst (demo_frame 1 OwnerClaim demo_taken)"

lemma demo_retaken_run: "conn_run demo_taken demo_retaken"
proof -
  have "sy_conns demo_taken 1 \<noteq> None"
    using demo_owned_eq(2) by (auto simp: demo_taken_def demo_connect_def demo_frame_def split: prod.splits)
  then show ?thesis unfolding demo_retaken_def by (rule conn_run_step [OF conn_run_refl demo_frame_step])
qed

text \<open>C7. Only the holder of the current lease drives a terminal. Whatever connections come, go and send in
  whatever order, an effect that resizes the terminal, kills its child, writes to it or changes its
  colours is caused only by a connection that holds the lease the registry names at that moment, which
  no other connection holds; for writing and colours also by one whose client has the capability
  of kernel-originated input.\<close>

theorem only_lease_holder_drives:
  assumes "conn_run no_connections s" "conn_step s c es s'" "e \<in> set es" "needs_lease e \<or> needs_input_right e"
  shows "(\<exists>l. or_owner (sy_registry s) = Some l \<and> (\<forall>d. holds_lease s d l \<longleftrightarrow> d = c)) \<or>
    needs_input_right e \<and> (\<exists>st. sy_conns s c = Some st \<and> kernel_input st)"
  using assms(2)
proof (cases rule: conn_step.cases)
  case (frame st msg buffer ctx st' reg')
  have inv: "connections_inv s" using reachable_inv [OF assms(1)] .
  then have "role_matches st" using frame by (auto simp: connections_inv_def)
  note eff = frame_effects [OF frame(3) this assms(3)]
  have "or_owner (sy_registry s) = Some l \<and> (\<forall>d. holds_lease s d l \<longleftrightarrow> d = c)"
    if "ts_owner_lease st = Some l" "ts_owner_lease st = or_owner (sy_registry s)" for l
  proof -
    have "holds_lease s c l" using that frame by (simp add: holds_lease_def)
    then show ?thesis using inv that unfolding connections_inv_def by metis
  qed
  then show ?thesis using eff assms(4) frame by blast
qed (use assms in auto)

theorem only_lease_holder_drives_witness:
  "conn_run no_connections demo_owned \<and> conn_step demo_owned 1 [KillChild] demo_owned \<and>
   (\<exists>l. or_owner (sy_registry demo_owned) = Some l \<and> (\<forall>d. holds_lease demo_owned d l \<longleftrightarrow> d = 1))"
proof -
  obtain st where st: "sy_conns demo_owned = [1 \<mapsto> st]" "ts_attached st" "ts_role st = Some Owner"
      "ts_owner_lease st = Some \<lparr>ol_client_id = 7, ol_generation = 1\<rparr>"
    using demo_owned_eq(2) by blast
  have "on_client_frame Kill st (ring_new 10) (sy_registry demo_owned) demo_context = (st, sy_registry demo_owned, [KillChild])"
    using st demo_owned_eq(1) by (simp add: on_client_frame_def on_attached_frame_def refresh_lease_def)
  then have "conn_step demo_owned 1 [KillChild] \<lparr>sy_registry = sy_registry demo_owned, sy_conns = (sy_conns demo_owned)(1 \<mapsto> st)\<rparr>"
    by (intro conn_step.frame) (simp add: st(1))
  moreover have "\<lparr>sy_registry = sy_registry demo_owned, sy_conns = (sy_conns demo_owned)(1 \<mapsto> st)\<rparr> = demo_owned"
    using st(1) by (cases demo_owned) simp
  ultimately have "conn_step demo_owned 1 [KillChild] demo_owned" by simp
  then show ?thesis
    using only_lease_holder_drives [OF demo_owned_run, of 1 "[KillChild]" demo_owned KillChild] demo_owned_run by simp
qed

text \<open>C17. A permission that lapsed stays lapsed. A write takes the permission of its connection when it is
  received and is checked against the registry when it is carried out. Once the permission of an owner
  is refused, it is refused for ever, whatever connections do: leases are numbered upwards, so that a
  client which becomes the owner again does not revive what it sent under an earlier lease.\<close>

theorem lapsed_permission_stays_refused:
  assumes "conn_run no_connections s" "sy_conns s c = Some st" "input_permission_of st = PermOwner l"
    and "conn_run s s'" "\<not> permission_allowed (PermOwner l) (sy_registry s')" "conn_run s' s''"
  shows "\<not> permission_allowed (PermOwner l) (sy_registry s'')"
proof -
  have inv: "connections_inv s" "connections_inv s'" using reachable_inv [OF assms(1)] conn_run_inv [OF assms(4)] by auto
  have "ts_owner_lease st = Some l" using assms(3) by (auto simp: input_permission_of_def split: option.splits if_splits)
  then have "holds_lease s c l" using assms(2) by (simp add: holds_lease_def)
  then have "issued_by l (sy_registry s)" using inv(1) unfolding connections_inv_def by blast
  then have "issued_by l (sy_registry s')" using leases.run_issued [OF conn_run_registry [OF assms(4) inv(1)]] by blast
  then show ?thesis using leases.run_lapsed [OF conn_run_registry [OF assms(6) inv(2)]] assms(5) by simp
qed

theorem lapsed_permission_stays_refused_witness:
  "\<exists>st. sy_conns demo_owned 1 = Some st \<and> input_permission_of st = PermOwner \<lparr>ol_client_id = 7, ol_generation = 1\<rparr> \<and>
     permission_allowed (PermOwner \<lparr>ol_client_id = 7, ol_generation = 1\<rparr>) (sy_registry demo_owned) \<and>
     \<not> permission_allowed (PermOwner \<lparr>ol_client_id = 7, ol_generation = 1\<rparr>) (sy_registry demo_retaken)"
proof -
  obtain st where st: "sy_conns demo_owned = [1 \<mapsto> st]" "ts_owner_lease st = Some \<lparr>ol_client_id = 7, ol_generation = 1\<rparr>"
    using demo_owned_eq(2) by blast
  have p: "sy_conns demo_owned 1 = Some st" "input_permission_of st = PermOwner \<lparr>ol_client_id = 7, ol_generation = 1\<rparr>"
    using st by (simp_all add: input_permission_of_def)
  have "\<not> permission_allowed (PermOwner \<lparr>ol_client_id = 7, ol_generation = 1\<rparr>) (sy_registry demo_taken)"
    using demo_taken_eq by (simp add: is_current_def)
  from lapsed_permission_stays_refused [OF demo_owned_run p demo_taken_run this demo_retaken_run]
  show ?thesis using p demo_owned_eq(1) by (intro exI [of _ st]) (simp add: is_current_def)
qed

section \<open>Writes under the barrier\<close>

text \<open>A terminal whose first client attaches, whose child is started, and whose client writes one byte.\<close>

definition demo_lease :: owner_lease where
  "demo_lease = \<lparr>ol_client_id = 7, ol_generation = 1\<rparr>"

definition demo_start_plane :: "demo_state render_plane" where
  "demo_start_plane = plane_new demo_vte 4 2 100 100"

definition demo_answers :: scope_answers where
  "demo_answers = \<lparr>an_observe = None, an_control = None\<rparr>"

definition demo_client :: client_lifetime where
  "demo_client = \<lparr>cl_state = \<lparr>ts_attached = True, ts_client_id = Some 7, ts_role = Some Owner, ts_owner_lease = Some demo_lease,
      ts_resize_epoch = 0, ts_last_render_acked_rev = None, ts_capabilities = Some (ch_capabilities demo_client_hello)\<rparr>,
     cl_scope = InteractiveUser, cl_scrollback = Some NoScrollback, cl_direct = []\<rparr>"

definition demo_write :: pty_write where
  "demo_write = \<lparr>pw_data = ''x'', pw_input_seq = 5, pw_ack = Some 0,
     pw_authority = ConnectionAuthority (PermOwner demo_lease) InteractiveUser, pw_shape = Verbatim\<rparr>"

definition demo_system :: "input_barrier \<Rightarrow> supervisor_control list \<Rightarrow> writer \<Rightarrow> demo_state terminal_system" where
  "demo_system b control wr =
     \<lparr>sy_shared = \<lparr>th_plane = demo_start_plane, th_registry = \<lparr>or_owner = Some demo_lease, or_generation = 1\<rparr>,
        th_barrier = b, th_exit = None, th_events = [], th_control = control, th_control_open = True\<rparr>,
      sy_clients = [0 \<mapsto> demo_client], sy_next = 1, sy_writer = wr\<rparr>"

definition demo_idle :: writer where
  "demo_idle = \<lparr>wr_sequence = 0, wr_exited = False, wr_in_flight = None, wr_closed = False\<rparr>"

definition demo_flight :: write_in_flight where
  "demo_flight = \<lparr>wf_write = demo_write, wf_guard = guard_started connection_guard, wf_parts = [''x''], wf_first = 0\<rparr>"

definition demo_writing :: "demo_state terminal_system" where
  "demo_writing = demo_system (barrier_default\<lparr>ib_serial := True, ib_write_completion := True\<rparr>) []
     (demo_idle\<lparr>wr_sequence := 1, wr_in_flight := Some demo_flight\<rparr>)"

lemma demo_hello_step:
  "term_step demo_vte ''t'' 1 (term_start demo_start_plane) (demo_system barrier_awaiting_spawn [] demo_idle)"
proof -
  obtain out where f: "first_frame ''t'' 1 InteractiveUser demo_answers (ClientHello demo_client_hello)
      (sy_shared (term_start demo_start_plane)) =
      Ready (sy_shared (demo_system barrier_awaiting_spawn [] demo_idle), Some demo_client, out)"
    by (simp add: first_frame_def term_start_def grant_def barrier_awaiting_spawn_def barrier_default_def demo_conn_defs
        Let_def drop_grant_def scrollback_of_def demo_client_def demo_system_def demo_lease_def pump_context_def
        rebuild_server_hello_snapshot_def)
  have "demo_system barrier_awaiting_spawn [] demo_idle = (term_start demo_start_plane)
      \<lparr>sy_shared := sy_shared (demo_system barrier_awaiting_spawn [] demo_idle),
       sy_clients := (sy_clients (term_start demo_start_plane))(sy_next (term_start demo_start_plane) \<mapsto> demo_client),
       sy_next := Suc (sy_next (term_start demo_start_plane))\<rparr>"
    by (simp add: demo_system_def term_start_def demo_idle_def)
  then show ?thesis using term_step.hello [OF f, of demo_vte] by simp
qed

lemma demo_spawn_step:
  "term_step demo_vte ''t'' 1 (demo_system barrier_awaiting_spawn [] demo_idle) (demo_system barrier_default [] demo_idle)"
  using term_step.spawn [of demo_vte "''t''" 1 "demo_system barrier_awaiting_spawn [] demo_idle"]
  by (simp add: demo_system_def spawned_def barrier_awaiting_spawn_def barrier_default_def)

lemma demo_input_step:
  "term_step demo_vte ''t'' 1 (demo_system barrier_default [] demo_idle)
     (demo_system barrier_default [CtlWrite demo_write] demo_idle)"
proof -
  have "pump_frame ''t'' 1 0 demo_answers (WireFrame (Input ''x'' 5)) demo_client
      (sy_shared (demo_system barrier_default [] demo_idle)) =
      Ready (sy_shared (demo_system barrier_default [CtlWrite demo_write] demo_idle), demo_client, None, False)"
    by (simp add: pump_frame_def interactive_def barrier_default_def demo_system_def pump_admitted_def Let_def
        demo_client_def on_client_frame_def refresh_lease_def on_attached_frame_def send_control_def
        input_permission_of_def demo_write_def)
  from term_step.frame [where v = demo_vte, OF _ this] show ?thesis by (simp add: demo_system_def fun_upd_idem)
qed

lemma demo_take_step:
  "term_step demo_vte ''t'' 1 (demo_system barrier_default [CtlWrite demo_write] demo_idle) demo_writing"
proof -
  let ?s = "demo_system barrier_default [CtlWrite demo_write] demo_idle"
  have "writer_take demo_answers True (sy_writer ?s) (sy_shared ?s) = Ready (sy_writer demo_writing, sy_shared demo_writing, [])"
    by (simp add: writer_take_def Let_def demo_system_def demo_idle_def begin_write_def demo_write_def admit_write_def grant_def
        barrier_default_def interactive_def is_current_def write_parts_def checked_add_u64_def demo_writing_def demo_flight_def)
  from term_step.writer_takes [where v = demo_vte, OF _ _ this] show ?thesis
    by (simp add: demo_system_def demo_idle_def demo_writing_def route_def)
qed

lemma demo_writing_run: "term_run demo_vte ''t'' 1 (term_start demo_start_plane) demo_writing"
  unfolding term_run_def
  using demo_hello_step demo_spawn_step demo_input_step demo_take_step
  by (meson rtranclp.rtrancl_into_rtrancl rtranclp.rtrancl_refl)

lemma demo_writing_flight: "wr_in_flight (sy_writer demo_writing) = Some demo_flight"
  "pw_authority (wf_write demo_flight) = ConnectionAuthority (PermOwner demo_lease) InteractiveUser"
  by (simp_all add: demo_writing_def demo_system_def demo_flight_def demo_write_def)

text \<open>C14. The server's pumps refine the machine of connections. Whatever the clients' handshakes, frames,
  claims and disconnections, the child's output, the deliveries and the writer do, in whatever order,
  the registry and the connections' states are those of a run of that machine from no connections, so
  that a lease is held by at most one client and an owner named by the registry is connected.\<close>

theorem pumps_refine_connections:
  assumes "term_run v terminal_id session_id (term_start p) s"
  shows "conn_run no_connections (conns_of s) \<and>
    (\<forall>c d l. holds_lease (conns_of s) c l \<and> holds_lease (conns_of s) d l \<longrightarrow> c = d) \<and>
    (\<forall>l. or_owner (th_registry (sy_shared s)) = Some l \<longrightarrow> (\<exists>c. holds_lease (conns_of s) c l))"
proof -
  have run: "conn_run no_connections (conns_of s)"
    using term_run_refines [OF assms term_start_inv(1)] by (simp add: term_start_inv(2))
  have owner: "or_owner (th_registry (sy_shared s)) = or_owner (sy_registry (conns_of s))" by (simp add: conns_of_def)
  from reachable_inv [OF run] have "\<forall>c d l. holds_lease (conns_of s) c l \<longrightarrow> holds_lease (conns_of s) d l \<longrightarrow> c = d"
    "\<forall>l. or_owner (sy_registry (conns_of s)) = Some l \<longrightarrow> (\<exists>c. holds_lease (conns_of s) c l)"
    unfolding connections_inv_def by blast+
  then show ?thesis unfolding owner using run by blast
qed

theorem pumps_refine_connections_witness: "conn_run no_connections (conns_of demo_writing)"
  using pumps_refine_connections [OF demo_writing_run] by blast

text \<open>C6. A write in flight keeps the terminal's owner. From the moment a connection's write is admitted until its
  outcome is known, the registry names the lease the write was admitted under or, when its holder gave
  it up, nobody: no step of any client makes another one the owner, so that no byte of a former owner
  is written after another client was told that it owns the terminal.\<close>

theorem write_in_flight_keeps_owner:
  assumes "term_run v terminal_id session_id (term_start p) s" "wr_in_flight (sy_writer s) = Some f"
    and "pw_authority (wf_write f) = ConnectionAuthority (PermOwner l) scope"
    and "term_step v terminal_id session_id s s'"
  shows "or_owner (th_registry (sy_shared s)) \<in> {Some l, None} \<and>
    or_owner (th_registry (sy_shared s')) \<in> {or_owner (th_registry (sy_shared s)), None}"
proof -
  have "term_inv s" using term_run_inv [OF assms(1) term_start_inv(1)] .
  then have ok: "clients_ok s" "flight_ok (sy_writer s) (sy_shared s)" by (simp_all add: term_inv_def)
  then have "ib_serial (th_barrier (sy_shared s))" "may_write (PermOwner l) (or_owner (th_registry (sy_shared s)))"
    using assms(2,3) by (auto simp: flight_ok_def)
  then show ?thesis using step_owner_kept [OF assms(4) ok(1)] by (simp add: owner_kept_def may_write_def)
qed

theorem write_in_flight_keeps_owner_witness:
  "\<exists>s'. term_step demo_vte ''t'' 1 demo_writing s' \<and> or_owner (th_registry (sy_shared demo_writing)) \<in> {Some demo_lease, None} \<and>
     or_owner (th_registry (sy_shared s')) \<in> {or_owner (th_registry (sy_shared demo_writing)), None}"
  using write_in_flight_keeps_owner [OF demo_writing_run demo_writing_flight term_step.spawn] term_step.spawn by blast

text \<open>C16. After a write of unknown outcome nothing more is written. When the supervisor did not acknowledge
  every part of a connection's write in time, the writer is closed for good and nothing is in flight,
  whatever happens later, and no client becomes the owner of the terminal again.\<close>

theorem unknown_outcome_stops_writes:
  assumes "term_run v terminal_id session_id (term_start p) s" "wr_in_flight (sy_writer s) = Some f"
    and "pw_authority (wf_write f) = ConnectionAuthority permission scope"
    and "finish_write False f (sy_writer s) (sy_shared s) = (wr, sh, acks)"
    and "term_run v terminal_id session_id (s\<lparr>sy_shared := sh, sy_writer := wr, sy_clients := route acks (sy_clients s)\<rparr>) t"
  shows "wr_closed (sy_writer t) \<and> wr_in_flight (sy_writer t) = None \<and>
    (or_owner (th_registry (sy_shared t)) = or_owner (th_registry (sy_shared s)) \<or> or_owner (th_registry (sy_shared t)) = None)"
proof -
  let ?u = "s\<lparr>sy_shared := sh, sy_writer := wr, sy_clients := route acks (sy_clients s)\<rparr>"
  have inv: "term_inv s" using term_run_inv [OF assms(1) term_start_inv(1)] .
  have "term_inv ?u"
    using traffic.inv_step [OF term_step.writer_finishes [OF assms(2,4)] inv] .
  moreover have "wf_guard f = guard_started connection_guard" using inv assms(2,3) by (simp add: term_inv_def flight_ok_def)
  then have "ib_uncertain (th_barrier sh)"
    using assms(4) by (auto simp: finish_write_def close_writer_def guard_drop_def guard_started_def connection_guard_def Let_def)
  ultimately have "ib_uncertain (th_barrier (sy_shared t)) \<and> (or_owner (th_registry (sy_shared t)) = or_owner (th_registry sh) \<or>
      or_owner (th_registry (sy_shared t)) = None)" "term_inv t"
    using run_uncertain [OF assms(5)] term_run_inv [OF assms(5)] by simp_all
  then show ?thesis using finish_write_registry [OF assms(4)] by (auto simp: term_inv_def flight_ok_def)
qed

theorem unknown_outcome_stops_writes_witness:
  "\<exists>wr sh acks. finish_write False demo_flight (sy_writer demo_writing) (sy_shared demo_writing) = (wr, sh, acks) \<and>
     wr_closed wr \<and> wr_in_flight wr = None"
proof -
  obtain wr sh acks where f: "finish_write False demo_flight (sy_writer demo_writing) (sy_shared demo_writing) = (wr, sh, acks)"
    by (metis prod_cases3)
  have "term_run demo_vte ''t'' 1 u u" for u by (simp add: term_run_def)
  from unknown_outcome_stops_writes [OF demo_writing_run demo_writing_flight f this] show ?thesis using f by simp
qed

text \<open>What is written is what was sent: the parts of a write, put together, are its bytes; there is more
  than one only for a submission, whose carriage return is then the whole last part; and no part is empty unless
  the write is.\<close>

theorem write_parts_spec:
  "concat (write_parts data shape) = data \<and> length (write_parts data shape) \<le> 2 \<and>
   (length (write_parts data shape) = 2 \<longleftrightarrow>
      shape = SplitTrailingCr \<and> (\<exists>line. line \<noteq> [] \<and> data = line @ [CHR 0x0D])) \<and>
   ([] \<in> set (write_parts data shape) \<longleftrightarrow> data = [])"
proof (cases "shape = SplitTrailingCr \<and> length data \<ge> 2 \<and> last data = CHR 0x0D")
  case True
  then obtain line where "data = line @ [CHR 0x0D]" "line \<noteq> []" by (cases data rule: rev_cases) (auto simp: Suc_le_eq)
  then show ?thesis using True by (auto simp: write_parts_def)
next
  case False
  then have w: "write_parts data shape = [data]" by (cases shape) (auto simp: write_parts_def)
  have "\<not> (shape = SplitTrailingCr \<and> (\<exists>line. line \<noteq> [] \<and> data = line @ [CHR 0x0D]))"
    using False by (auto simp: Suc_le_eq)
  then show ?thesis by (auto simp: w)
qed

section \<open>A size of zero\<close>

text \<open>A committed size with a zero is not sent to the terminal's process, but the render plane takes it: the
  plane then reports that size and its model has one column or row, whatever the process has.\<close>

lemma zero_resize_not_sent:
  "pump_effect c authority shape (ResizePty 0 rows) (sh, cl) = (sh', cl', closed) \<Longrightarrow>
     th_control sh' = th_control sh \<and> pl_cols (th_plane sh') = 0 \<and> cols_of (pl_model (th_plane sh')) = 1"
  by (auto simp: Let_def request_resize_def plane_resize_def resize_dims send_event_def)

section \<open>The model over its life\<close>

text \<open>C15. The screen stays well-formed. Whatever bytes the child writes and whatever sizes clients
  commit, the model's grid has exactly as many lines as rows and each line as many cells as columns,
  both between 1 and the largest u16, the cursor is on the grid, every cell holds a printable
  character, the scrollback is within its limit, the revision is a u32 and is the one
  last broadcast, and the size is the one the plane reports.\<close>

theorem terminal_stays_wf:
  assumes "prints_only printable v" "cols \<le> u16_max" "rows \<le> u16_max" "list_all input_ok is"
  shows "plane_wf printable (fst (plane_run v is (plane_new v cols rows transcript_max scrollback_max)))"
proof -
  have "printable 32" using assms(1) by (simp add: prints_only_def)
  then show ?thesis using plane_run_wf [OF assms(1,4) plane_wf_new [of printable cols rows]] assms(2,3) by blast
qed

theorem terminal_stays_wf_witness: "plane_wf ascii_printable demo_plane"
  unfolding demo_plane_def
  by (rule terminal_stays_wf [OF demo_prints]) (simp_all add: u16_max_def)

text \<open>C18. What a resize keeps. Each line of the screen is first cut or padded to the new width: a
  narrower width loses the cells beyond it, a width at least the old one loses none. Of the scrollback and
  the screen so cut, read as one text with the blank lines a taller screen adds below, everything is
  still there in order after the resize, except a run of lines at the front and a run of blank lines at the
  end; the front is cut only when the scrollback is then at its limit. The result is well-formed.\<close>

theorem resize_keeps_text:
  assumes "terminal_wf printable m" "printable 32" "cols \<le> u16_max" "rows \<le> u16_max"
  shows "terminal_wf printable (resize cols rows m) \<and>
    (\<exists>pre post. tm_scrollback m @ map (resize_line (max cols 1)) (lines_of m)
        @ replicate (max rows 1 - rows_of m) (replicate (max cols 1) cell_default)
      = pre @ tm_scrollback (resize cols rows m) @ lines_of (resize cols rows m) @ post \<and>
      list_all (list_all is_blank) post \<and>
      (pre = [] \<or> length (tm_scrollback (resize cols rows m)) = tm_scrollback_max_lines (resize cols rows m))) \<and>
    (cols_of m \<le> cols \<longrightarrow> map (\<lambda>l. take (cols_of m) (resize_line (max cols 1) l)) (lines_of m) = lines_of m)"
proof -
  have "length l = cols_of m" if "l \<in> set (lines_of m)" for l
    using assms(1) that by (auto simp: terminal_wf_def grid_wf_def list_all_iff)
  then have "cols_of m \<le> cols \<Longrightarrow> map (\<lambda>l. take (cols_of m) (resize_line (max cols 1) l)) (lines_of m) = lines_of m"
    by (intro map_idI) (simp add: resize_line_def)
  then show ?thesis
    using resize_outcome [OF assms] unfolding keeps_text_def text_of_def full_history_def append_assoc by blast
qed

theorem resize_keeps_text_witness:
  "terminal_wf ascii_printable (pl_model demo_plane) \<and>
   terminal_wf ascii_printable (resize 3 1 (pl_model demo_plane))"
proof -
  have "plane_wf ascii_printable demo_plane"
    unfolding demo_plane_def
    by (rule plane_run_wf [OF demo_prints _ plane_wf_new]) (simp_all add: u16_max_def ascii_printable_def)
  then have "terminal_wf ascii_printable (pl_model demo_plane)" by (simp add: plane_wf_def)
  then show ?thesis
    using resize_keeps_text [of ascii_printable "pl_model demo_plane" 3 1] by (simp add: u16_max_def ascii_printable_def)
qed

text \<open>C26. A revision identifies a screen. Feeding bytes never lowers the revision, and while it is below the
  largest u32, an unchanged revision means that grid, cursor, pen, scrollback and visibility of the cursor
  are unchanged: what compares revisions misses no change.\<close>

theorem same_revision_same_screen:
  assumes "tm_rev m < u32_max"
  shows "tm_rev m \<le> tm_rev (feed v bytes m) \<and>
    (tm_rev (feed v bytes m) = tm_rev m \<longrightarrow> visible (feed v bytes m) = visible m)"
  using feed_rev_tells [of m v bytes] assms by (auto simp: rev_tells_def)

theorem same_revision_same_screen_witness:
  "tm_rev (feed demo_vte [ESC] (terminal_new demo_vte 4 2 0)) = tm_rev (terminal_new demo_vte 4 2 0) \<and>
   visible (feed demo_vte [ESC] (terminal_new demo_vte 4 2 0)) = visible (terminal_new demo_vte 4 2 0)"
proof -
  have "tm_rev (terminal_new demo_vte 4 2 0) < u32_max"
    "tm_rev (feed demo_vte [ESC] (terminal_new demo_vte 4 2 0)) = tm_rev (terminal_new demo_vte 4 2 0)"
    by (simp_all add: feed_def demo_vte_def terminal_new_def u32_max_def)
  then show ?thesis using same_revision_same_screen by blast
qed

section \<open>What is broadcast\<close>

text \<open>C19. Broadcasts form a chain. Over any run of a render plane, every patch names as its previous
  revision exactly the revision of the patch or snapshot broadcast before it (0 at the start),
  revisions never decrease along the chain, and the last one is the revision of the model:
  a client that applies patches in order can tell a gap from the revisions alone.\<close>

theorem broadcasts_form_chain:
  assumes "prints_only printable v" "cols \<le> u16_max" "rows \<le> u16_max" "list_all input_ok is"
    and "plane_run v is (plane_new v cols rows transcript_max scrollback_max) = (p, es)"
  shows "chained 0 es \<and> last_rev 0 es = tm_rev (pl_model p)"
proof -
  have "printable 32" using assms(1) by (simp add: prints_only_def)
  then have n: "plane_wf printable (plane_new v cols rows transcript_max scrollback_max)"
    using plane_wf_new [of printable cols rows] assms(2,3) by blast
  have "pl_last_emitted_render_rev p = tm_rev (pl_model p)"
    using plane_run_wf [OF assms(1,4) n] assms(5) by (simp add: plane_wf_def)
  then show ?thesis using plane_run_chained [OF assms(1,4) n assms(5)] by (simp add: plane_new_def)
qed

text \<open>A run with output, a resize, a poll after the quiet period and more output.\<close>

definition demo_inputs :: "plane_input list" where
  "demo_inputs = [InChunk 0 ''hi'', InResize 3 2, InPoll 200, InChunk 300 ''!'', InPoll 900]"

theorem broadcasts_form_chain_witness:
  "chained 0 (snd (plane_run demo_vte demo_inputs (plane_new demo_vte 4 2 100 100)))"
proof -
  have "list_all input_ok demo_inputs" by (simp add: demo_inputs_def u16_max_def)
  from broadcasts_form_chain [OF demo_prints _ _ this prod.collapse [symmetric], of 4 2 100 100]
  show ?thesis by (simp add: u16_max_def)
qed

text \<open>Readiness is announced once. Over any run of a render plane at most one broadcast says that the
  child is ready, none before the child's first output was processed, and it was announced exactly
  when the plane's flag says so, from which a later client's hello learns it.\<close>

theorem child_ready_once:
  assumes "prints_only printable v" "cols \<le> u16_max" "rows \<le> u16_max" "list_all input_ok is"
    and "plane_run v is (plane_new v cols rows transcript_max scrollback_max) = (p, es)"
  shows "ready_count es = (if pl_child_ready_fired p then 1 else 0) \<and>
    (\<forall>seq rev. Broadcast (ChildReady seq rev) \<in> set es \<longrightarrow> 1 \<le> seq)"
proof -
  have "printable 32" using assms(1) by (simp add: prints_only_def)
  then have "plane_wf printable (plane_new v cols rows transcript_max scrollback_max)"
    using plane_wf_new [of printable cols rows] assms(2,3) by blast
  from plane_run_ready [OF assms(1,4) this assms(5)] show ?thesis by (simp add: plane_new_def)
qed

theorem child_ready_once_witness:
  "ready_count (snd (plane_run demo_vte demo_inputs (plane_new demo_vte 4 2 100 100))) \<le> 1"
proof -
  have "list_all input_ok demo_inputs" by (simp add: demo_inputs_def u16_max_def)
  from child_ready_once [OF demo_prints _ _ this prod.collapse [symmetric], of 4 2 100 100]
  show ?thesis by (simp add: u16_max_def)
qed

text \<open>C35. The ring keeps the longest recent run of chunks. The chunks \<open>css\<close> are broadcast as patches
  numbered from 1 up, and afterwards the ring holds those from number \<open>k + 1\<close> on: they fit its limit, or are
  the last chunk alone, which is kept even when it is larger than the limit, and with the chunk before them
  they would not fit. The tail the broadcaster reports is the number of the last patch. The head it reports
  is \<open>k\<close>, the number of the newest chunk that is gone, or 0 when none is, one less than the number of the
  oldest chunk in the ring. All numbers stop at the largest u32.\<close>

theorem ring_keeps_recent_output:
  "\<exists>k b. broadcast_run css (broadcaster_new max_bytes) = (b, map numbered_patch (enumerate 1 css)) \<and>
    k \<le> length css \<and> ring_snapshot (pb_buffer b) = concat (drop k css) \<and>
    (length (concat (drop k css)) \<le> max_bytes \<or> Suc k = length css) \<and>
    (k = 0 \<or> length (concat (drop (k - 1) css)) > max_bytes) \<and>
    pb_pty_seq_head b = min k u32_max \<and> pb_pty_seq b = min (length css) u32_max"
proof -
  define b where "b = fold (\<lambda>c b. fst (broadcast_chunk c b)) css (broadcaster_new max_bytes)"
  have run: "broadcast_run css (broadcaster_new max_bytes) = (b, map numbered_patch (enumerate 1 css))"
    using broadcast_run_numbered [of "broadcaster_new max_bytes" 0 css]
    by (intro prod_eqI) (simp_all add: broadcast_run_fst b_def broadcaster_new_def)
  obtain k where k: "ring_holds max_bytes css k (pb_buffer b)" "pb_pty_seq b = min (length css) u32_max"
      "pb_pty_seq_head b = min k u32_max"
    using broadcaster_run [OF b_def] by blast
  then have "k \<le> length css" "ring_snapshot (pb_buffer b) = concat (drop k css)"
    "length (concat (drop k css)) \<le> max_bytes \<or> Suc k = length css"
    "k = 0 \<or> length (concat (drop (k - 1) css)) > max_bytes"
    by (auto simp: ring_holds_def ring_snapshot_def ring_ok_def)
  then show ?thesis using k(2,3) run by blast
qed

section \<open>Frames\<close>

text \<open>C25. A stream of frames reads back as the messages written. When decoding inverts encoding,
  any messages written one after the other are read back in order, and what follows them
  is left in the stream.\<close>

theorem frames_roundtrip:
  assumes "\<And>msg buf. encode msg = Inr buf \<Longrightarrow> decode buf = Inr (msg, length buf)"
    and "list_all2 (\<lambda>msg s. write_frame encode msg = (Inr s :: (string, ('ee, 'de) frame_error) result)) msgs ss"
  shows "read_frames (length msgs) decode (concat ss @ rest) = (Inr (msgs, rest) :: (_, ('ee, 'de) frame_error) result)"
  using read_written_frames [OF assms(1)] assms(2) by blast

theorem frames_roundtrip_witness:
  "\<exists>s. write_frame Inr ''hi'' = (Inr s :: (string, (unit, unit) frame_error) result) \<and>
     read_frames 2 (\<lambda>b. Inr (b, length b)) (s @ s @ ''tail'') =
       (Inr ([''hi'', ''hi''], ''tail'') :: (_, (unit, unit) frame_error) result)"
proof -
  have w: "write_frame Inr ''hi'' = (Inr (frame_bytes ''hi'') :: (string, (unit, unit) frame_error) result)"
    by (simp add: write_frame_Inr MAX_FRAME_def)
  then show ?thesis
    using frames_roundtrip [of Inr "\<lambda>b. Inr (b, length b)" "[''hi'', ''hi'']" "[frame_bytes ''hi'', frame_bytes ''hi'']" "''tail''"]
    by (intro exI [of _ "frame_bytes ''hi''"]) (simp add: numeral_2_eq_2)
qed

text \<open>A frame is accepted exactly when it is well-formed. Reading succeeds with a message if and only if
  the stream starts with the magic, the version, the length of a payload of at most 16 MiB and that
  payload, and the payload decodes to the message; the rest of the stream is untouched.\<close>

theorem frame_accepted_iff:
  fixes decode :: "string \<Rightarrow> ('a \<times> nat, 'd) result"
  shows "(read_frame decode s :: ('a \<times> string, ('e, 'd) frame_error) result) = Inr (msg, rest) \<longleftrightarrow>
     (\<exists>buf n. s = ''NEIG'' @ be_bytes 2 4 @ be_bytes 4 (length buf) @ buf @ rest \<and>
        length buf \<le> 16777216 \<and> decode buf = Inr (msg, n))"
  unfolding read_frame_Inr by (simp add: frame_bytes_def FRAME_MAGIC_def FRAME_VERSION_def MAX_FRAME_def)

section \<open>Tabs near the largest width\<close>

text \<open>The tab stop is computed in u16 before it is limited to the last column, so from the last eight
  columns of the widest terminals a tab goes back to the first column (and panics where overflow is checked).\<close>

lemma tab_wraps:
  "65528 \<le> col_of m \<Longrightarrow> col_of m \<le> u16_max \<Longrightarrow> col_of (horizontal_tab m) = 0"
proof -
  assume c: "65528 \<le> col_of m" "col_of m \<le> u16_max"
  then have "col_of m div 8 = 8191" by (simp add: u16_max_def)
  then have "mul_u16 (add_u16 (col_of m div 8) 1) 8 = 0" by (simp add: mul_u16_def add_u16_def u16_max_def)
  then show ?thesis by (simp add: horizontal_tab_def)
qed

end
