(* ===== verification/Spec2Isabelle.thy ===== *)
theory Spec2Isabelle
  imports Objective_Properties Gate_Properties Harness_Properties Terminal_Properties
begin

text \<open>
  Verification of parts of neige-calm, a server that runs coding agents on tracks of work. Four parts
  are modelled, each with the code it depends on; source paths are below src/.

  \<^bold>\<open>The objective engine\<close> (crates/objective) decides when an agent may stop. It is a deterministic machine:
  a log of events goes in, a state of objectives and a list of intents for the host come out. Every
  objective has a definition with checks, a standard a human approves, a running evaluation whose
  samples the host reports, a verdict, and a ledger of settled evaluations with the baseline later
  candidates are compared with.

  \<^bold>\<open>The write gate\<close> (crates/calm-truth) decides whether an actor may append an event at a scope. The
  gate on caches is \<open>enforce_role\<close> of role\_gate.rs; decision\_gate.rs resolves an actor named by a session
  to the card the session is bound to, fills the caches from the write transaction, and asks
  \<open>enforce_role\<close>. The \<open>worker_sessions\<close> rows it reads are written by db/sqlite: session\_row.rs, session\_mirror.rs,
  session\_projection.rs, provider\_execution.rs and the statements of a few other files.

  \<^bold>\<open>The pending queue of a harness\<close> (crates/calm-server/src/harness) holds what an agent has yet to be
  told. Observations arrive and are folded, admitted or refused; people edit, delete or steer their
  own entries under a revision; a batch is drained for a turn and put back when the turn was not
  taken; the queue is kept on disk as four arrays beside each other.

  \<^bold>\<open>Terminals\<close> (crates/calm-session) show what a child process writes to clients that come and go. A
  terminal model interprets the output; a render plane feeds it, broadcasts each chunk as a patch with a
  revision and builds snapshots; every connection is a state machine that turns frames into effects,
  and a registry of leases says which connection may drive the terminal. The server's pumps
  (crates/calm-server/src/terminal\_renderer) run these machines under an input barrier and hand admitted writes
  to a writer. Messages travel in frames.

  They meet in the vocabulary of crates/calm-types: actors, scopes, sessions and roles are shared by
  gate and store, observations by queue and gate's events.

  \<^bold>\<open>Shared theories.\<close>
  \<^item> Calm\_Prelude: machine integers, results (\<open>Inl\<close> the error), text, list and option lemmas.
  \<^item> Ordered\_Map: Rust's BTreeMap as the locale \<open>ordered_map\<close> and its interpretation on sorted lists.
  \<^item> F64: the ordering and formatting of f64 the checks use.
  \<^item> Event\_Machine: locales for machines driven by a log: invariants over a log (\<open>event_machine\<close>), what a
    log only extends (\<open>evolving_machine\<close>), numbers that are never reused (\<open>numbered_machine\<close>).

  \<^bold>\<open>Objective theories.\<close>
  \<^item> Objective\_Check (check/, diagnostic.rs): the kinds of check, each an interpretation of \<open>check_kind\<close>.
  \<^item> Objective\_Definition (definition.rs, standard.rs), Objective\_Verdict (verdict.rs, ledger.rs),
    Objective\_Command (command.rs).
  \<^item> Objective\_Engine (engine/, trigger.rs): state, events, intents, the reducer and the trigger rules.
  \<^item> Objective\_Step, Objective\_Invariant, Objective\_Lifecycle, Objective\_Ratchet, Objective\_Runs,
    Objective\_Completion, Objective\_Counters: one reaction as an inductive relation, the invariant of the
    state, the refinement of an abstract life cycle, the ratchet's promise, the runs and compactions asked
    of the host, completion of evaluations whatever the order of samples, and the counters.
  \<^item> Objective\_Properties: the properties over logs replayed from the empty state.

  \<^bold>\<open>Gate theories.\<close>
  \<^item> Worker\_Vocabulary (calm-types worker.rs, runtime.rs, model.rs): the enumerations and their database
    spelling; each is an interpretation of \<open>db_enum\<close>, which gives that spelling and parsing are inverse.
  \<^item> Actors (calm-types model.rs, event.rs): actors, scopes and their columns, kinds of event.
  \<^item> Role\_Gate (role\_gate.rs, card\_role\_cache.rs, track\_area\_cache.rs): the caches (locale
    \<open>keyed_cache\<close>) and the gate with every violation it reports.
  \<^item> Gate\_Policy: the specification \<open>permits\<close>, without an order of checks, and that the gate decides it.
  \<^item> Session\_Store (db/sqlite/session\_row.rs): the row, its decoding, and insert, liveness, activity,
    transition and exit. Session\_Mirror (session\_mirror.rs, session\_projection.rs): starting, superseding,
    restoring and removing a session, the pointers of cards and tracks, credentials, single columns.
    Session\_Owners (provider\_execution.rs, session\_system\_error\_recovery.rs, carrier.rs, workspace\_execution.rs,
    the server's scheduler and acp\_planner): claims, recovery and the remaining statements.
    Session\_Lifecycle: all of them as a step relation, labelled by what is brought back or removed, and what
    its runs keep.
  \<^item> Decision\_Gate (decision\_gate.rs): the transaction's reads, session resolution, hydration of the
    caches, the authority of cards and recorders. Gate\_Authority: hydrated caches agree with the database.
  \<^item> Gate\_Properties: the properties, on a concrete database for the witnesses.

  \<^bold>\<open>Harness theories.\<close>
  \<^item> Harness\_Observation (calm-types observation.rs), Harness\_Queue (queue.rs), Harness\_Intake (run\_loop.rs,
    issuance.rs, mod.rs), Harness\_Snapshot (snapshot.rs), Harness\_State (state.rs).
  \<^item> Harness\_Queue\_Facts: the addressable view of a queue, mutations and folds on it, admission, the disk copy.
  \<^item> Harness\_Machine: arrivals, mutations, drains and returns as an inductive step relation, and its invariant.
  \<^item> Harness\_Properties: the properties.

  \<^bold>\<open>Terminal theories.\<close>
  \<^item> Terminal\_Model (terminal\_model.rs): cells, grid, the calls the parser makes, every handler, \<open>feed\<close>,
    \<open>resize\<close>, snapshot and scrollback as escape sequences. Terminal\_Invariant: well-formedness, what a
    resize keeps, what a revision tells. Terminal\_Snapshot: feeding a snapshot to another terminal.
  \<^item> Terminal\_Owner (terminal\_owner.rs, input\_authority.rs): leases, and the locale \<open>lease_issuer\<close> for what
    is issued once and lapses for good. Terminal\_Session (lib.rs, terminal\_session.rs, the server's snapshot.rs):
    messages, a connection, the ring, the broadcaster and the render plane.
  \<^item> Terminal\_Connections: connections in any order as an inductive step relation, and its invariant.
    Terminal\_Render: the ring's contents, the render plane as a machine, its chain of revisions.
  \<^item> Terminal\_Authority (input\_authority.rs): scopes, the input barrier, admission of a write. Terminal\_Pump
    (client\_pump.rs, control\_writer.rs): handshake, frames, delivery, the writer. Terminal\_Traffic: clients, child
    and writer as an inductive step relation; the locale \<open>refinement_map\<close>, interpreted on the abstraction to
    the machine of connections; the invariant of locks, owner and write in flight.
  \<^item> Wire\_Frame (lib.rs): frames over a stream of bytes.
  \<^item> Terminal\_Properties: the properties, and a concrete parser for the witnesses.

  \<^bold>\<open>What the theorems show.\<close> Of the engine: its invariant over every log, that a started evaluation
  completes, that a ready one has a result for every check, the life cycle, that a ratchet never slips
  and that identifiers are not reused. Of the gate: that it is exactly its policy, that deciding on hydrated
  caches is deciding on the database, that a session's admitted write stays in its own track and that a
  failing read refuses; of the store, that a row that is not deleted keeps its identity, that an ended
  session stays ended unless an operation brings it back, that a claimed session is not exited or
  superseded, and that a session is read back as it was written. Of the queue: that a mutation is a compare and swap on the addressable view
  and never panics, that ids stay unique, that revisions do not wrap, that folding and eviction lose
  no id a client was shown, that the disk copy gives the queue back, and that the loop bounding the
  memory of hook keys ends. Of terminals: that a client that attaches sees the screen (its lines but
  for the last column, cursor and modes), that only the holder of the current lease drives the
  terminal and a lapsed permission never revives, that the pumps refine that machine, keep the owner
  while a write is in flight and write nothing after one of unknown outcome, that the screen stays within its bounds, that a
  resize cuts lines to the new width and otherwise keeps the text up to blank lines and a full scrollback,
  that patches form a chain of revisions and an unchanged
  revision an unchanged screen, that the ring is the longest recent run of output that fits, and
  that frames are read back as written and accepted exactly when well-formed.

  \<^bold>\<open>Parameters.\<close> The digest of a standard (serde\_json, sha2), the JSON library (\<open>serde\<close>, \<open>claim_codec\<close>), SQLite's
  JSON functions (\<open>sql_json\<close>), whether SQLite admits a state of the tables (\<open>admit\<close>, \<open>adm\<close>: its constraints), the parser of terminal output (\<open>vte\<close>) and
  the encoding of messages (bincode), minted ids and clocks are arguments. Of the parser it is assumed that it
  reads control sequences and encoded characters as such, of bincode that decoding inverts encoding. Text is the
  list of its UTF-8 bytes, \<open>Instant\<close> a number, an i64 column of milliseconds an \<open>int\<close>; revisions and
  counters that may overflow are words, and in the terminal theories naturals with the wrap-around or
  saturation of u16 and u32 written out. There is no fuel: every loop of the modelled code is a
  total function, with a termination proof where it is not structural.

  \<^bold>\<open>Not modelled.\<close> The exchange with the process supervisor (calm-session control.rs, its retries and the stop
  escalation), the asynchronous run loop and its locks (each modelled function is one step; where the source
  releases its locks within one, as in \<open>first_frame\<close>, \<open>pump_admitted\<close> and \<open>admit_write\<close>, the theory says so),
  the inputs of a harness that belong to its conversation, the fixture reset of replay.rs, the trigger that
  counts a session's failures, provider protocols, HTTP and websocket endpoints, SQL tables other than the reads and
  writes above, the text of a turn built from observations, and the remaining crates, which are
  processes, sockets, rendering or file-system work around these parts.
\<close>

end
